theory Spec2Isabelle
  imports Main "HOL-Library.Multiset" "HOL-Library.Sublist" "HOL-Library.Word"
begin

section \<open>Values of the Go runtime and of the standard library\<close>

text \<open>
  A \<open>time.Time\<close> is the instant it denotes, in nanoseconds relative to the Unix epoch:
  \<open>t.Before(u)\<close> is \<open>t < u\<close>, \<open>t.After(u)\<close> is \<open>u < t\<close> and \<open>t.Add(d)\<close> is \<open>t + d\<close>.
  A \<open>time.Duration\<close> is an \<open>int64\<close> of nanoseconds, held as an integer; where the code
  negates a duration that may be negative, the wrap-around is written out.
  A \<open>float64\<close> is its bit pattern: the storage layer copies these fields and never
  computes with them. Byte slices and strings are both \<open>string\<close>.
\<close>

type_synonym time = int
type_synonym Duration = int
type_synonym float64 = "64 word"
type_synonym bytes = string
type_synonym addr = nat

text \<open>The zero \<open>time.Time{}\<close>: 1 January of year 1, 00:00:00 UTC.\<close>

definition Time_zero :: time where
  "Time_zero = - 62135596800000000000"

text \<open>
  Error values. \<open>External\<close> is an error handed back by a library or by the injected
  object client, \<open>Errorf msg e\<close> is \<open>fmt.Errorf(msg + ": %w", e)\<close>, \<open>ErrorNew\<close> is an
  error made from a message alone. The last two are run-time panics.
\<close>

datatype error =
    External string
  | Errorf string error
  | ErrorNew string
  | NilDereference
  | SliceBoundsOutOfRange

section \<open>types.Snapshot\<close>

record RuntimeInfo =
  GoVersion :: string
  NumGoroutines :: int
  GOMAXPROCS :: int
  NumCPU :: int
  UptimeSeconds :: float64

record MemoryInfo =
  HeapInUseBytes :: "64 word"
  HeapAllocatedBytes :: "64 word"
  HeapObjects :: "64 word"
  TotalAllocBytes :: "64 word"
  GCCycles :: "32 word"
  LastGCPauseSeconds :: float64
  GCCPUFraction :: float64

record GoroutineInfo =
  TotalCount :: int

text \<open>
  The struct \<open>Snapshot\<close> has a string and three pointer fields. The record leaves the
  representation of the three fields open: in memory they are pointers (\<open>addr option\<close>,
  \<open>None\<close> for nil) into the heap below; what the JSON encoding carries, and what a
  freshly decoded snapshot holds, is the record with the nested values in place.
\<close>

record ('r, 'm, 'g) Snapshot =
  Timestamp :: string
  Runtime :: 'r
  Memory :: 'm
  Goroutines :: 'g

type_synonym Snapshot_struct = "(addr option, addr option, addr option) Snapshot"
type_synonym Snapshot_value =
  "(RuntimeInfo option, MemoryInfo option, GoroutineInfo option) Snapshot"

text \<open>
  \<open>ParseTimestamp\<close> calls \<open>time.Parse(time.RFC3339Nano, s.Timestamp)\<close>. The parser is
  the standard library's; it is the parameter \<open>time_Parse\<close> of every function that
  reaches it.
\<close>

definition ParseTimestamp ::
  "(string \<Rightarrow> error + time) \<Rightarrow> ('r, 'm, 'g) Snapshot \<Rightarrow> error + time" where
  "ParseTimestamp time_Parse s = time_Parse (Timestamp s)"

text \<open>
  The discarded error of \<open>ti, _ := s.ParseTimestamp()\<close>: \<open>time.Parse\<close> returns the
  zero time with an error.
\<close>

definition ParseTimestamp_ignore_err ::
  "(string \<Rightarrow> error + time) \<Rightarrow> ('r, 'm, 'g) Snapshot \<Rightarrow> time" where
  "ParseTimestamp_ignore_err time_Parse s =
     (case ParseTimestamp time_Parse s of Inl e \<Rightarrow> Time_zero | Inr t \<Rightarrow> t)"

section \<open>The heap\<close>

text \<open>
  Snapshots and their nested records live in cells; an address is an index into the
  cells of its type, and allocation appends a cell. A pointer is \<open>addr option\<close>.
\<close>

record heap =
  snapshot_cells :: "Snapshot_struct list"
  runtime_cells :: "RuntimeInfo list"
  memory_cells :: "MemoryInfo list"
  goroutine_cells :: "GoroutineInfo list"

definition load_Snapshot :: "heap \<Rightarrow> addr option \<Rightarrow> Snapshot_struct option" where
  "load_Snapshot h p =
     (case p of
        None \<Rightarrow> None
      | Some a \<Rightarrow> if a < length (snapshot_cells h) then Some (snapshot_cells h ! a) else None)"

definition new_Snapshot :: "heap \<Rightarrow> Snapshot_struct \<Rightarrow> addr \<times> heap" where
  "new_Snapshot h s =
     (length (snapshot_cells h), h\<lparr>snapshot_cells := snapshot_cells h @ [s]\<rparr>)"

definition load_cell :: "'a list \<Rightarrow> addr option \<Rightarrow> 'a option" where
  "load_cell cells p =
     (case p of
        None \<Rightarrow> None
      | Some a \<Rightarrow> if a < length cells then Some (cells ! a) else None)"

text \<open>What a reader of the snapshot at \<open>p\<close> sees, following the three pointers.\<close>

definition read_Snapshot :: "heap \<Rightarrow> addr option \<Rightarrow> Snapshot_value option" where
  "read_Snapshot h p =
     (case load_Snapshot h p of
        None \<Rightarrow> None
      | Some s \<Rightarrow>
          Some \<lparr>Timestamp = Timestamp s,
                Runtime = load_cell (runtime_cells h) (Runtime s),
                Memory = load_cell (memory_cells h) (Memory s),
                Goroutines = load_cell (goroutine_cells h) (Goroutines s)\<rparr>)"

section \<open>storage.QueryOptions\<close>

definition OrderByTimeAsc :: int where
  "OrderByTimeAsc = 0"

definition OrderByTimeDesc :: int where
  "OrderByTimeDesc = 1"

record QueryOptions =
  StartTime :: "time option"
  EndTime :: "time option"
  Limit :: int
  OrderBy :: int

text \<open>The literal \<open>&QueryOptions{}\<close>: every field has its zero value.\<close>

definition QueryOptions_zero :: QueryOptions where
  "QueryOptions_zero = \<lparr>StartTime = None, EndTime = None, Limit = 0, OrderBy = 0\<rparr>"

definition opts_or_zero :: "QueryOptions option \<Rightarrow> QueryOptions" where
  "opts_or_zero opts = (case opts of None \<Rightarrow> QueryOptions_zero | Some q \<Rightarrow> q)"

text \<open>The time filter shared by every \<open>Query\<close> loop: \<open>True\<close> when the snapshot is kept.\<close>

definition in_time_range :: "QueryOptions \<Rightarrow> time \<Rightarrow> bool" where
  "in_time_range opts timestamp =
     (if StartTime opts \<noteq> None \<and> timestamp < the (StartTime opts) then False
      else if EndTime opts \<noteq> None \<and> the (EndTime opts) < timestamp then False
      else True)"

text \<open>
  The comparison closure given to \<open>sort.Slice\<close>, on the two parsed times and on two
  snapshots: \<open>ti.Before(tj)\<close> when the order is \<open>OrderByTimeAsc\<close>, \<open>tj.Before(ti)\<close>
  for every other value of the order.
\<close>

definition before_in_order :: "int \<Rightarrow> time \<Rightarrow> time \<Rightarrow> bool" where
  "before_in_order orderBy ti tj = (if orderBy = OrderByTimeAsc then ti < tj else tj < ti)"

definition snapshot_less ::
  "(string \<Rightarrow> error + time) \<Rightarrow> int \<Rightarrow> ('r, 'm, 'g) Snapshot \<Rightarrow> ('r, 'm, 'g) Snapshot \<Rightarrow> bool" where
  "snapshot_less time_Parse orderBy si sj =
     (let ti = ParseTimestamp_ignore_err time_Parse si;
          tj = ParseTimestamp_ignore_err time_Parse sj
      in before_in_order orderBy ti tj)"

text \<open>What a \<open>Query\<close> loop keeps: the timestamp parses and lies within the bounds.\<close>

definition query_keeps ::
  "(string \<Rightarrow> error + time) \<Rightarrow> QueryOptions \<Rightarrow> ('r, 'm, 'g) Snapshot \<Rightarrow> bool" where
  "query_keeps time_Parse opts s =
     (case ParseTimestamp time_Parse s of
        Inl err \<Rightarrow> False
      | Inr timestamp \<Rightarrow> in_time_range opts timestamp)"

text \<open>The truncation \<open>results[:opts.Limit]\<close> under its guard.\<close>

definition apply_limit :: "QueryOptions \<Rightarrow> 'a list \<Rightarrow> 'a list" where
  "apply_limit opts results =
     (if 0 < Limit opts \<and> Limit opts < int (length results)
      then take (nat (Limit opts)) results else results)"

section \<open>sort.Slice\<close>

text \<open>
  \<open>sort.Slice\<close> is the standard library's and is not stable. It is a parameter
  \<open>sort_Slice\<close> of the functions below, and the theorems assume of it what its
  documentation promises: the result is a rearrangement of the input, and when \<open>less\<close>
  is a strict weak ordering no later element is less than an earlier one.
\<close>

definition strict_weak_order :: "('a \<Rightarrow> 'a \<Rightarrow> bool) \<Rightarrow> bool" where
  "strict_weak_order lt \<longleftrightarrow>
     (\<forall>a. \<not> lt a a) \<and>
     (\<forall>a b c. lt a b \<and> lt b c \<longrightarrow> lt a c) \<and>
     (\<forall>a b c. \<not> lt a b \<and> \<not> lt b c \<longrightarrow> \<not> lt a c)"

definition sort_Slice_spec :: "(('a \<Rightarrow> 'a \<Rightarrow> bool) \<Rightarrow> 'a list \<Rightarrow> 'a list) \<Rightarrow> bool" where
  "sort_Slice_spec sort_Slice \<longleftrightarrow>
     (\<forall>lt xs. mset (sort_Slice lt xs) = mset xs \<and>
        (strict_weak_order lt \<longrightarrow> sorted_wrt (\<lambda>a b. \<not> lt b a) (sort_Slice lt xs)))"

text \<open>
  The insertion sort that Go's \<open>sort.Slice\<close> runs on a slice of fewer than 12 elements
  (\<open>insertionSortLessFunc\<close>): each element moves left while it is less than its left
  neighbour. It is the instance at which the theorems are run.
\<close>

fun insert_by :: "('a \<Rightarrow> 'a \<Rightarrow> bool) \<Rightarrow> 'a \<Rightarrow> 'a list \<Rightarrow> 'a list" where
  "insert_by lt x [] = [x]"
| "insert_by lt x (y # ys) = (if lt x y then y # insert_by lt x ys else x # y # ys)"

fun insertion_sort_rev :: "('a \<Rightarrow> 'a \<Rightarrow> bool) \<Rightarrow> 'a list \<Rightarrow> 'a list \<Rightarrow> 'a list" where
  "insertion_sort_rev lt sorted_part [] = sorted_part"
| "insertion_sort_rev lt sorted_part (x # xs) = insertion_sort_rev lt (insert_by lt x sorted_part) xs"

definition insertionSort :: "('a \<Rightarrow> 'a \<Rightarrow> bool) \<Rightarrow> 'a list \<Rightarrow> 'a list" where
  "insertionSort lt xs = rev (insertion_sort_rev lt [] xs)"

text \<open>
  The instance of \<open>time.Parse\<close> at which the theorems are run: it knows the instants of
  the RFC 3339 strings of its table and reports an error on every other string.
\<close>

definition time_Parse_table :: "(string \<times> time) list \<Rightarrow> string \<Rightarrow> error + time" where
  "time_Parse_table table s =
     (case map_of table s of
        None \<Rightarrow> Inl (External ''parsing time: cannot parse'')
      | Some t \<Rightarrow> Inr t)"

section \<open>BoundedMemoryStorage\<close>

record BoundedMemoryStorage =
  snapshots :: "addr list"
  maxSize :: int

definition NewBoundedMemoryStorage :: "int \<Rightarrow> BoundedMemoryStorage" where
  "NewBoundedMemoryStorage n =
     \<lparr>snapshots = [], maxSize = (if n \<le> 0 then 1000 else n)\<rparr>"

text \<open>
  \<open>Store\<close>: the eviction \<open>m.snapshots[1:]\<close>, then the copy \<open>snapshotCopy := *snapshot\<close>
  (a nil \<open>snapshot\<close> panics) into a new cell whose address is appended.
\<close>

definition BoundedMemoryStorage_Store ::
  "heap \<Rightarrow> BoundedMemoryStorage \<Rightarrow> addr option \<Rightarrow> error + (heap \<times> BoundedMemoryStorage)" where
  "BoundedMemoryStorage_Store h m snapshot =
     (if maxSize m \<le> int (length (snapshots m)) \<and> snapshots m = [] then Inl SliceBoundsOutOfRange
      else
        let kept = (if maxSize m \<le> int (length (snapshots m))
                    then drop 1 (snapshots m) else snapshots m)
        in case load_Snapshot h snapshot of
             None \<Rightarrow> Inl NilDereference
           | Some snapshotCopy \<Rightarrow>
               let (a, h') = new_Snapshot h snapshotCopy
               in Inr (h', m\<lparr>snapshots := kept @ [a]\<rparr>))"

text \<open>The loop \<open>for _, snapshot := range snapshots\<close> that copies and appends.\<close>

fun append_copies :: "heap \<Rightarrow> addr list \<Rightarrow> addr option list \<Rightarrow> error + (heap \<times> addr list)" where
  "append_copies h stored [] = Inr (h, stored)"
| "append_copies h stored (snapshot # rest) =
     (case load_Snapshot h snapshot of
        None \<Rightarrow> Inl NilDereference
      | Some snapshotCopy \<Rightarrow>
          let (a, h') = new_Snapshot h snapshotCopy
          in append_copies h' (stored @ [a]) rest)"

definition BoundedMemoryStorage_StoreBatch ::
  "heap \<Rightarrow> BoundedMemoryStorage \<Rightarrow> addr option list \<Rightarrow> error + (heap \<times> BoundedMemoryStorage)" where
  "BoundedMemoryStorage_StoreBatch h m batch =
     (let totalAfter = int (length (snapshots m)) + int (length batch);
          kept =
            (if maxSize m < totalAfter then
               let evictCount = totalAfter - maxSize m;
                   evictCount = (if int (length (snapshots m)) < evictCount
                                 then int (length (snapshots m)) else evictCount)
               in drop (nat evictCount) (snapshots m)
             else snapshots m)
      in case append_copies h kept batch of
           Inl e \<Rightarrow> Inl e
         | Inr (h', stored) \<Rightarrow> Inr (h', m\<lparr>snapshots := stored\<rparr>))"

text \<open>
  The loop of \<open>Query\<close> over the stored pointers: a snapshot whose timestamp does not
  parse or lies outside the bounds is passed over, every other one is copied into a new
  cell and the address of the copy is appended to \<open>results\<close>.
\<close>

fun query_copies ::
  "(string \<Rightarrow> error + time) \<Rightarrow> QueryOptions \<Rightarrow> heap \<Rightarrow> addr list \<Rightarrow> addr list \<Rightarrow>
   error + (heap \<times> addr list)" where
  "query_copies time_Parse opts h results [] = Inr (h, results)"
| "query_copies time_Parse opts h results (p # rest) =
     (case load_Snapshot h (Some p) of
        None \<Rightarrow> Inl NilDereference
      | Some snapshot \<Rightarrow>
          (case ParseTimestamp time_Parse snapshot of
             Inl err \<Rightarrow> query_copies time_Parse opts h results rest
           | Inr timestamp \<Rightarrow>
               if \<not> in_time_range opts timestamp
               then query_copies time_Parse opts h results rest
               else
                 let (a, h') = new_Snapshot h snapshot
                 in query_copies time_Parse opts h' (results @ [a]) rest))"

text \<open>
  The closure of \<open>sort.Slice\<close> reads the two snapshots through the pointers in
  \<open>results\<close>. The loop allocated them, so the load succeeds; the model gives the zero
  time to an address that is not allocated.
\<close>

definition pointer_time :: "(string \<Rightarrow> error + time) \<Rightarrow> heap \<Rightarrow> addr \<Rightarrow> time" where
  "pointer_time time_Parse h a =
     (case load_Snapshot h (Some a) of
        None \<Rightarrow> Time_zero
      | Some s \<Rightarrow> ParseTimestamp_ignore_err time_Parse s)"

definition pointer_less ::
  "(string \<Rightarrow> error + time) \<Rightarrow> heap \<Rightarrow> int \<Rightarrow> addr \<Rightarrow> addr \<Rightarrow> bool" where
  "pointer_less time_Parse h orderBy i j =
     (let ti = pointer_time time_Parse h i;
          tj = pointer_time time_Parse h j
      in before_in_order orderBy ti tj)"

definition memory_Query ::
  "((addr \<Rightarrow> addr \<Rightarrow> bool) \<Rightarrow> addr list \<Rightarrow> addr list) \<Rightarrow> (string \<Rightarrow> error + time) \<Rightarrow>
   heap \<Rightarrow> addr list \<Rightarrow> QueryOptions option \<Rightarrow> error + (heap \<times> addr list)" where
  "memory_Query sort_Slice time_Parse h stored opts_ptr =
     (let opts = opts_or_zero opts_ptr
      in case query_copies time_Parse opts h [] stored of
           Inl e \<Rightarrow> Inl e
         | Inr (h', results) \<Rightarrow>
             let results = sort_Slice (pointer_less time_Parse h' (OrderBy opts)) results
             in Inr (h', apply_limit opts results))"

definition BoundedMemoryStorage_Query ::
  "((addr \<Rightarrow> addr \<Rightarrow> bool) \<Rightarrow> addr list \<Rightarrow> addr list) \<Rightarrow> (string \<Rightarrow> error + time) \<Rightarrow>
   heap \<Rightarrow> BoundedMemoryStorage \<Rightarrow> QueryOptions option \<Rightarrow> error + (heap \<times> addr list)" where
  "BoundedMemoryStorage_Query sort_Slice time_Parse h m opts =
     memory_Query sort_Slice time_Parse h (snapshots m) opts"

section \<open>MemoryStorage\<close>

record MemoryStorage =
  mem_snapshots :: "addr list"

definition NewMemoryStorage :: MemoryStorage where
  "NewMemoryStorage = \<lparr>mem_snapshots = []\<rparr>"

definition MemoryStorage_Store ::
  "heap \<Rightarrow> MemoryStorage \<Rightarrow> addr option \<Rightarrow> error + (heap \<times> MemoryStorage)" where
  "MemoryStorage_Store h m snapshot =
     (case load_Snapshot h snapshot of
        None \<Rightarrow> Inl NilDereference
      | Some snapshotCopy \<Rightarrow>
          let (a, h') = new_Snapshot h snapshotCopy
          in Inr (h', m\<lparr>mem_snapshots := mem_snapshots m @ [a]\<rparr>))"

definition MemoryStorage_StoreBatch ::
  "heap \<Rightarrow> MemoryStorage \<Rightarrow> addr option list \<Rightarrow> error + (heap \<times> MemoryStorage)" where
  "MemoryStorage_StoreBatch h m batch =
     (case append_copies h (mem_snapshots m) batch of
        Inl e \<Rightarrow> Inl e
      | Inr (h', stored) \<Rightarrow> Inr (h', m\<lparr>mem_snapshots := stored\<rparr>))"

definition MemoryStorage_Query ::
  "((addr \<Rightarrow> addr \<Rightarrow> bool) \<Rightarrow> addr list \<Rightarrow> addr list) \<Rightarrow> (string \<Rightarrow> error + time) \<Rightarrow>
   heap \<Rightarrow> MemoryStorage \<Rightarrow> QueryOptions option \<Rightarrow> error + (heap \<times> addr list)" where
  "MemoryStorage_Query sort_Slice time_Parse h m opts =
     memory_Query sort_Slice time_Parse h (mem_snapshots m) opts"

section \<open>encoding/json and the file system\<close>

text \<open>
  \<open>FromJSON\<close> and \<open>ToJSON\<close> call \<open>json.Unmarshal\<close> and \<open>json.Marshal\<close>, which are
  parameters. A decoded snapshot is new: nothing else points to it.
\<close>

definition FromJSON ::
  "(bytes \<Rightarrow> error + ('r, 'm, 'g) Snapshot) \<Rightarrow> bytes \<Rightarrow> error + ('r, 'm, 'g) Snapshot" where
  "FromJSON json_Unmarshal data =
     (case json_Unmarshal data of Inl err \<Rightarrow> Inl err | Inr snapshot \<Rightarrow> Inr snapshot)"

definition ToJSON ::
  "(('r, 'm, 'g) Snapshot \<Rightarrow> error + bytes) \<Rightarrow> ('r, 'm, 'g) Snapshot \<Rightarrow> error + bytes" where
  "ToJSON json_Marshal s = json_Marshal s"

text \<open>The instance of \<open>json.Unmarshal\<close> at which the theorems are run.\<close>

definition json_Unmarshal_table ::
  "(bytes \<times> ('r, 'm, 'g) Snapshot) list \<Rightarrow> bytes \<Rightarrow> error + ('r, 'm, 'g) Snapshot" where
  "json_Unmarshal_table table data =
     (case map_of table data of
        None \<Rightarrow> Inl (External ''invalid character looking for beginning of value'')
      | Some s \<Rightarrow> Inr s)"

text \<open>
  A directory entry as \<open>os.ReadDir\<close> returns it, with the result of \<open>entry.Info()\<close>
  reduced to the modification time, and what the calls of the file system answer.
\<close>

record DirEntry =
  Name :: string
  IsDir :: bool
  Info :: "error + time"

record filesystem =
  os_ReadDir :: "string \<Rightarrow> error + DirEntry list"
  os_ReadFile :: "string \<Rightarrow> error + bytes"

text \<open>
  \<open>filepath.Ext\<close>: the suffix from the last dot of the last path element, scanning
  from the end up to a separator. \<open>filepath.Join\<close> is modelled without its path
  cleaning: the path only names the file to \<open>os.ReadFile\<close> and \<open>os.Remove\<close>.
\<close>

fun Ext_scan :: "string \<Rightarrow> string \<Rightarrow> string" where
  "Ext_scan [] ext = []"
| "Ext_scan (c # front) ext =
     (if c = CHR ''/'' then []
      else if c = CHR ''.'' then c # ext
      else Ext_scan front (c # ext))"

definition filepath_Ext :: "string \<Rightarrow> string" where
  "filepath_Ext p = Ext_scan (rev p) []"

definition filepath_Join :: "string \<Rightarrow> string \<Rightarrow> string" where
  "filepath_Join dir name = dir @ ''/'' @ name"

section \<open>FileStorage\<close>

record FileStorage =
  baseDir :: string

fun FileStorage_Query_loop ::
  "(bytes \<Rightarrow> error + ('r, 'm, 'g) Snapshot) \<Rightarrow> (string \<Rightarrow> error + time) \<Rightarrow> filesystem \<Rightarrow>
   string \<Rightarrow> QueryOptions \<Rightarrow> ('r, 'm, 'g) Snapshot list \<Rightarrow> DirEntry list \<Rightarrow>
   ('r, 'm, 'g) Snapshot list" where
  "FileStorage_Query_loop json_Unmarshal time_Parse fs dir opts results [] = results"
| "FileStorage_Query_loop json_Unmarshal time_Parse fs dir opts results (entry # rest) =
     (if IsDir entry \<or> filepath_Ext (Name entry) \<noteq> ''.json''
      then FileStorage_Query_loop json_Unmarshal time_Parse fs dir opts results rest
      else
        let filePath = filepath_Join dir (Name entry)
        in case os_ReadFile fs filePath of
             Inl err \<Rightarrow> FileStorage_Query_loop json_Unmarshal time_Parse fs dir opts results rest
           | Inr data \<Rightarrow>
               (case FromJSON json_Unmarshal data of
                  Inl err \<Rightarrow>
                    FileStorage_Query_loop json_Unmarshal time_Parse fs dir opts results rest
                | Inr snapshot \<Rightarrow>
                    (case ParseTimestamp time_Parse snapshot of
                       Inl err \<Rightarrow>
                         FileStorage_Query_loop json_Unmarshal time_Parse fs dir opts results rest
                     | Inr timestamp \<Rightarrow>
                         if \<not> in_time_range opts timestamp
                         then FileStorage_Query_loop json_Unmarshal time_Parse fs dir opts
                                results rest
                         else FileStorage_Query_loop json_Unmarshal time_Parse fs dir opts
                                (results @ [snapshot]) rest)))"

definition sortSnapshots ::
  "((('r, 'm, 'g) Snapshot \<Rightarrow> ('r, 'm, 'g) Snapshot \<Rightarrow> bool) \<Rightarrow>
      ('r, 'm, 'g) Snapshot list \<Rightarrow> ('r, 'm, 'g) Snapshot list) \<Rightarrow>
   (string \<Rightarrow> error + time) \<Rightarrow> ('r, 'm, 'g) Snapshot list \<Rightarrow> int \<Rightarrow>
   ('r, 'm, 'g) Snapshot list" where
  "sortSnapshots sort_Slice time_Parse snaps orderBy =
     sort_Slice (snapshot_less time_Parse orderBy) snaps"

definition FileStorage_Query ::
  "((('r, 'm, 'g) Snapshot \<Rightarrow> ('r, 'm, 'g) Snapshot \<Rightarrow> bool) \<Rightarrow>
      ('r, 'm, 'g) Snapshot list \<Rightarrow> ('r, 'm, 'g) Snapshot list) \<Rightarrow>
   (bytes \<Rightarrow> error + ('r, 'm, 'g) Snapshot) \<Rightarrow> (string \<Rightarrow> error + time) \<Rightarrow> filesystem \<Rightarrow>
   'z FileStorage_scheme \<Rightarrow> QueryOptions option \<Rightarrow> error + ('r, 'm, 'g) Snapshot list" where
  "FileStorage_Query sort_Slice json_Unmarshal time_Parse fs f opts_ptr =
     (let opts = opts_or_zero opts_ptr
      in case os_ReadDir fs (baseDir f) of
           Inl err \<Rightarrow> Inl (Errorf ''failed to read directory'' err)
         | Inr entries \<Rightarrow>
             let results = FileStorage_Query_loop json_Unmarshal time_Parse fs (baseDir f) opts
                             [] entries;
                 results = sortSnapshots sort_Slice time_Parse results (OrderBy opts)
             in Inr (apply_limit opts results))"

section \<open>ManagedFileStorage\<close>

text \<open>The struct embeds \<open>*FileStorage\<close>; the record extends it.\<close>

record ManagedFileStorage = FileStorage +
  maxFiles :: int
  maxAge :: Duration

record fileInfo =
  path :: string
  timestamp :: time
  modTime :: time

definition parseFile ::
  "(bytes \<Rightarrow> error + ('r, 'm, 'g) Snapshot) \<Rightarrow> filesystem \<Rightarrow> string \<Rightarrow>
   error + ('r, 'm, 'g) Snapshot" where
  "parseFile json_Unmarshal fs filePath =
     (case os_ReadFile fs filePath of
        Inl err \<Rightarrow> Inl err
      | Inr data \<Rightarrow> FromJSON json_Unmarshal data)"

text \<open>The first loop of \<open>cleanup\<close>: the files and their effective timestamps.\<close>

fun cleanup_collect ::
  "(bytes \<Rightarrow> error + ('r, 'm, 'g) Snapshot) \<Rightarrow> (string \<Rightarrow> error + time) \<Rightarrow> filesystem \<Rightarrow>
   string \<Rightarrow> fileInfo list \<Rightarrow> DirEntry list \<Rightarrow> fileInfo list" where
  "cleanup_collect json_Unmarshal time_Parse fs dir files [] = files"
| "cleanup_collect json_Unmarshal time_Parse fs dir files (entry # rest) =
     (if IsDir entry \<or> filepath_Ext (Name entry) \<noteq> ''.json''
      then cleanup_collect json_Unmarshal time_Parse fs dir files rest
      else
        let filePath = filepath_Join dir (Name entry)
        in case Info entry of
             Inl err \<Rightarrow> cleanup_collect json_Unmarshal time_Parse fs dir files rest
           | Inr info_ModTime \<Rightarrow>
               let ts = (case parseFile json_Unmarshal fs filePath of
                           Inl err \<Rightarrow> info_ModTime
                         | Inr snapshot \<Rightarrow>
                             (case ParseTimestamp time_Parse snapshot of
                                Inl err \<Rightarrow> info_ModTime
                              | Inr parsed \<Rightarrow> parsed))
               in cleanup_collect json_Unmarshal time_Parse fs dir
                    (files @ [\<lparr>path = filePath, timestamp = ts, modTime = info_ModTime\<rparr>])
                    rest)"

text \<open>The loop that marks the files older than \<open>cutoff\<close>.\<close>

fun mark_older :: "time \<Rightarrow> string list \<Rightarrow> fileInfo list \<Rightarrow> string list" where
  "mark_older cutoff toDelete [] = toDelete"
| "mark_older cutoff toDelete (file # rest) =
     (if timestamp file < cutoff
      then mark_older cutoff (toDelete @ [path file]) rest
      else mark_older cutoff toDelete rest)"

text \<open>The inner loop \<open>alreadyMarked\<close> and the loop that marks the oldest unmarked files.\<close>

fun alreadyMarked :: "string \<Rightarrow> string list \<Rightarrow> bool" where
  "alreadyMarked p [] = False"
| "alreadyMarked p (delPath # rest) = (if delPath = p then True else alreadyMarked p rest)"

fun mark_oldest :: "int \<Rightarrow> string list \<Rightarrow> fileInfo list \<Rightarrow> string list" where
  "mark_oldest deleteCount toDelete [] = toDelete"
| "mark_oldest deleteCount toDelete (file # rest) =
     (if deleteCount \<le> 0 then toDelete
      else if alreadyMarked (path file) toDelete
      then mark_oldest deleteCount toDelete rest
      else mark_oldest (deleteCount - 1) (toDelete @ [path file]) rest)"

text \<open>The retention policies of \<open>cleanup\<close>, from the sorted files to the paths to delete.\<close>

definition retention_marks :: "'z ManagedFileStorage_scheme \<Rightarrow> time \<Rightarrow> fileInfo list \<Rightarrow> string list" where
  "retention_marks m now files =
     (let toDelete = [];
          toDelete = (if 0 < maxAge m
                      then let cutoff = now + (- maxAge m) in mark_older cutoff toDelete files
                      else toDelete);
          toDelete = (if 0 < maxFiles m
                      then
                        let remaining = int (length files) - int (length toDelete)
                        in if maxFiles m < remaining
                           then let deleteCount = remaining - maxFiles m
                                in mark_oldest deleteCount toDelete files
                           else toDelete
                      else toDelete)
      in toDelete)"

text \<open>
  \<open>cleanup\<close> returns the error of \<open>os.ReadDir\<close>, or the paths on which it calls
  \<open>os.Remove\<close>, in that order; it discards what \<open>os.Remove\<close> returns.
\<close>

definition ManagedFileStorage_cleanup ::
  "((fileInfo \<Rightarrow> fileInfo \<Rightarrow> bool) \<Rightarrow> fileInfo list \<Rightarrow> fileInfo list) \<Rightarrow>
   (bytes \<Rightarrow> error + ('r, 'm, 'g) Snapshot) \<Rightarrow> (string \<Rightarrow> error + time) \<Rightarrow> filesystem \<Rightarrow>
   time \<Rightarrow> 'z ManagedFileStorage_scheme \<Rightarrow> error + string list" where
  "ManagedFileStorage_cleanup sort_Slice json_Unmarshal time_Parse fs now m =
     (case os_ReadDir fs (baseDir m) of
        Inl err \<Rightarrow> Inl (Errorf ''failed to read directory'' err)
      | Inr entries \<Rightarrow>
          let files = cleanup_collect json_Unmarshal time_Parse fs (baseDir m) [] entries;
              files = sort_Slice (\<lambda>fi fj. timestamp fi < timestamp fj) files
          in Inr (retention_marks m now files))"

section \<open>CloudObjectStorage\<close>

text \<open>
  The injected client is any implementation of the interface \<open>ObjectStorage\<close>. Its state
  is the history of the calls it has answered, and each method is a function of that
  history and of the arguments; the functions below append every call with its answer.
\<close>

datatype os_event =
    Listed string string "error + string list"
  | Got string string "error + bytes"
  | Deleted string string "error option"

record ObjectStorage =
  GetObject :: "os_event list \<Rightarrow> string \<Rightarrow> string \<Rightarrow> error + bytes"
  ListObjects :: "os_event list \<Rightarrow> string \<Rightarrow> string \<Rightarrow> error + string list"
  DeleteObject :: "os_event list \<Rightarrow> string \<Rightarrow> string \<Rightarrow> error option"

record CloudObjectStorage =
  client :: ObjectStorage
  bucket :: string
  cos_prefix :: string
  cos_maxAge :: Duration

definition shouldDeleteObject ::
  "(bytes \<Rightarrow> error + ('r, 'm, 'g) Snapshot) \<Rightarrow> (string \<Rightarrow> error + time) \<Rightarrow>
   CloudObjectStorage \<Rightarrow> os_event list \<Rightarrow> string \<Rightarrow> time \<Rightarrow> (error + bool) \<times> os_event list" where
  "shouldDeleteObject json_Unmarshal time_Parse c hist key cutoff =
     (let got = GetObject (client c) hist (bucket c) key;
          hist = hist @ [Got (bucket c) key got]
      in case got of
           Inl err \<Rightarrow> (Inl err, hist)
         | Inr data \<Rightarrow>
             (case FromJSON json_Unmarshal data of
                Inl err \<Rightarrow> (Inl err, hist)
              | Inr snapshot \<Rightarrow>
                  (case ParseTimestamp time_Parse snapshot of
                     Inl err \<Rightarrow> (Inl err, hist)
                   | Inr ts \<Rightarrow> (Inr (ts < cutoff), hist))))"

text \<open>The loop of \<open>cleanup\<close> over the listed keys; the error of \<open>DeleteObject\<close> is dropped.\<close>

fun cleanup_objects ::
  "(bytes \<Rightarrow> error + ('r, 'm, 'g) Snapshot) \<Rightarrow> (string \<Rightarrow> error + time) \<Rightarrow>
   CloudObjectStorage \<Rightarrow> os_event list \<Rightarrow> time \<Rightarrow> string list \<Rightarrow> os_event list" where
  "cleanup_objects json_Unmarshal time_Parse c hist cutoff [] = hist"
| "cleanup_objects json_Unmarshal time_Parse c hist cutoff (key # rest) =
     (case shouldDeleteObject json_Unmarshal time_Parse c hist key cutoff of
        (Inr True, hist) \<Rightarrow>
          let deleted = DeleteObject (client c) hist (bucket c) key
          in cleanup_objects json_Unmarshal time_Parse c
               (hist @ [Deleted (bucket c) key deleted]) cutoff rest
      | (_, hist) \<Rightarrow> cleanup_objects json_Unmarshal time_Parse c hist cutoff rest)"

text \<open>
  \<open>-d\<close> on a \<open>time.Duration\<close>, which is an \<open>int64\<close>: the negation wraps, so that the
  negation of the least \<open>int64\<close> is itself.
\<close>

definition Duration_neg :: "Duration \<Rightarrow> Duration" where
  "Duration_neg d = sint (- (word_of_int d :: 64 word))"

definition CloudObjectStorage_cleanup ::
  "(bytes \<Rightarrow> error + ('r, 'm, 'g) Snapshot) \<Rightarrow> (string \<Rightarrow> error + time) \<Rightarrow>
   CloudObjectStorage \<Rightarrow> time \<Rightarrow> os_event list \<Rightarrow> error option \<times> os_event list" where
  "CloudObjectStorage_cleanup json_Unmarshal time_Parse c now hist =
     (if cos_maxAge c = 0 then (None, hist)
      else
        let listed = ListObjects (client c) hist (bucket c) (cos_prefix c);
            hist = hist @ [Listed (bucket c) (cos_prefix c) listed]
        in case listed of
             Inl err \<Rightarrow> (Some (Errorf ''failed to list objects'' err), hist)
           | Inr keys \<Rightarrow>
               let cutoff = now + Duration_neg (cos_maxAge c)
               in (None, cleanup_objects json_Unmarshal time_Parse c hist cutoff keys))"

fun CloudObjectStorage_Query_loop ::
  "(bytes \<Rightarrow> error + ('r, 'm, 'g) Snapshot) \<Rightarrow> (string \<Rightarrow> error + time) \<Rightarrow>
   CloudObjectStorage \<Rightarrow> QueryOptions \<Rightarrow> os_event list \<Rightarrow> ('r, 'm, 'g) Snapshot list \<Rightarrow>
   string list \<Rightarrow> ('r, 'm, 'g) Snapshot list \<times> os_event list" where
  "CloudObjectStorage_Query_loop json_Unmarshal time_Parse c opts hist results [] =
     (results, hist)"
| "CloudObjectStorage_Query_loop json_Unmarshal time_Parse c opts hist results (key # rest) =
     (let got = GetObject (client c) hist (bucket c) key;
          hist = hist @ [Got (bucket c) key got]
      in case got of
           Inl err \<Rightarrow> CloudObjectStorage_Query_loop json_Unmarshal time_Parse c opts hist results rest
         | Inr data \<Rightarrow>
             (case FromJSON json_Unmarshal data of
                Inl err \<Rightarrow>
                  CloudObjectStorage_Query_loop json_Unmarshal time_Parse c opts hist results rest
              | Inr snapshot \<Rightarrow>
                  (case ParseTimestamp time_Parse snapshot of
                     Inl err \<Rightarrow>
                       CloudObjectStorage_Query_loop json_Unmarshal time_Parse c opts hist
                         results rest
                   | Inr ts \<Rightarrow>
                       if \<not> in_time_range opts ts
                       then CloudObjectStorage_Query_loop json_Unmarshal time_Parse c opts hist
                              results rest
                       else CloudObjectStorage_Query_loop json_Unmarshal time_Parse c opts hist
                              (results @ [snapshot]) rest)))"

definition CloudObjectStorage_Query ::
  "((('r, 'm, 'g) Snapshot \<Rightarrow> ('r, 'm, 'g) Snapshot \<Rightarrow> bool) \<Rightarrow>
      ('r, 'm, 'g) Snapshot list \<Rightarrow> ('r, 'm, 'g) Snapshot list) \<Rightarrow>
   (bytes \<Rightarrow> error + ('r, 'm, 'g) Snapshot) \<Rightarrow> (string \<Rightarrow> error + time) \<Rightarrow>
   CloudObjectStorage \<Rightarrow> os_event list \<Rightarrow> QueryOptions option \<Rightarrow>
   (error + ('r, 'm, 'g) Snapshot list) \<times> os_event list" where
  "CloudObjectStorage_Query sort_Slice json_Unmarshal time_Parse c hist opts_ptr =
     (let opts = opts_or_zero opts_ptr;
          listed = ListObjects (client c) hist (bucket c) (cos_prefix c);
          hist = hist @ [Listed (bucket c) (cos_prefix c) listed]
      in case listed of
           Inl err \<Rightarrow> (Inl (Errorf ''failed to list objects'' err), hist)
         | Inr keys \<Rightarrow>
             let (results, hist) =
                   CloudObjectStorage_Query_loop json_Unmarshal time_Parse c opts hist [] keys;
                 results = sortSnapshots sort_Slice time_Parse results (OrderBy opts)
             in (Inr (apply_limit opts results), hist))"

section \<open>DatabaseStorage\<close>

text \<open>
  The connection pool \<open>*sql.DB\<close> and the engine behind it are external. As with the
  object client, the state is the history of the calls and each call is answered by a
  function of the history: \<open>sql_driver\<close> collects these functions.
\<close>

datatype sql_event =
    Opened string string "error option"
  | Exec string "error option"
  | Closed
  | ExecContext string time bytes "error option"
  | BeginTx "error option"
  | PrepareContext string "error option"
  | StmtExecContext time bytes "error option"
  | StmtClose
  | Commit "error option"
  | Rollback "error option"
  | QueryContext string "time list" "error + ((error + bytes) list \<times> error option)"

record sql_driver =
  sql_Open :: "sql_event list \<Rightarrow> string \<Rightarrow> string \<Rightarrow> error option"
  db_Exec :: "sql_event list \<Rightarrow> string \<Rightarrow> error option"
  db_ExecContext :: "sql_event list \<Rightarrow> string \<Rightarrow> time \<Rightarrow> bytes \<Rightarrow> error option"
  db_BeginTx :: "sql_event list \<Rightarrow> error option"
  tx_PrepareContext :: "sql_event list \<Rightarrow> string \<Rightarrow> error option"
  stmt_ExecContext :: "sql_event list \<Rightarrow> time \<Rightarrow> bytes \<Rightarrow> error option"
  tx_Commit :: "sql_event list \<Rightarrow> error option"
  tx_Rollback :: "sql_event list \<Rightarrow> error option"
  db_QueryContext ::
    "sql_event list \<Rightarrow> string \<Rightarrow> time list \<Rightarrow> error + ((error + bytes) list \<times> error option)"


record DatabaseStorage =
  driver :: string
  dsn :: string





text \<open>The statement that \<open>Store\<close> and \<open>StoreBatch\<close> choose by the driver.\<close>

definition insert_sql :: "string \<Rightarrow> string" where
  "insert_sql drv =
     (if drv = ''postgres''
      then ''INSERT INTO inspectd_snapshots (timestamp, data) VALUES ($1, $2::jsonb)''
      else if drv = ''mysql''
      then ''INSERT INTO inspectd_snapshots (timestamp, data) VALUES (?, ?)''
      else ''INSERT INTO inspectd_snapshots (timestamp, data) VALUES (?, ?)'')"


text \<open>
  The loop of \<open>StoreBatch\<close>: \<open>continue\<close> on a timestamp that does not parse and on a
  snapshot that does not marshal, \<open>return\<close> on the first insert that fails.
\<close>

fun StoreBatch_inserts ::
  "(string \<Rightarrow> error + time) \<Rightarrow> (('r, 'm, 'g) Snapshot \<Rightarrow> error + bytes) \<Rightarrow> sql_driver \<Rightarrow>
   sql_event list \<Rightarrow> ('r, 'm, 'g) Snapshot option list \<Rightarrow> error option \<times> sql_event list" where
  "StoreBatch_inserts time_Parse json_Marshal db hist [] = (None, hist)"
| "StoreBatch_inserts time_Parse json_Marshal db hist (snapshot # rest) =
     (case snapshot of
        None \<Rightarrow> (Some NilDereference, hist)
      | Some s \<Rightarrow>
          (case ParseTimestamp time_Parse s of
             Inl err \<Rightarrow> StoreBatch_inserts time_Parse json_Marshal db hist rest
           | Inr ts \<Rightarrow>
               (case ToJSON json_Marshal s of
                  Inl err \<Rightarrow> StoreBatch_inserts time_Parse json_Marshal db hist rest
                | Inr jsonData \<Rightarrow>
                    let err = stmt_ExecContext db hist ts jsonData;
                        hist = hist @ [StmtExecContext ts jsonData err]
                    in case err of
                         Some e \<Rightarrow> (Some (Errorf ''failed to insert snapshot'' e), hist)
                       | None \<Rightarrow> StoreBatch_inserts time_Parse json_Marshal db hist rest)))"

text \<open>
  \<open>StoreBatch\<close> with its deferred calls, which run when the function returns, last
  deferred first: \<open>stmt.Close()\<close>, then \<open>tx.Rollback()\<close>.
\<close>

definition DatabaseStorage_StoreBatch ::
  "(string \<Rightarrow> error + time) \<Rightarrow> (('r, 'm, 'g) Snapshot \<Rightarrow> error + bytes) \<Rightarrow> sql_driver \<Rightarrow>
   DatabaseStorage \<Rightarrow> sql_event list \<Rightarrow> ('r, 'm, 'g) Snapshot option list \<Rightarrow>
   error option \<times> sql_event list" where
  "DatabaseStorage_StoreBatch time_Parse json_Marshal db d hist batch =
     (let begun = db_BeginTx db hist;
          hist = hist @ [BeginTx begun]
      in case begun of
           Some err \<Rightarrow> (Some (Errorf ''failed to begin transaction'' err), hist)
         | None \<Rightarrow>
             let query = insert_sql (driver d);
                 prepared = tx_PrepareContext db hist query;
                 hist = hist @ [PrepareContext query prepared]
             in case prepared of
                  Some err \<Rightarrow>
                    (Some (Errorf ''failed to prepare statement'' err),
                     hist @ [Rollback (tx_Rollback db hist)])
                | None \<Rightarrow>
                    (case StoreBatch_inserts time_Parse json_Marshal db hist batch of
                       (Some err, hist) \<Rightarrow>
                         let hist = hist @ [StmtClose]
                         in (Some err, hist @ [Rollback (tx_Rollback db hist)])
                     | (None, hist) \<Rightarrow>
                         let committed = tx_Commit db hist;
                             hist = hist @ [Commit committed, StmtClose]
                         in (committed, hist @ [Rollback (tx_Rollback db hist)])))"

text \<open>\<open>%d\<close> of \<open>fmt.Sprintf\<close> on an \<open>int\<close>.\<close>

fun decimal :: "nat \<Rightarrow> string" where
  "decimal n =
     (if n < 10 then [char_of (48 + n)]
      else decimal (n div 10) @ [char_of (48 + n mod 10)])"

definition Sprintf_d :: "int \<Rightarrow> string" where
  "Sprintf_d i = (if i < 0 then CHR ''-'' # decimal (nat (- i)) else decimal (nat i))"

text \<open>The text and the arguments that \<open>Query\<close> builds.\<close>

definition Query_build :: "string \<Rightarrow> QueryOptions \<Rightarrow> string \<times> time list" where
  "Query_build drv opts =
     (let query = ''SELECT data FROM inspectd_snapshots WHERE 1=1'';
          args = [];
          argIndex = (1 :: int);
          (query, args, argIndex) =
            (if StartTime opts \<noteq> None
             then ((if drv = ''postgres''
                    then query @ '' AND timestamp >= $'' @ Sprintf_d argIndex
                    else query @ '' AND timestamp >= ?''),
                   args @ [the (StartTime opts)], argIndex + 1)
             else (query, args, argIndex));
          (query, args, argIndex) =
            (if EndTime opts \<noteq> None
             then ((if drv = ''postgres''
                    then query @ '' AND timestamp <= $'' @ Sprintf_d argIndex
                    else query @ '' AND timestamp <= ?''),
                   args @ [the (EndTime opts)], argIndex + 1)
             else (query, args, argIndex));
          query = (if OrderBy opts = OrderByTimeAsc
                   then query @ '' ORDER BY timestamp ASC''
                   else query @ '' ORDER BY timestamp DESC'');
          query = (if 0 < Limit opts
                   then query @ '' LIMIT '' @ Sprintf_d (Limit opts)
                   else query)
      in (query, args))"



text \<open>
  What a transactional engine holds after a history: the rows of the inserts made
  outside a transaction, and of the inserts of every transaction that was committed.
  The state is the durable rows and, inside a transaction, its pending rows.
\<close>

fun engine_step ::
  "(time \<times> bytes) list \<times> (time \<times> bytes) list option \<Rightarrow> sql_event \<Rightarrow>
   (time \<times> bytes) list \<times> (time \<times> bytes) list option" where
  "engine_step (durable, pending) (BeginTx None) = (durable, Some [])"
| "engine_step (durable, Some rows) (StmtExecContext ts data None) =
     (durable, Some (rows @ [(ts, data)]))"
| "engine_step (durable, Some rows) (Commit None) = (durable @ rows, None)"
| "engine_step (durable, Some rows) (Commit (Some err)) = (durable, None)"
| "engine_step (durable, Some rows) (Rollback r) = (durable, None)"
| "engine_step (durable, pending) (ExecContext query ts data None) =
     (durable @ [(ts, data)], pending)"
| "engine_step (durable, pending) event = (durable, pending)"

definition persisted_rows :: "sql_event list \<Rightarrow> (time \<times> bytes) list" where
  "persisted_rows hist = fst (foldl engine_step ([], None) hist)"

section \<open>Reading the stored snapshots\<close>

text \<open>What the cells at a list of addresses hold; \<open>None\<close> where an address is not allocated.\<close>

definition stored_values :: "heap \<Rightarrow> addr list \<Rightarrow> Snapshot_struct option list" where
  "stored_values h as = map (\<lambda>a. load_Snapshot h (Some a)) as"

text \<open>Successive \<open>Store\<close> calls of a caller, stopping at the first panic.\<close>

fun Store_each ::
  "heap \<Rightarrow> BoundedMemoryStorage \<Rightarrow> addr option list \<Rightarrow> error + (heap \<times> BoundedMemoryStorage)" where
  "Store_each h m [] = Inr (h, m)"
| "Store_each h m (p # ps) =
     (case BoundedMemoryStorage_Store h m p of
        Inl e \<Rightarrow> Inl e
      | Inr (h', m') \<Rightarrow> Store_each h' m' ps)"

section \<open>What a backend holds\<close>

text \<open>
  The snapshot of a directory entry: the entry is a regular file with the extension
  \<open>.json\<close> that can be read and decoded. The snapshots of a directory are those of its
  entries, in the order of the listing.
\<close>

definition decode_entry ::
  "(bytes \<Rightarrow> error + ('r, 'm, 'g) Snapshot) \<Rightarrow> filesystem \<Rightarrow> string \<Rightarrow> DirEntry \<Rightarrow>
   ('r, 'm, 'g) Snapshot option" where
  "decode_entry json_Unmarshal fs dir entry =
     (if IsDir entry \<or> filepath_Ext (Name entry) \<noteq> ''.json'' then None
      else case os_ReadFile fs (filepath_Join dir (Name entry)) of
             Inl err \<Rightarrow> None
           | Inr data \<Rightarrow>
               (case json_Unmarshal data of Inl err \<Rightarrow> None | Inr s \<Rightarrow> Some s))"

definition directory_snapshots ::
  "(bytes \<Rightarrow> error + ('r, 'm, 'g) Snapshot) \<Rightarrow> filesystem \<Rightarrow> string \<Rightarrow> DirEntry list \<Rightarrow>
   ('r, 'm, 'g) Snapshot list" where
  "directory_snapshots json_Unmarshal fs dir entries =
     List.map_filter (decode_entry json_Unmarshal fs dir) entries"

text \<open>
  The snapshots an object client hands out when the keys are fetched one after the
  other, starting from a history: those of the keys whose fetch succeeds and whose
  payload decodes. The second component is the history after the fetches.
\<close>

fun fetched_snapshots ::
  "(bytes \<Rightarrow> error + ('r, 'm, 'g) Snapshot) \<Rightarrow> CloudObjectStorage \<Rightarrow> os_event list \<Rightarrow>
   string list \<Rightarrow> ('r, 'm, 'g) Snapshot list \<times> os_event list" where
  "fetched_snapshots json_Unmarshal c hist [] = ([], hist)"
| "fetched_snapshots json_Unmarshal c hist (key # rest) =
     (let got = GetObject (client c) hist (bucket c) key;
          (found, hist') =
            fetched_snapshots json_Unmarshal c (hist @ [Got (bucket c) key got]) rest
      in case got of
           Inl err \<Rightarrow> (found, hist')
         | Inr data \<Rightarrow>
             (case json_Unmarshal data of
                Inl err \<Rightarrow> (found, hist')
              | Inr s \<Rightarrow> (s # found, hist')))"

text \<open>
  The effective timestamp of a file: the timestamp of the snapshot it holds when the
  file can be read and decoded and the timestamp parses, else the modification time. The
  snapshot files of a directory are its regular \<open>.json\<close> files whose \<open>Info\<close> succeeds,
  in the order of the listing.
\<close>

definition effective_time ::
  "(bytes \<Rightarrow> error + ('r, 'm, 'g) Snapshot) \<Rightarrow> (string \<Rightarrow> error + time) \<Rightarrow> filesystem \<Rightarrow>
   string \<Rightarrow> time \<Rightarrow> time" where
  "effective_time json_Unmarshal time_Parse fs p modified =
     (case os_ReadFile fs p of
        Inl err \<Rightarrow> modified
      | Inr data \<Rightarrow>
          (case json_Unmarshal data of
             Inl err \<Rightarrow> modified
           | Inr s \<Rightarrow>
               (case time_Parse (Timestamp s) of Inl err \<Rightarrow> modified | Inr t \<Rightarrow> t)))"

definition snapshot_file ::
  "(bytes \<Rightarrow> error + ('r, 'm, 'g) Snapshot) \<Rightarrow> (string \<Rightarrow> error + time) \<Rightarrow> filesystem \<Rightarrow>
   string \<Rightarrow> DirEntry \<Rightarrow> fileInfo option" where
  "snapshot_file json_Unmarshal time_Parse fs dir entry =
     (if IsDir entry \<or> filepath_Ext (Name entry) \<noteq> ''.json'' then None
      else case Info entry of
             Inl err \<Rightarrow> None
           | Inr modified \<Rightarrow>
               Some \<lparr>path = filepath_Join dir (Name entry),
                     timestamp = effective_time json_Unmarshal time_Parse fs
                                   (filepath_Join dir (Name entry)) modified,
                     modTime = modified\<rparr>)"

definition snapshot_files ::
  "(bytes \<Rightarrow> error + ('r, 'm, 'g) Snapshot) \<Rightarrow> (string \<Rightarrow> error + time) \<Rightarrow> filesystem \<Rightarrow>
   string \<Rightarrow> DirEntry list \<Rightarrow> fileInfo list" where
  "snapshot_files json_Unmarshal time_Parse fs dir entries =
     List.map_filter (snapshot_file json_Unmarshal time_Parse fs dir) entries"

text \<open>
  The two sets of marks of one reclamation cycle over the sorted files: the files older
  than the age limit, then, among the files not yet marked, the oldest ones in excess of
  the cap.
\<close>

definition age_marks :: "'z ManagedFileStorage_scheme \<Rightarrow> time \<Rightarrow> fileInfo list \<Rightarrow> string list" where
  "age_marks m now files =
     (if 0 < maxAge m then map path (filter (\<lambda>file. timestamp file < now - maxAge m) files)
      else [])"

definition count_marks :: "'z ManagedFileStorage_scheme \<Rightarrow> string list \<Rightarrow> fileInfo list \<Rightarrow> string list" where
  "count_marks m marked files =
     (if 0 < maxFiles m \<and> maxFiles m < int (length files) - int (length marked)
      then take (nat (int (length files) - int (length marked) - maxFiles m))
             (filter (\<lambda>p. p \<notin> set marked) (map path files))
      else [])"

text \<open>
  An answer of \<open>GetObject\<close> that lets the cleanup delete the object: the fetch
  succeeded, the payload decodes, the timestamp parses and the instant is before the
  cutoff.
\<close>

definition deletable ::
  "(bytes \<Rightarrow> error + ('r, 'm, 'g) Snapshot) \<Rightarrow> (string \<Rightarrow> error + time) \<Rightarrow> time \<Rightarrow>
   error + bytes \<Rightarrow> bool" where
  "deletable json_Unmarshal time_Parse cutoff got =
     (case got of
        Inl err \<Rightarrow> False
      | Inr data \<Rightarrow>
          (case json_Unmarshal data of
             Inl err \<Rightarrow> False
           | Inr s \<Rightarrow>
               (case time_Parse (Timestamp s) of Inl err \<Rightarrow> False | Inr t \<Rightarrow> t < cutoff)))"

text \<open>
  The calls of one cleanup pass for one key: the fetch alone when the answer is not
  deletable, the fetch and then the delete, whatever the delete answers, when it is.
\<close>

fun pass_segment ::
  "(bytes \<Rightarrow> error + ('r, 'm, 'g) Snapshot) \<Rightarrow> (string \<Rightarrow> error + time) \<Rightarrow> string \<Rightarrow> time \<Rightarrow>
   string \<Rightarrow> os_event list \<Rightarrow> bool" where
  "pass_segment json_Unmarshal time_Parse b cutoff key [Got b1 k1 got] =
     (b1 = b \<and> k1 = key \<and> \<not> deletable json_Unmarshal time_Parse cutoff got)"
| "pass_segment json_Unmarshal time_Parse b cutoff key [Got b1 k1 got, Deleted b2 k2 r] =
     (b1 = b \<and> k1 = key \<and> b2 = b \<and> k2 = key \<and>
      deletable json_Unmarshal time_Parse cutoff got)"
| "pass_segment json_Unmarshal time_Parse b cutoff key events = False"

text \<open>Every event carries what the client answers after the events before it.\<close>

fun client_answers :: "ObjectStorage \<Rightarrow> os_event list \<Rightarrow> os_event list \<Rightarrow> bool" where
  "client_answers cl hist [] = True"
| "client_answers cl hist (event # events) =
     ((case event of
         Listed b p r \<Rightarrow> r = ListObjects cl hist b p
       | Got b k r \<Rightarrow> r = GetObject cl hist b k
       | Deleted b k r \<Rightarrow> r = DeleteObject cl hist b k) \<and>
      client_answers cl (hist @ [event]) events)"

text \<open>
  The row of a snapshot, when its timestamp parses and it marshals, and the rows of a
  batch: those of its snapshots that have one, in the order of the batch.
\<close>

definition row_of ::
  "(string \<Rightarrow> error + time) \<Rightarrow> (('r, 'm, 'g) Snapshot \<Rightarrow> error + bytes) \<Rightarrow>
   ('r, 'm, 'g) Snapshot \<Rightarrow> (time \<times> bytes) option" where
  "row_of time_Parse json_Marshal s =
     (case time_Parse (Timestamp s) of
        Inl err \<Rightarrow> None
      | Inr ts \<Rightarrow> (case json_Marshal s of Inl err \<Rightarrow> None | Inr data \<Rightarrow> Some (ts, data)))"

definition batch_rows ::
  "(string \<Rightarrow> error + time) \<Rightarrow> (('r, 'm, 'g) Snapshot \<Rightarrow> error + bytes) \<Rightarrow>
   ('r, 'm, 'g) Snapshot list \<Rightarrow> (time \<times> bytes) list" where
  "batch_rows time_Parse json_Marshal batch =
     List.map_filter (row_of time_Parse json_Marshal) batch"

text \<open>
  The inserts of rows one after the other through the prepared statement, up to and
  including the first one that the database refuses: the events, and the error of the
  refused insert if there is one.
\<close>

fun inserts_until_failure ::
  "sql_driver \<Rightarrow> sql_event list \<Rightarrow> (time \<times> bytes) list \<Rightarrow> sql_event list \<times> error option" where
  "inserts_until_failure db hist [] = ([], None)"
| "inserts_until_failure db hist ((ts, data) # rows) =
     (case stmt_ExecContext db hist ts data of
        Some e \<Rightarrow> ([StmtExecContext ts data (Some e)], Some e)
      | None \<Rightarrow>
          (let (events, failure) =
                 inserts_until_failure db (hist @ [StmtExecContext ts data None]) rows
           in (StmtExecContext ts data None # events, failure)))"








text \<open>The timestamp parses; it parses to an instant between two bounds, both included.\<close>

definition timestamp_parses :: "(string \<Rightarrow> error + time) \<Rightarrow> ('r, 'm, 'g) Snapshot \<Rightarrow> bool" where
  "timestamp_parses time_Parse s =
     (case time_Parse (Timestamp s) of Inl err \<Rightarrow> False | Inr t \<Rightarrow> True)"


text \<open>
  Assignments a caller can make through its own pointer \<open>s\<close> to a snapshot:
  \<open>s.Timestamp = v\<close> and \<open>s.Runtime.NumGoroutines = n\<close>.
\<close>

definition assign_Timestamp :: "heap \<Rightarrow> addr option \<Rightarrow> string \<Rightarrow> error + heap" where
  "assign_Timestamp h s v =
     (case load_Snapshot h s of
        None \<Rightarrow> Inl NilDereference
      | Some snapshot \<Rightarrow>
          Inr (h\<lparr>snapshot_cells := (snapshot_cells h)[the s := snapshot\<lparr>Timestamp := v\<rparr>]\<rparr>))"

definition assign_Runtime_NumGoroutines :: "heap \<Rightarrow> addr option \<Rightarrow> int \<Rightarrow> error + heap" where
  "assign_Runtime_NumGoroutines h s n =
     (case load_Snapshot h s of
        None \<Rightarrow> Inl NilDereference
      | Some snapshot \<Rightarrow>
          (case load_cell (runtime_cells h) (Runtime snapshot) of
             None \<Rightarrow> Inl NilDereference
           | Some r \<Rightarrow>
               Inr (h\<lparr>runtime_cells :=
                      (runtime_cells h)[the (Runtime snapshot) := r\<lparr>NumGoroutines := n\<rparr>]\<rparr>)))"

section \<open>Concrete inputs\<close>

text \<open>
  Three instants one second apart, a heap that holds a caller's three snapshots at the
  addresses 0, 1 and 2 (the first with a runtime record), and what a reader sees of the
  first one.
\<close>

definition example_times :: "(string \<times> time) list" where
  "example_times =
     [(''2024-01-01T00:00:01Z'', 1704067201000000000),
      (''2024-01-01T00:00:02Z'', 1704067202000000000),
      (''2024-01-01T00:00:03Z'', 1704067203000000000)]"

definition example_struct :: "string \<Rightarrow> addr option \<Rightarrow> Snapshot_struct" where
  "example_struct ts r = \<lparr>Timestamp = ts, Runtime = r, Memory = None, Goroutines = None\<rparr>"

definition example_runtime :: "int \<Rightarrow> RuntimeInfo" where
  "example_runtime n =
     \<lparr>GoVersion = ''go1.24.5'', NumGoroutines = n, GOMAXPROCS = 8, NumCPU = 8,
      UptimeSeconds = 0\<rparr>"

definition example_heap :: heap where
  "example_heap =
     \<lparr>snapshot_cells =
        [example_struct ''2024-01-01T00:00:01Z'' (Some 0),
         example_struct ''2024-01-01T00:00:02Z'' None,
         example_struct ''2024-01-01T00:00:03Z'' None],
      runtime_cells = [example_runtime 4],
      memory_cells = [],
      goroutine_cells = []\<rparr>"

definition example_value :: "string \<Rightarrow> RuntimeInfo option \<Rightarrow> Snapshot_value" where
  "example_value ts r = \<lparr>Timestamp = ts, Runtime = r, Memory = None, Goroutines = None\<rparr>"

text \<open>
  The payloads of three snapshot files (abbreviated to the timestamp they carry), of a
  file whose timestamp is not a time and what \<open>json.Unmarshal\<close> and \<open>json.Marshal\<close> make
  of them; every other payload and snapshot is an error.
\<close>

definition example_json :: "(bytes \<times> Snapshot_value) list" where
  "example_json =
     [(''{timestamp:2024-01-01T00:00:01Z}'', example_value ''2024-01-01T00:00:01Z'' None),
      (''{timestamp:2024-01-01T00:00:02Z}'', example_value ''2024-01-01T00:00:02Z'' None),
      (''{timestamp:2024-01-01T00:00:03Z}'', example_value ''2024-01-01T00:00:03Z'' None),
      (''{timestamp:yesterday}'', example_value ''yesterday'' None)]"

definition json_Marshal_table ::
  "(bytes \<times> ('r, 'm, 'g) Snapshot) list \<Rightarrow> ('r, 'm, 'g) Snapshot \<Rightarrow> error + bytes" where
  "json_Marshal_table table s =
     (case map_of (map (\<lambda>(data, v). (v, data)) table) s of
        None \<Rightarrow> Inl (External ''json: unsupported value'')
      | Some data \<Rightarrow> Inr data)"

text \<open>
  A directory \<open>snapshots\<close> with three snapshot files, a file with a broken payload, a
  text file and a subdirectory; the modification times are half a second after the
  snapshots' instants.
\<close>

definition example_entries :: "DirEntry list" where
  "example_entries =
     [\<lparr>Name = ''2024-01-01T00-00-03.000000000Z.json'', IsDir = False,
       Info = Inr 1704067203500000000\<rparr>,
      \<lparr>Name = ''2024-01-01T00-00-01.000000000Z.json'', IsDir = False,
       Info = Inr 1704067201500000000\<rparr>,
      \<lparr>Name = ''2024-01-01T00-00-02.000000000Z.json'', IsDir = False,
       Info = Inr 1704067202500000000\<rparr>,
      \<lparr>Name = ''broken.json'', IsDir = False, Info = Inr 1704067202700000000\<rparr>,
      \<lparr>Name = ''notes.txt'', IsDir = False, Info = Inr 1704067200000000000\<rparr>,
      \<lparr>Name = ''archive.json'', IsDir = True, Info = Inr 1704067200000000000\<rparr>]"

definition example_files :: "(string \<times> bytes) list" where
  "example_files =
     [(''snapshots/2024-01-01T00-00-01.000000000Z.json'', ''{timestamp:2024-01-01T00:00:01Z}''),
      (''snapshots/2024-01-01T00-00-02.000000000Z.json'', ''{timestamp:2024-01-01T00:00:02Z}''),
      (''snapshots/2024-01-01T00-00-03.000000000Z.json'', ''{timestamp:2024-01-01T00:00:03Z}''),
      (''snapshots/broken.json'', ''not json''),
      (''snapshots/notes.txt'', ''remember the milk'')]"

definition example_fs :: filesystem where
  "example_fs =
     \<lparr>os_ReadDir = (\<lambda>dir. if dir = ''snapshots'' then Inr example_entries
                          else Inl (External ''no such file or directory'')),
      os_ReadFile = (\<lambda>p. case map_of example_files p of
                            None \<Rightarrow> Inl (External ''no such file or directory'')
                          | Some data \<Rightarrow> Inr data)\<rparr>"

text \<open>
  An object client over three snapshot objects and an object with a broken payload. Its
  listing also names a key it cannot fetch; it refuses to delete the first object, and an
  object it has deleted is gone.
\<close>

definition example_objects :: "(string \<times> bytes) list" where
  "example_objects =
     [(''snapshots/2024-01-01T00-00-01.000000000Z.json'', ''{timestamp:2024-01-01T00:00:01Z}''),
      (''snapshots/2024-01-01T00-00-02.000000000Z.json'', ''{timestamp:2024-01-01T00:00:02Z}''),
      (''snapshots/2024-01-01T00-00-03.000000000Z.json'', ''{timestamp:2024-01-01T00:00:03Z}''),
      (''snapshots/broken.json'', ''not json'')]"

definition example_client :: ObjectStorage where
  "example_client =
     \<lparr>GetObject = (\<lambda>hist b key.
          if Deleted b key None \<in> set hist then Inl (External ''NoSuchKey'')
          else case map_of example_objects key of
                 None \<Rightarrow> Inl (External ''NoSuchKey'')
               | Some data \<Rightarrow> Inr data),
      ListObjects = (\<lambda>hist b pre.
          if pre = ''snapshots/'' then Inr (map fst example_objects @ [''snapshots/gone.json''])
          else Inl (External ''AccessDenied'')),
      DeleteObject = (\<lambda>hist b key.
          if key = ''snapshots/2024-01-01T00-00-01.000000000Z.json''
          then Some (External ''AccessDenied'') else None)\<rparr>"

definition example_cos :: "Duration \<Rightarrow> CloudObjectStorage" where
  "example_cos age =
     \<lparr>client = example_client, bucket = ''metrics'', cos_prefix = ''snapshots/'',
      cos_maxAge = age\<rparr>"

text \<open>
  A database that answers every call with success, except the insert of the third
  payload, and answers a query with two rows.
\<close>

definition example_db :: sql_driver where
  "example_db =
     \<lparr>sql_Open = (\<lambda>hist drv source. None),
      db_Exec = (\<lambda>hist query. None),
      db_ExecContext = (\<lambda>hist query ts data. None),
      db_BeginTx = (\<lambda>hist. None),
      tx_PrepareContext = (\<lambda>hist query. None),
      stmt_ExecContext = (\<lambda>hist ts data.
          if data = ''{timestamp:2024-01-01T00:00:03Z}''
          then Some (External ''duplicate key value'') else None),
      tx_Commit = (\<lambda>hist. None),
      tx_Rollback = (\<lambda>hist. None),
      db_QueryContext = (\<lambda>hist query args.
          Inr ([Inr ''{timestamp:2024-01-01T00:00:02Z}'',
                Inr ''{timestamp:2024-01-01T00:00:01Z}''], None))\<rparr>"




text \<open>
  What a bounded queue of capacity \<open>n\<close> holds after one more value: the oldest value
  leaves when the queue is full.
\<close>

definition fifo_push :: "int \<Rightarrow> 'a list \<Rightarrow> 'a \<Rightarrow> 'a list" where
  "fifo_push n old v = (if n \<le> int (length old) then drop 1 old else old) @ [v]"

section \<open>The insertion sort meets the contract of sort.Slice\<close>

lemma mset_insert_by: "mset (insert_by lt x ys) = add_mset x (mset ys)"
  by (induction ys) auto

lemma set_insert_by: "set (insert_by lt x ys) = insert x (set ys)"
  by (induction ys) auto

lemma mset_insertion_sort_rev:
  "mset (insertion_sort_rev lt pre xs) = mset pre + mset xs"
  by (induction xs arbitrary: pre) (auto simp: mset_insert_by)

lemma sorted_insert_by:
  assumes swo: "strict_weak_order lt"
  shows "sorted_wrt (\<lambda>a b. \<not> lt a b) ys \<Longrightarrow> sorted_wrt (\<lambda>a b. \<not> lt a b) (insert_by lt x ys)"
proof (induction ys)
  case Nil
  then show ?case by simp
next
  case (Cons y ys)
  have irr: "\<And>a. \<not> lt a a" and tr: "\<And>a b c. lt a b \<Longrightarrow> lt b c \<Longrightarrow> lt a c"
    and ntr: "\<And>a b c. \<not> lt a b \<Longrightarrow> \<not> lt b c \<Longrightarrow> \<not> lt a c"
    using swo unfolding strict_weak_order_def by blast+
  show ?case
  proof (cases "lt x y")
    case True
    then have "\<not> lt y x" using irr tr by blast
    with True Cons show ?thesis by (auto simp: set_insert_by)
  next
    case False
    with Cons.prems ntr show ?thesis by auto
  qed
qed

lemma sorted_insertion_sort_rev:
  "strict_weak_order lt \<Longrightarrow> sorted_wrt (\<lambda>a b. \<not> lt a b) pre \<Longrightarrow>
   sorted_wrt (\<lambda>a b. \<not> lt a b) (insertion_sort_rev lt pre xs)"
  by (induction xs arbitrary: pre) (auto simp: sorted_insert_by)

lemma insertionSort_spec: "sort_Slice_spec insertionSort"
  unfolding sort_Slice_spec_def insertionSort_def
  by (auto simp: mset_insertion_sort_rev sorted_wrt_rev sorted_insertion_sort_rev)

lemma strict_weak_order_key:
  "strict_weak_order (\<lambda>a b. (k a :: int) < k b)"
  unfolding strict_weak_order_def by auto

section \<open>Allocation keeps what the heap holds\<close>

lemma load_Snapshot_grow:
  "load_Snapshot h p = Some s \<Longrightarrow>
   load_Snapshot (h\<lparr>snapshot_cells := snapshot_cells h @ xs\<rparr>) p = Some s"
  by (auto simp: load_Snapshot_def nth_append split: option.splits if_splits)

lemma map_load_grow:
  "map (load_Snapshot h) ps = map Some vs \<Longrightarrow>
   map (load_Snapshot (h\<lparr>snapshot_cells := snapshot_cells h @ xs\<rparr>)) ps = map Some vs"
proof (induction ps arbitrary: vs)
  case Nil
  then show ?case by simp
next
  case (Cons p ps)
  then obtain v vs' where vs: "vs = v # vs'" by (cases vs) auto
  with Cons show ?case by (auto simp: load_Snapshot_grow)
qed

lemma stored_values_grow:
  "stored_values h as = map Some vs \<Longrightarrow>
   stored_values (h\<lparr>snapshot_cells := snapshot_cells h @ xs\<rparr>) as = map Some vs"
  unfolding stored_values_def
  using map_load_grow [of h "map Some as" vs xs] by (simp add: comp_def)

lemma stored_values_fresh:
  "stored_values (h\<lparr>snapshot_cells := snapshot_cells h @ xs\<rparr>)
     [length (snapshot_cells h)..<length (snapshot_cells h) + length xs] = map Some xs"
  by (auto simp: stored_values_def load_Snapshot_def nth_append intro!: nth_equalityI)

lemma stored_values_append:
  "stored_values h (as @ bs) = stored_values h as @ stored_values h bs"
  by (simp add: stored_values_def)

lemma append_copies_Inr:
  "map (load_Snapshot h) batch = map Some bs \<Longrightarrow>
   append_copies h stored batch =
     Inr (h\<lparr>snapshot_cells := snapshot_cells h @ bs\<rparr>,
          stored @ [length (snapshot_cells h)..<length (snapshot_cells h) + length bs])"
proof (induction batch arbitrary: bs h stored)
  case Nil
  then show ?case by simp
next
  case (Cons p ps)
  then obtain b bs' where bs: "bs = b # bs'" and p: "load_Snapshot h p = Some b"
    and ps: "map (load_Snapshot h) ps = map Some bs'"
    by (cases bs) auto
  let ?h1 = "h\<lparr>snapshot_cells := snapshot_cells h @ [b]\<rparr>"
  have "map (load_Snapshot ?h1) ps = map Some bs'"
    using ps by (rule map_load_grow)
  from Cons.IH [OF this, of "stored @ [length (snapshot_cells h)]"]
  have IH: "append_copies ?h1 (stored @ [length (snapshot_cells h)]) ps =
     Inr (h\<lparr>snapshot_cells := snapshot_cells h @ b # bs'\<rparr>,
          stored @ length (snapshot_cells h) #
            [Suc (length (snapshot_cells h))..<Suc (length (snapshot_cells h)) + length bs'])"
    by (simp del: upt_Suc)
  have upt: "[length (snapshot_cells h)..<length (snapshot_cells h) + length bs] =
     length (snapshot_cells h) #
       [Suc (length (snapshot_cells h))..<Suc (length (snapshot_cells h)) + length bs']"
    unfolding bs by (simp add: upt_conv_Cons del: upt_Suc)
  show ?case
    unfolding upt using p IH by (simp add: new_Snapshot_def bs del: upt_Suc)
qed

section \<open>Query of the memory backends\<close>

lemma strict_weak_order_before_in_order:
  "strict_weak_order (\<lambda>a b. before_in_order ob (k a) (k b))"
  unfolding strict_weak_order_def before_in_order_def by auto

lemma strict_weak_order_pointer_less: "strict_weak_order (pointer_less time_Parse h ob)"
  using strict_weak_order_before_in_order [of ob "pointer_time time_Parse h"]
  by (simp add: pointer_less_def [abs_def])

lemma strict_weak_order_snapshot_less: "strict_weak_order (snapshot_less time_Parse ob)"
  using strict_weak_order_before_in_order [of ob "ParseTimestamp_ignore_err time_Parse"]
  by (simp add: snapshot_less_def [abs_def])

lemma query_copies_Inr:
  "stored_values h stored = map Some vs \<Longrightarrow>
   query_copies time_Parse opts h results stored =
     Inr (h\<lparr>snapshot_cells := snapshot_cells h @ filter (query_keeps time_Parse opts) vs\<rparr>,
          results @ [length (snapshot_cells h)..<
            length (snapshot_cells h) + length (filter (query_keeps time_Parse opts) vs)])"
proof (induction stored arbitrary: vs h results)
  case Nil
  then show ?case by (simp add: stored_values_def)
next
  case (Cons p ps)
  then obtain v vs' where vs: "vs = v # vs'" and p: "load_Snapshot h (Some p) = Some v"
    and ps: "stored_values h ps = map Some vs'"
    by (cases vs) (auto simp: stored_values_def)
  show ?case
  proof (cases "query_keeps time_Parse opts v")
    case False
    with Cons.IH [OF ps, of results] p show ?thesis
      by (auto simp: vs query_keeps_def split: sum.splits)
  next
    case True
    let ?h1 = "h\<lparr>snapshot_cells := snapshot_cells h @ [v]\<rparr>"
    let ?sel = "filter (query_keeps time_Parse opts) vs'"
    have "stored_values ?h1 ps = map Some vs'"
      using ps by (rule stored_values_grow)
    from Cons.IH [OF this, of "results @ [length (snapshot_cells h)]"]
    have IH: "query_copies time_Parse opts ?h1 (results @ [length (snapshot_cells h)]) ps =
       Inr (h\<lparr>snapshot_cells := snapshot_cells h @ v # ?sel\<rparr>,
            results @ length (snapshot_cells h) #
              [Suc (length (snapshot_cells h))..<Suc (length (snapshot_cells h)) + length ?sel])"
      by (simp del: upt_Suc)
    have upt: "[length (snapshot_cells h)..<length (snapshot_cells h) + length (v # ?sel)] =
       length (snapshot_cells h) #
         [Suc (length (snapshot_cells h))..<Suc (length (snapshot_cells h)) + length ?sel]"
      by (simp add: upt_conv_Cons del: upt_Suc)
    from True have sel: "filter (query_keeps time_Parse opts) vs = v # ?sel"
      by (simp add: vs)
    from True obtain t where t: "ParseTimestamp time_Parse v = Inr t" "in_time_range opts t"
      by (auto simp: query_keeps_def split: sum.splits)
    show ?thesis
      unfolding sel upt using p IH t by (simp add: new_Snapshot_def del: upt_Suc)
  qed
qed

lemma apply_limit_map: "apply_limit opts (map f xs) = map f (apply_limit opts xs)"
  by (simp add: apply_limit_def take_map)

lemma stored_values_apply_limit:
  "stored_values h res = map Some ws \<Longrightarrow>
   stored_values h (apply_limit opts res) = map Some (apply_limit opts ws)"
  by (simp add: stored_values_def apply_limit_map [symmetric])

lemma memory_Query_result:
  assumes spec: "sort_Slice_spec sort_Slice"
    and st: "stored_values h stored = map Some vs"
  shows "\<exists>res ws.
    memory_Query sort_Slice time_Parse h stored opts =
      Inr (h\<lparr>snapshot_cells := snapshot_cells h @
             filter (query_keeps time_Parse (opts_or_zero opts)) vs\<rparr>, res) \<and>
    stored_values (h\<lparr>snapshot_cells := snapshot_cells h @
             filter (query_keeps time_Parse (opts_or_zero opts)) vs\<rparr>) res =
      map Some (apply_limit (opts_or_zero opts) ws) \<and>
    mset ws = mset (filter (query_keeps time_Parse (opts_or_zero opts)) vs) \<and>
    sorted_wrt (\<lambda>a b. \<not> snapshot_less time_Parse (OrderBy (opts_or_zero opts)) b a) ws"
proof -
  define q where "q = opts_or_zero opts"
  define sel where "sel = filter (query_keeps time_Parse q) vs"
  define n where "n = length (snapshot_cells h)"
  define h' where "h' = h\<lparr>snapshot_cells := snapshot_cells h @ sel\<rparr>"
  define res0 where "res0 = [n..<n + length sel]"
  define lt where "lt = pointer_less time_Parse h' (OrderBy q)"
  define res1 where "res1 = sort_Slice lt res0"
  define val where "val = (\<lambda>a. snapshot_cells h' ! a)"
  define ws where "ws = map val res1"
  have qc: "query_copies time_Parse q h [] stored = Inr (h', res0)"
    using query_copies_Inr [OF st, of time_Parse q "[]"]
    by (simp add: h'_def res0_def sel_def n_def)
  have ms: "mset res1 = mset res0"
    using spec by (simp add: sort_Slice_spec_def res1_def)
  have "strict_weak_order lt"
    unfolding lt_def by (rule strict_weak_order_pointer_less)
  then have srt: "sorted_wrt (\<lambda>a b. \<not> lt b a) res1"
    using spec by (simp add: sort_Slice_spec_def res1_def)
  have "set res1 = set res0"
    using ms by (rule mset_eq_setD)
  then have valid: "\<And>a. a \<in> set res1 \<Longrightarrow> a < length (snapshot_cells h')"
    by (auto simp: res0_def h'_def n_def)
  then have ld: "\<And>a. a \<in> set res1 \<Longrightarrow> load_Snapshot h' (Some a) = Some (val a)"
    by (simp add: load_Snapshot_def val_def)
  then have sv: "stored_values h' res1 = map Some ws"
    by (simp add: stored_values_def ws_def)
  have "map val res0 = sel"
    by (rule nth_equalityI) (auto simp: res0_def val_def h'_def n_def nth_append)
  then have "image_mset val (mset res0) = mset sel"
    by (simp flip: mset_map)
  then have msw: "mset ws = mset sel"
    using ms by (simp add: ws_def)
  have less: "\<And>a b. a \<in> set res1 \<Longrightarrow> b \<in> set res1 \<Longrightarrow>
      lt b a = snapshot_less time_Parse (OrderBy q) (val b) (val a)"
    by (simp add: lt_def pointer_less_def pointer_time_def snapshot_less_def ld)
  have "sorted_wrt (\<lambda>a b. \<not> snapshot_less time_Parse (OrderBy q) (val b) (val a)) res1"
    using srt by (rule sorted_wrt_mono_rel [rotated]) (simp add: less)
  then have sw: "sorted_wrt (\<lambda>a b. \<not> snapshot_less time_Parse (OrderBy q) b a) ws"
    by (simp add: ws_def sorted_wrt_map)
  have "memory_Query sort_Slice time_Parse h stored opts = Inr (h', apply_limit q res1)"
    using qc by (simp add: memory_Query_def q_def [symmetric] lt_def res1_def)
  moreover have "stored_values h' (apply_limit q res1) = map Some (apply_limit q ws)"
    using sv by (rule stored_values_apply_limit)
  ultimately show ?thesis
    using msw sw unfolding h'_def sel_def q_def by blast
qed

section \<open>Store and StoreBatch of BoundedMemoryStorage\<close>

lemma stored_values_length: "stored_values h as = map Some vs \<Longrightarrow> length as = length vs"
  by (metis length_map stored_values_def)

lemma stored_values_drop:
  "stored_values h as = map Some vs \<Longrightarrow> stored_values h (drop k as) = map Some (drop k vs)"
  by (simp add: stored_values_def drop_map [symmetric])

lemma stored_values_snoc_fresh:
  assumes "stored_values h as = map Some vs"
  shows "stored_values (h\<lparr>snapshot_cells := snapshot_cells h @ xs\<rparr>)
           (as @ [length (snapshot_cells h)..<length (snapshot_cells h) + length xs]) =
         map Some (vs @ xs)"
  using stored_values_grow [OF assms, of xs] stored_values_fresh [of h xs]
  by (simp add: stored_values_append)

lemma Store_Inr:
  assumes st: "stored_values h (snapshots m) = map Some old"
    and p: "load_Snapshot h p = Some v"
    and pos: "0 < maxSize m"
  shows "\<exists>stored. BoundedMemoryStorage_Store h m p =
      Inr (h\<lparr>snapshot_cells := snapshot_cells h @ [v]\<rparr>, m\<lparr>snapshots := stored\<rparr>) \<and>
    stored_values (h\<lparr>snapshot_cells := snapshot_cells h @ [v]\<rparr>) stored =
      map Some (fifo_push (maxSize m) old v)"
proof -
  let ?h' = "h\<lparr>snapshot_cells := snapshot_cells h @ [v]\<rparr>"
  let ?kept = "if maxSize m \<le> int (length (snapshots m)) then drop 1 (snapshots m) else snapshots m"
  have len: "length (snapshots m) = length old"
    using st by (rule stored_values_length)
  have ne: "\<not> (maxSize m \<le> int (length (snapshots m)) \<and> snapshots m = [])"
    using pos by auto
  have eq: "BoundedMemoryStorage_Store h m p =
      Inr (?h', m\<lparr>snapshots := ?kept @ [length (snapshot_cells h)]\<rparr>)"
    unfolding BoundedMemoryStorage_Store_def using ne p
    by (simp add: new_Snapshot_def Let_def)
  have "stored_values h ?kept =
      map Some (if maxSize m \<le> int (length old) then drop 1 old else old)"
    using st stored_values_drop [OF st, of 1] by (simp add: len)
  from stored_values_snoc_fresh [OF this, of "[v]"]
  have "stored_values ?h' (?kept @ [length (snapshot_cells h)]) =
      map Some (fifo_push (maxSize m) old v)"
    by (simp add: fifo_push_def)
  with eq show ?thesis
    by blast
qed

lemma fifo_push_length:
  "0 < n \<Longrightarrow> int (length old) \<le> n \<Longrightarrow> int (length (fifo_push n old v)) \<le> n"
  by (auto simp: fifo_push_def)

lemma fifo_push_drop:
  assumes "0 < n" "int (length old) \<le> n"
  shows "drop (length (fifo_push n old v) + length vs - nat n) (fifo_push n old v @ vs) =
         drop (length old + length (v # vs) - nat n) (old @ v # vs)"
proof (cases "n \<le> int (length old)")
  case True
  with assms have len: "length old = nat n" and ne: "old \<noteq> []" by auto
  then obtain x xs where old: "old = x # xs" by (cases old) auto
  have push: "fifo_push n old v = xs @ [v]"
    using True by (simp add: fifo_push_def old)
  have l: "length (xs @ [v]) + length vs - nat n = length vs"
    using len by (simp add: old)
  have r: "length old + length (v # vs) - nat n = Suc (length vs)"
    using len by simp
  show ?thesis
    unfolding push l r by (simp add: old del: drop_append)
next
  case False
  then show ?thesis by (simp add: fifo_push_def)
qed

lemma Store_each_Inr:
  assumes "stored_values h (snapshots m) = map Some old"
    and "map (load_Snapshot h) ps = map Some vs"
    and "0 < maxSize m" and "int (length old) \<le> maxSize m"
  shows "\<exists>stored. Store_each h m ps =
      Inr (h\<lparr>snapshot_cells := snapshot_cells h @ vs\<rparr>, m\<lparr>snapshots := stored\<rparr>) \<and>
    stored_values (h\<lparr>snapshot_cells := snapshot_cells h @ vs\<rparr>) stored =
      map Some (drop (length old + length vs - nat (maxSize m)) (old @ vs))"
  using assms
proof (induction ps arbitrary: h m old vs)
  case Nil
  then have "stored_values (h\<lparr>snapshot_cells := snapshot_cells h\<rparr>) (snapshots m) = map Some old"
    by simp
  with Nil show ?case by (intro exI [of _ "snapshots m"]) auto
next
  case (Cons p ps)
  then obtain v vs' where vs: "vs = v # vs'" and p: "load_Snapshot h p = Some v"
    and ps: "map (load_Snapshot h) ps = map Some vs'"
    by (cases vs) auto
  let ?h1 = "h\<lparr>snapshot_cells := snapshot_cells h @ [v]\<rparr>"
  let ?old1 = "fifo_push (maxSize m) old v"
  from Store_Inr [OF Cons.prems(1) p Cons.prems(3)]
  obtain stored1 where
    s1: "BoundedMemoryStorage_Store h m p = Inr (?h1, m\<lparr>snapshots := stored1\<rparr>)"
    and v1: "stored_values ?h1 stored1 = map Some ?old1"
    by blast
  let ?m1 = "m\<lparr>snapshots := stored1\<rparr>"
  have ps1: "map (load_Snapshot ?h1) ps = map Some vs'"
    using ps by (rule map_load_grow)
  have len1: "int (length ?old1) \<le> maxSize ?m1"
    using fifo_push_length [OF Cons.prems(3,4)] by simp
  from Cons.IH [of ?h1 ?m1 ?old1 vs'] v1 ps1 Cons.prems(3) len1
  obtain stored where
    s: "Store_each ?h1 ?m1 ps =
          Inr (?h1\<lparr>snapshot_cells := snapshot_cells ?h1 @ vs'\<rparr>, ?m1\<lparr>snapshots := stored\<rparr>)"
    and v: "stored_values (?h1\<lparr>snapshot_cells := snapshot_cells ?h1 @ vs'\<rparr>) stored =
          map Some (drop (length ?old1 + length vs' - nat (maxSize ?m1)) (?old1 @ vs'))"
    by auto
  have "drop (length ?old1 + length vs' - nat (maxSize m)) (?old1 @ vs') =
        drop (length old + length vs - nat (maxSize m)) (old @ vs)"
    unfolding vs using Cons.prems(3,4) by (rule fifo_push_drop)
  with s1 s v show ?case
    by (intro exI [of _ stored]) (simp add: vs del: drop_append)
qed

lemma StoreBatch_Inr:
  assumes st: "stored_values h (snapshots m) = map Some old"
    and b: "map (load_Snapshot h) batch = map Some new"
  shows "\<exists>stored. BoundedMemoryStorage_StoreBatch h m batch =
      Inr (h\<lparr>snapshot_cells := snapshot_cells h @ new\<rparr>, m\<lparr>snapshots := stored\<rparr>) \<and>
    stored_values (h\<lparr>snapshot_cells := snapshot_cells h @ new\<rparr>) stored =
      map Some
        (drop (if maxSize m < int (length old) + int (length new)
               then min (length old) (nat (int (length old) + int (length new) - maxSize m))
               else 0) old @ new)"
proof -
  define k where "k = (if maxSize m < int (length old) + int (length new)
               then min (length old) (nat (int (length old) + int (length new) - maxSize m))
               else 0)"
  let ?h' = "h\<lparr>snapshot_cells := snapshot_cells h @ new\<rparr>"
  have len: "length (snapshots m) = length old"
    using st by (rule stored_values_length)
  have lb: "length batch = length new"
    using b by (metis length_map)
  have eq: "BoundedMemoryStorage_StoreBatch h m batch =
      Inr (?h', m\<lparr>snapshots := drop k (snapshots m) @
        [length (snapshot_cells h)..<length (snapshot_cells h) + length new]\<rparr>)"
    unfolding BoundedMemoryStorage_StoreBatch_def
    using append_copies_Inr [OF b]
    by (auto simp: Let_def len lb k_def min_def nat_less_iff)
  have "stored_values h (drop k (snapshots m)) = map Some (drop k old)"
    using st by (rule stored_values_drop)
  from stored_values_snoc_fresh [OF this, of new] eq show ?thesis
    unfolding k_def by blast
qed

section \<open>The claims on BoundedMemoryStorage\<close>

lemma mset_pair_cases: "mset ws = {#a, b#} \<Longrightarrow> ws = [a, b] \<or> ws = [b, a]"
proof -
  assume m: "mset ws = {#a, b#}"
  then have "size (mset ws) = 2" by simp
  then have "length ws = 2" by simp
  then obtain x y where ws: "ws = [x, y]"
    by (cases ws; cases "tl ws") auto
  with m show ?thesis
    by (auto simp: add_eq_conv_ex)
qed

lemma StoreBatch_keeps_last_maxSize:
  assumes st: "stored_values h (snapshots m) = map Some old"
    and b: "map (load_Snapshot h) batch = map Some new"
    and over: "maxSize m < int (length old) + int (length new)"
    and fits: "int (length new) \<le> maxSize m"
  shows "\<exists>h' m'. BoundedMemoryStorage_StoreBatch h m batch = Inr (h', m') \<and>
    int (length (snapshots m')) = maxSize m \<and>
    stored_values h' (snapshots m') =
      map Some (drop (length old + length new - nat (maxSize m)) (old @ new))"
proof -
  from StoreBatch_Inr [OF st b] obtain stored where
    eq: "BoundedMemoryStorage_StoreBatch h m batch =
      Inr (h\<lparr>snapshot_cells := snapshot_cells h @ new\<rparr>, m\<lparr>snapshots := stored\<rparr>)"
    and v: "stored_values (h\<lparr>snapshot_cells := snapshot_cells h @ new\<rparr>) stored =
      map Some
        (drop (if maxSize m < int (length old) + int (length new)
               then min (length old) (nat (int (length old) + int (length new) - maxSize m))
               else 0) old @ new)"
    by blast
  have k: "(if maxSize m < int (length old) + int (length new)
               then min (length old) (nat (int (length old) + int (length new) - maxSize m))
               else 0) = length old + length new - nat (maxSize m)"
    using over fits by (auto simp: min_def)
  have le: "length old + length new - nat (maxSize m) \<le> length old"
    using over fits by auto
  have v': "stored_values (h\<lparr>snapshot_cells := snapshot_cells h @ new\<rparr>) stored =
      map Some (drop (length old + length new - nat (maxSize m)) (old @ new))"
    using v le unfolding k by simp
  from stored_values_length [OF v'] over fits
  have "int (length stored) = maxSize m"
    by auto
  with eq v' show ?thesis by auto
qed

lemma StoreBatch_exceeds_maxSize:
  assumes st: "stored_values h (snapshots m) = map Some old"
    and b: "map (load_Snapshot h) batch = map Some new"
    and big: "maxSize m < int (length new)"
  shows "\<exists>h' m'. BoundedMemoryStorage_StoreBatch h m batch = Inr (h', m') \<and>
    maxSize m' = maxSize m \<and> maxSize m < int (length (snapshots m')) \<and>
    stored_values h' (snapshots m') = map Some new"
proof -
  from StoreBatch_Inr [OF st b] obtain stored where
    eq: "BoundedMemoryStorage_StoreBatch h m batch =
      Inr (h\<lparr>snapshot_cells := snapshot_cells h @ new\<rparr>, m\<lparr>snapshots := stored\<rparr>)"
    and v: "stored_values (h\<lparr>snapshot_cells := snapshot_cells h @ new\<rparr>) stored =
      map Some
        (drop (if maxSize m < int (length old) + int (length new)
               then min (length old) (nat (int (length old) + int (length new) - maxSize m))
               else 0) old @ new)"
    by blast
  have k: "(if maxSize m < int (length old) + int (length new)
               then min (length old) (nat (int (length old) + int (length new) - maxSize m))
               else 0) = length old"
    using big by (auto simp: min_def)
  have v': "stored_values (h\<lparr>snapshot_cells := snapshot_cells h @ new\<rparr>) stored = map Some new"
    using v unfolding k by simp
  from stored_values_length [OF v'] big eq v' show ?thesis by auto
qed

text \<open>
  Claim C1. After \<open>StoreBatch\<close> on a store that would overflow, exactly \<open>maxSize\<close>
  snapshots are stored, the last inserted ones, also when the batch alone is larger than
  \<open>maxSize\<close>. The two lemmas above settle the general case: a batch of at most
  \<open>maxSize\<close> snapshots leaves the last \<open>maxSize\<close> inserted, a larger batch is stored
  whole. Here the code runs on an empty store of capacity 2 and a batch of three: the
  eviction count is cut down to the number stored, all three copies are appended, and the
  store holds three snapshots.
\<close>

theorem C1_StoreBatch_over_capacity:
  "BoundedMemoryStorage_StoreBatch example_heap (NewBoundedMemoryStorage 2)
     [Some 0, Some 1, Some 2] =
   Inr (example_heap\<lparr>snapshot_cells := snapshot_cells example_heap @ snapshot_cells example_heap\<rparr>,
        \<lparr>snapshots = [3, 4, 5], maxSize = 2\<rparr>)"
  by (simp add: BoundedMemoryStorage_StoreBatch_def NewBoundedMemoryStorage_def example_heap_def
      load_Snapshot_def new_Snapshot_def)

lemma New_invariant:
  "stored_values h (snapshots (NewBoundedMemoryStorage n)) = map Some []"
  "0 < maxSize (NewBoundedMemoryStorage n)"
  by (simp_all add: NewBoundedMemoryStorage_def stored_values_def)

lemma Store_each_from_New:
  assumes "map (load_Snapshot h) ps = map Some vs"
  shows "\<exists>stored. Store_each h (NewBoundedMemoryStorage n) ps =
      Inr (h\<lparr>snapshot_cells := snapshot_cells h @ vs\<rparr>,
           (NewBoundedMemoryStorage n)\<lparr>snapshots := stored\<rparr>) \<and>
    stored_values (h\<lparr>snapshot_cells := snapshot_cells h @ vs\<rparr>) stored =
      map Some (drop (length vs - nat (maxSize (NewBoundedMemoryStorage n))) vs)"
proof -
  have "int (length ([] :: Snapshot_struct list)) \<le> maxSize (NewBoundedMemoryStorage n)"
    using New_invariant(2) [of n] by simp
  from Store_each_Inr [OF New_invariant(1) assms New_invariant(2) this]
  show ?thesis by simp
qed

lemma query_keeps_unbounded:
  "StartTime opts = None \<Longrightarrow> EndTime opts = None \<Longrightarrow> time_Parse (Timestamp v) = Inr t \<Longrightarrow>
   query_keeps time_Parse opts v"
  by (simp add: query_keeps_def ParseTimestamp_def in_time_range_def)

text \<open>
  Claim C5. A store built by \<open>NewBoundedMemoryStorage n\<close> has the capacity \<open>maxSize\<close>,
  which is \<open>n\<close> when \<open>n\<close> is positive. After \<open>maxSize + 1\<close> successive \<open>Store\<close> calls
  it holds exactly \<open>maxSize\<close> snapshots, the copies of all but the first in the order of
  insertion, so the first is absent when the snapshots are distinct. With capacity 2 and
  three snapshots at times \<open>t1 < t2 < t3\<close>, \<open>Query\<close> in descending order with limit 0
  returns the copies of the third and the second, in this order, whatever sort meets the
  contract of \<open>sort.Slice\<close>.
\<close>

theorem C5_Store_evicts_oldest:
  "(map (load_Snapshot h) ps = map Some vs \<and>
    int (length ps) = maxSize (NewBoundedMemoryStorage n) + 1 \<longrightarrow>
      (\<exists>h' m'. Store_each h (NewBoundedMemoryStorage n) ps = Inr (h', m') \<and>
         int (length (snapshots m')) = maxSize (NewBoundedMemoryStorage n) \<and>
         stored_values h' (snapshots m') = map Some (tl vs) \<and>
         (distinct vs \<longrightarrow> Some (hd vs) \<notin> set (stored_values h' (snapshots m'))))) \<and>
   (0 < n \<longrightarrow> maxSize (NewBoundedMemoryStorage n) = n) \<and>
   (sort_Slice_spec sort_Slice \<and>
    map (load_Snapshot h) [p1, p2, p3] = map Some [v1, v2, v3] \<and>
    time_Parse (Timestamp v1) = Inr t1 \<and> time_Parse (Timestamp v2) = Inr t2 \<and>
    time_Parse (Timestamp v3) = Inr t3 \<and> t1 < t2 \<and> t2 < t3 \<longrightarrow>
      (\<exists>h' m' h'' results.
         Store_each h (NewBoundedMemoryStorage 2) [p1, p2, p3] = Inr (h', m') \<and>
         BoundedMemoryStorage_Query sort_Slice time_Parse h' m'
           (Some \<lparr>StartTime = None, EndTime = None, Limit = 0, OrderBy = OrderByTimeDesc\<rparr>) =
           Inr (h'', results) \<and>
         stored_values h'' results = map Some [v3, v2]))"
proof (intro conjI impI)
  assume a: "map (load_Snapshot h) ps = map Some vs \<and>
    int (length ps) = maxSize (NewBoundedMemoryStorage n) + 1"
  let ?m = "NewBoundedMemoryStorage n"
  from a have ld: "map (load_Snapshot h) ps = map Some vs"
    and len: "int (length ps) = maxSize ?m + 1" by auto
  have lv: "length vs = length ps" using ld by (metis length_map)
  from Store_each_from_New [OF ld, of n]
  obtain stored where
    eq: "Store_each h ?m ps =
      Inr (h\<lparr>snapshot_cells := snapshot_cells h @ vs\<rparr>, ?m\<lparr>snapshots := stored\<rparr>)"
    and v: "stored_values (h\<lparr>snapshot_cells := snapshot_cells h @ vs\<rparr>) stored =
      map Some (drop (length vs - nat (maxSize ?m)) vs)"
    by blast
  have one: "length vs - nat (maxSize ?m) = 1"
    using len lv New_invariant(2) [of n] by simp
  have v': "stored_values (h\<lparr>snapshot_cells := snapshot_cells h @ vs\<rparr>) stored = map Some (tl vs)"
    using v unfolding one by (simp add: drop_Suc)
  have l: "int (length stored) = maxSize ?m"
    using stored_values_length [OF v'] len lv New_invariant(2) [of n] by auto
  have "distinct vs \<longrightarrow> Some (hd vs) \<notin> set (map Some (tl vs))"
    by (cases vs) auto
  with eq v' l show "\<exists>h' m'. Store_each h ?m ps = Inr (h', m') \<and>
         int (length (snapshots m')) = maxSize ?m \<and>
         stored_values h' (snapshots m') = map Some (tl vs) \<and>
         (distinct vs \<longrightarrow> Some (hd vs) \<notin> set (stored_values h' (snapshots m')))"
    by auto
next
  assume "0 < n"
  then show "maxSize (NewBoundedMemoryStorage n) = n"
    by (simp add: NewBoundedMemoryStorage_def)
next
  assume a: "sort_Slice_spec sort_Slice \<and>
    map (load_Snapshot h) [p1, p2, p3] = map Some [v1, v2, v3] \<and>
    time_Parse (Timestamp v1) = Inr t1 \<and> time_Parse (Timestamp v2) = Inr t2 \<and>
    time_Parse (Timestamp v3) = Inr t3 \<and> t1 < t2 \<and> t2 < t3"
  let ?m = "NewBoundedMemoryStorage 2"
  let ?q = "\<lparr>StartTime = None, EndTime = None, Limit = 0, OrderBy = OrderByTimeDesc\<rparr>"
  from a have spec: "sort_Slice_spec sort_Slice"
    and ld: "map (load_Snapshot h) [p1, p2, p3] = map Some [v1, v2, v3]"
    and t: "time_Parse (Timestamp v2) = Inr t2" "time_Parse (Timestamp v3) = Inr t3" "t2 < t3"
    by auto
  let ?h' = "h\<lparr>snapshot_cells := snapshot_cells h @ [v1, v2, v3]\<rparr>"
  from Store_each_from_New [OF ld, of 2]
  obtain stored where
    eq: "Store_each h ?m [p1, p2, p3] = Inr (?h', ?m\<lparr>snapshots := stored\<rparr>)"
    and v: "stored_values ?h' stored = map Some [v2, v3]"
    by (auto simp: NewBoundedMemoryStorage_def)
  let ?sel = "filter (query_keeps time_Parse (opts_or_zero (Some ?q))) [v2, v3]"
  have sel: "?sel = [v2, v3]"
    using t by (simp add: opts_or_zero_def query_keeps_unbounded)
  from memory_Query_result [OF spec v, of time_Parse "Some ?q"]
  obtain res ws where
    q: "memory_Query sort_Slice time_Parse ?h' stored (Some ?q) =
          Inr (?h'\<lparr>snapshot_cells := snapshot_cells ?h' @ ?sel\<rparr>, res)"
    and r: "stored_values (?h'\<lparr>snapshot_cells := snapshot_cells ?h' @ ?sel\<rparr>) res =
          map Some (apply_limit (opts_or_zero (Some ?q)) ws)"
    and ms: "mset ws = mset ?sel"
    and srt: "sorted_wrt (\<lambda>a b. \<not> snapshot_less time_Parse (OrderBy (opts_or_zero (Some ?q))) b a) ws"
    by blast
  from ms have "ws = [v2, v3] \<or> ws = [v3, v2]"
    unfolding sel by (intro mset_pair_cases) simp
  moreover have "snapshot_less time_Parse (OrderBy (opts_or_zero (Some ?q))) v3 v2"
    using t by (simp add: snapshot_less_def ParseTimestamp_ignore_err_def ParseTimestamp_def
        before_in_order_def opts_or_zero_def OrderByTimeDesc_def OrderByTimeAsc_def)
  ultimately have ws: "ws = [v3, v2]"
    using srt by auto
  have "apply_limit (opts_or_zero (Some ?q)) ws = ws"
    by (simp add: apply_limit_def opts_or_zero_def)
  with r ws have "stored_values (?h'\<lparr>snapshot_cells := snapshot_cells ?h' @ ?sel\<rparr>) res =
          map Some [v3, v2]" by simp
  with eq q show "\<exists>h' m' h'' results.
         Store_each h ?m [p1, p2, p3] = Inr (h', m') \<and>
         BoundedMemoryStorage_Query sort_Slice time_Parse h' m' (Some ?q) = Inr (h'', results) \<and>
         stored_values h'' results = map Some [v3, v2]"
    unfolding BoundedMemoryStorage_Query_def by fastforce
qed

lemma example_loads:
  "map (load_Snapshot example_heap) [Some 0, Some 1, Some 2] =
   map Some [example_struct ''2024-01-01T00:00:01Z'' (Some 0),
             example_struct ''2024-01-01T00:00:02Z'' None,
             example_struct ''2024-01-01T00:00:03Z'' None]"
  by (simp add: example_heap_def load_Snapshot_def)

lemma example_parses:
  "time_Parse_table example_times (Timestamp (example_struct ''2024-01-01T00:00:01Z'' r1)) =
     Inr 1704067201000000000"
  "time_Parse_table example_times (Timestamp (example_struct ''2024-01-01T00:00:02Z'' r2)) =
     Inr 1704067202000000000"
  "time_Parse_table example_times (Timestamp (example_struct ''2024-01-01T00:00:03Z'' r3)) =
     Inr 1704067203000000000"
  by (simp_all add: time_Parse_table_def example_times_def example_struct_def)

theorem C5_Store_evicts_oldest_witness:
  "map (load_Snapshot example_heap) [Some 0, Some 1, Some 2] =
     map Some [example_struct ''2024-01-01T00:00:01Z'' (Some 0),
               example_struct ''2024-01-01T00:00:02Z'' None,
               example_struct ''2024-01-01T00:00:03Z'' None] \<and>
   int (length [Some 0, Some 1, Some (2 :: addr)]) = maxSize (NewBoundedMemoryStorage 2) + 1 \<and>
   (\<exists>h' m'. Store_each example_heap (NewBoundedMemoryStorage 2) [Some 0, Some 1, Some 2] =
        Inr (h', m') \<and>
      int (length (snapshots m')) = 2 \<and>
      stored_values h' (snapshots m') =
        map Some [example_struct ''2024-01-01T00:00:02Z'' None,
                  example_struct ''2024-01-01T00:00:03Z'' None] \<and>
      Some (example_struct ''2024-01-01T00:00:01Z'' (Some 0)) \<notin>
        set (stored_values h' (snapshots m'))) \<and>
   sort_Slice_spec (insertionSort :: (addr \<Rightarrow> addr \<Rightarrow> bool) \<Rightarrow> addr list \<Rightarrow> addr list) \<and>
   (\<exists>h' m' h'' results.
      Store_each example_heap (NewBoundedMemoryStorage 2) [Some 0, Some 1, Some 2] =
        Inr (h', m') \<and>
      BoundedMemoryStorage_Query insertionSort (time_Parse_table example_times) h' m'
        (Some \<lparr>StartTime = None, EndTime = None, Limit = 0, OrderBy = OrderByTimeDesc\<rparr>) =
        Inr (h'', results) \<and>
      stored_values h'' results =
        map Some [example_struct ''2024-01-01T00:00:03Z'' None,
                  example_struct ''2024-01-01T00:00:02Z'' None])"
proof -
  have two: "maxSize (NewBoundedMemoryStorage 2) = 2"
    by (simp add: NewBoundedMemoryStorage_def)
  have d: "distinct [example_struct ''2024-01-01T00:00:01Z'' (Some 0),
               example_struct ''2024-01-01T00:00:02Z'' None,
               example_struct ''2024-01-01T00:00:03Z'' None]"
    by (simp add: example_struct_def)
  have l: "int (length [Some 0, Some 1, Some (2 :: addr)]) = maxSize (NewBoundedMemoryStorage 2) + 1"
    by (simp add: two)
  note inst = C5_Store_evicts_oldest [of example_heap "[Some 0, Some 1, Some 2]"
        "[example_struct ''2024-01-01T00:00:01Z'' (Some 0),
          example_struct ''2024-01-01T00:00:02Z'' None,
          example_struct ''2024-01-01T00:00:03Z'' None]" 2
        insertionSort "Some 0" "Some 1" "Some 2"
        "example_struct ''2024-01-01T00:00:01Z'' (Some 0)"
        "example_struct ''2024-01-01T00:00:02Z'' None"
        "example_struct ''2024-01-01T00:00:03Z'' None"
        "time_Parse_table example_times" 1704067201000000000 1704067202000000000
        1704067203000000000]
  from inst [THEN conjunct1, THEN mp, OF conjI [OF example_loads l]] d
  have first: "\<exists>h' m'. Store_each example_heap (NewBoundedMemoryStorage 2) [Some 0, Some 1, Some 2] =
        Inr (h', m') \<and>
      int (length (snapshots m')) = 2 \<and>
      stored_values h' (snapshots m') =
        map Some [example_struct ''2024-01-01T00:00:02Z'' None,
                  example_struct ''2024-01-01T00:00:03Z'' None] \<and>
      Some (example_struct ''2024-01-01T00:00:01Z'' (Some 0)) \<notin>
        set (stored_values h' (snapshots m'))"
    unfolding two by (simp del: Store_each.simps)
  have hyp: "sort_Slice_spec (insertionSort :: (addr \<Rightarrow> addr \<Rightarrow> bool) \<Rightarrow> addr list \<Rightarrow> addr list) \<and>
    map (load_Snapshot example_heap) [Some 0, Some 1, Some 2] =
     map Some [example_struct ''2024-01-01T00:00:01Z'' (Some 0),
               example_struct ''2024-01-01T00:00:02Z'' None,
               example_struct ''2024-01-01T00:00:03Z'' None] \<and>
    time_Parse_table example_times (Timestamp (example_struct ''2024-01-01T00:00:01Z'' (Some 0))) =
      Inr 1704067201000000000 \<and>
    time_Parse_table example_times (Timestamp (example_struct ''2024-01-01T00:00:02Z'' None)) =
      Inr 1704067202000000000 \<and>
    time_Parse_table example_times (Timestamp (example_struct ''2024-01-01T00:00:03Z'' None)) =
      Inr 1704067203000000000 \<and>
    (1704067201000000000 :: int) < 1704067202000000000 \<and>
    (1704067202000000000 :: int) < 1704067203000000000"
    using insertionSort_spec example_loads example_parses by simp
  note second = inst [THEN conjunct2, THEN conjunct2, THEN mp, OF hyp]
  show ?thesis
    using example_loads l first insertionSort_spec second by blast
qed

text \<open>
  Claim C2. After \<open>Store\<close> returns, no mutation of the caller's snapshot changes what
  \<open>Query\<close> returns. \<open>Store\<close> copies the struct, which holds three pointers, and not the
  records they point to. Here the caller stores the snapshot at address 0, whose runtime
  record counts 4 goroutines, then assigns \<open>s.Runtime.NumGoroutines = 99\<close>; the snapshot
  that \<open>Query\<close> returns counts 99.
\<close>

theorem C2_nested_mutation_reaches_store:
  "read_Snapshot example_heap (Some 0) =
     Some (example_value ''2024-01-01T00:00:01Z'' (Some (example_runtime 4))) \<and>
   (case BoundedMemoryStorage_Store example_heap (NewBoundedMemoryStorage 2) (Some 0) of
      Inl e \<Rightarrow> []
    | Inr (h1, m1) \<Rightarrow>
        (case assign_Runtime_NumGoroutines h1 (Some 0) 99 of
           Inl e \<Rightarrow> []
         | Inr h2 \<Rightarrow>
             (case BoundedMemoryStorage_Query insertionSort (time_Parse_table example_times)
                     h2 m1 None of
                Inl e \<Rightarrow> []
              | Inr (h3, results) \<Rightarrow> map (\<lambda>a. read_Snapshot h3 (Some a)) results))) =
     [Some (example_value ''2024-01-01T00:00:01Z'' (Some (example_runtime 99)))]"
  by (simp add: BoundedMemoryStorage_Store_def NewBoundedMemoryStorage_def example_heap_def
      load_Snapshot_def new_Snapshot_def assign_Runtime_NumGoroutines_def load_cell_def
      BoundedMemoryStorage_Query_def memory_Query_def opts_or_zero_def QueryOptions_zero_def
      ParseTimestamp_def time_Parse_table_def example_times_def example_struct_def
      in_time_range_def insertionSort_def apply_limit_def read_Snapshot_def example_value_def
      example_runtime_def)

text \<open>
  Claim C3. \<open>Query\<close> with the order left unset returns the newest snapshot first. The
  zero value of \<open>OrderBy\<close> is \<open>OrderByTimeAsc\<close>: here three snapshots are stored, the
  newest first, and \<open>Query\<close> with the descriptor \<open>&QueryOptions{}\<close> returns them oldest
  first.
\<close>

theorem C3_unset_order_is_ascending:
  "(case BoundedMemoryStorage_StoreBatch example_heap (NewBoundedMemoryStorage 10)
           [Some 2, Some 0, Some 1] of
      Inl e \<Rightarrow> []
    | Inr (h1, m1) \<Rightarrow>
        (case BoundedMemoryStorage_Query insertionSort (time_Parse_table example_times) h1 m1
                (Some QueryOptions_zero) of
           Inl e \<Rightarrow> []
         | Inr (h2, results) \<Rightarrow> map (map_option Timestamp) (stored_values h2 results))) =
     [Some ''2024-01-01T00:00:01Z'', Some ''2024-01-01T00:00:02Z'', Some ''2024-01-01T00:00:03Z'']"
  by (simp add: BoundedMemoryStorage_StoreBatch_def NewBoundedMemoryStorage_def example_heap_def
      load_Snapshot_def new_Snapshot_def 
      BoundedMemoryStorage_Query_def memory_Query_def opts_or_zero_def QueryOptions_zero_def
      ParseTimestamp_def time_Parse_table_def example_times_def example_struct_def
      in_time_range_def insertionSort_def apply_limit_def stored_values_def
      pointer_less_def pointer_time_def ParseTimestamp_ignore_err_def before_in_order_def
      OrderByTimeAsc_def)

section \<open>Query of the file, object and database backends\<close>

lemma FileStorage_Query_loop_eq:
  "FileStorage_Query_loop json_Unmarshal time_Parse fs dir opts results entries =
   results @ filter (query_keeps time_Parse opts) (directory_snapshots json_Unmarshal fs dir entries)"
proof (induction entries arbitrary: results)
  case Nil
  then show ?case by (simp add: directory_snapshots_def List.map_filter_simps)
next
  case (Cons entry rest)
  show ?case
    by (simp add: Cons.IH directory_snapshots_def List.map_filter_simps decode_entry_def
        FromJSON_def query_keeps_def Let_def split: sum.splits)
qed

lemma CloudObjectStorage_Query_loop_eq:
  "CloudObjectStorage_Query_loop json_Unmarshal time_Parse c opts hist results keys =
   (results @ filter (query_keeps time_Parse opts) (fst (fetched_snapshots json_Unmarshal c hist keys)),
    snd (fetched_snapshots json_Unmarshal c hist keys))"
proof (induction keys arbitrary: results hist)
  case Nil
  then show ?case by simp
next
  case (Cons key rest)
  show ?case
    by (simp add: Cons.IH FromJSON_def query_keeps_def Let_def split: sum.splits prod.splits)
qed


lemma query_keeps_zero: "query_keeps time_Parse QueryOptions_zero = timestamp_parses time_Parse"
  by (rule ext)
    (auto simp: query_keeps_def timestamp_parses_def ParseTimestamp_def in_time_range_def
      QueryOptions_zero_def split: sum.splits)



lemma apply_limit_Nil [simp]: "apply_limit q [] = []"
  by (simp add: apply_limit_def)

lemma apply_limit_none: "Limit q \<le> 0 \<Longrightarrow> apply_limit q ws = ws"
  by (simp add: apply_limit_def)

lemma sortSnapshots_spec:
  assumes "sort_Slice_spec sort_Slice"
  shows "mset (sortSnapshots sort_Slice time_Parse xs ob) = mset xs"
    and "sorted_wrt (\<lambda>a b. \<not> snapshot_less time_Parse ob b a)
           (sortSnapshots sort_Slice time_Parse xs ob)"
  using assms strict_weak_order_snapshot_less [of time_Parse ob]
  unfolding sort_Slice_spec_def sortSnapshots_def by blast+

lemma FileStorage_Query_result:
  assumes spec: "sort_Slice_spec sort_Slice"
    and dir: "os_ReadDir fs (baseDir f) = Inr entries"
  shows "\<exists>ws. FileStorage_Query sort_Slice json_Unmarshal time_Parse fs f opts =
      Inr (apply_limit (opts_or_zero opts) ws) \<and>
    mset ws = mset (filter (query_keeps time_Parse (opts_or_zero opts))
                (directory_snapshots json_Unmarshal fs (baseDir f) entries)) \<and>
    sorted_wrt (\<lambda>a b. \<not> snapshot_less time_Parse (OrderBy (opts_or_zero opts)) b a) ws"
proof -
  let ?sel = "filter (query_keeps time_Parse (opts_or_zero opts))
                (directory_snapshots json_Unmarshal fs (baseDir f) entries)"
  let ?ws = "sortSnapshots sort_Slice time_Parse ?sel (OrderBy (opts_or_zero opts))"
  have q: "FileStorage_Query sort_Slice json_Unmarshal time_Parse fs f opts =
      Inr (apply_limit (opts_or_zero opts) ?ws)"
    using dir by (simp add: FileStorage_Query_def FileStorage_Query_loop_eq Let_def)
  have m: "mset ?ws = mset ?sel"
    by (rule sortSnapshots_spec(1) [OF spec])
  have s: "sorted_wrt (\<lambda>a b. \<not> snapshot_less time_Parse (OrderBy (opts_or_zero opts)) b a) ?ws"
    by (rule sortSnapshots_spec(2) [OF spec])
  show ?thesis
    by (rule exI [of _ ?ws]) (intro conjI q m s)
qed

lemma FileStorage_Query_error:
  "os_ReadDir fs (baseDir f) = Inl e \<Longrightarrow>
   FileStorage_Query sort_Slice json_Unmarshal time_Parse fs f opts =
     Inl (Errorf ''failed to read directory'' e)"
  by (simp add: FileStorage_Query_def Let_def)

lemma CloudObjectStorage_Query_result:
  assumes spec: "sort_Slice_spec sort_Slice"
    and ls: "ListObjects (client c) hist (bucket c) (cos_prefix c) = Inr keys"
  shows "\<exists>ws hist'. CloudObjectStorage_Query sort_Slice json_Unmarshal time_Parse c hist opts =
      (Inr (apply_limit (opts_or_zero opts) ws), hist') \<and>
    mset ws = mset (filter (query_keeps time_Parse (opts_or_zero opts))
      (fst (fetched_snapshots json_Unmarshal c
              (hist @ [Listed (bucket c) (cos_prefix c) (Inr keys)]) keys))) \<and>
    sorted_wrt (\<lambda>a b. \<not> snapshot_less time_Parse (OrderBy (opts_or_zero opts)) b a) ws"
proof -
  let ?sel = "filter (query_keeps time_Parse (opts_or_zero opts))
      (fst (fetched_snapshots json_Unmarshal c
              (hist @ [Listed (bucket c) (cos_prefix c) (Inr keys)]) keys))"
  let ?ws = "sortSnapshots sort_Slice time_Parse ?sel (OrderBy (opts_or_zero opts))"
  obtain hist' where q: "CloudObjectStorage_Query sort_Slice json_Unmarshal time_Parse c hist opts =
      (Inr (apply_limit (opts_or_zero opts) ?ws), hist')"
    using ls by (simp add: CloudObjectStorage_Query_def CloudObjectStorage_Query_loop_eq Let_def)
  have m: "mset ?ws = mset ?sel"
    by (rule sortSnapshots_spec(1) [OF spec])
  have s: "sorted_wrt (\<lambda>a b. \<not> snapshot_less time_Parse (OrderBy (opts_or_zero opts)) b a) ?ws"
    by (rule sortSnapshots_spec(2) [OF spec])
  show ?thesis
    by (rule exI [of _ ?ws], rule exI [of _ hist']) (intro conjI q m s)
qed

lemma CloudObjectStorage_Query_error:
  "ListObjects (client c) hist (bucket c) (cos_prefix c) = Inl e \<Longrightarrow>
   CloudObjectStorage_Query sort_Slice json_Unmarshal time_Parse c hist opts =
     (Inl (Errorf ''failed to list objects'' e), hist @ [Listed (bucket c) (cos_prefix c) (Inl e)])"
  by (simp add: CloudObjectStorage_Query_def Let_def)



lemma decimal_1_2: "decimal (Suc 0) = ''1''" "decimal 2 = ''2''"
  by code_simp+

lemma Query_build_bounds:
  assumes "StartTime q = Some T1" "EndTime q = Some T2"
  shows "snd (Query_build drv q) = [T1, T2]"
    and "prefix (''SELECT data FROM inspectd_snapshots WHERE 1=1'' @
          (if drv = ''postgres'' then '' AND timestamp >= $1 AND timestamp <= $2''
           else '' AND timestamp >= ? AND timestamp <= ?'')) (fst (Query_build drv q))"
  using assms by (simp_all add: Query_build_def Let_def Sprintf_d_def decimal_1_2 del: decimal.simps)









section \<open>The nil query descriptor\<close>

lemma zero_order:
  "(\<lambda>a b. \<not> snapshot_less time_Parse (OrderBy QueryOptions_zero) b a) =
   (\<lambda>a b. ParseTimestamp_ignore_err time_Parse a \<le> ParseTimestamp_ignore_err time_Parse b)"
  by (auto simp: snapshot_less_def before_in_order_def QueryOptions_zero_def OrderByTimeAsc_def
      fun_eq_iff)

lemma apply_limit_zero [simp]: "apply_limit QueryOptions_zero ws = ws"
  by (simp add: apply_limit_def QueryOptions_zero_def)

lemma opts_or_zero_None [simp]: "opts_or_zero None = QueryOptions_zero"
  by (simp add: opts_or_zero_def)

lemma opts_or_zero_Some_zero: "opts_or_zero (Some QueryOptions_zero) = opts_or_zero None"
  by (simp add: opts_or_zero_def)

lemma memory_Query_nil:
  assumes spec: "sort_Slice_spec sort_Slice"
    and st: "stored_values h stored = map Some vs"
  shows "\<exists>h' res ws. memory_Query sort_Slice time_Parse h stored None = Inr (h', res) \<and>
    stored_values h' res = map Some ws \<and>
    mset ws = mset (filter (timestamp_parses time_Parse) vs) \<and>
    sorted_wrt (\<lambda>a b. ParseTimestamp_ignore_err time_Parse a \<le>
                       ParseTimestamp_ignore_err time_Parse b) ws"
  using memory_Query_result [OF spec st, of time_Parse None]
  unfolding opts_or_zero_None query_keeps_zero zero_order apply_limit_zero by blast

text \<open>
  Claim C9, as amended. On the two memory backends, the file backend and the object
  backend, \<open>Query\<close> with a nil descriptor returns what \<open>Query\<close> with the descriptor
  \<open>&QueryOptions{}\<close> returns. On the memory backends it returns no error and a
  rearrangement, oldest first, of every stored snapshot whose timestamp parses. On the
  file and the object backend it returns the error of the listing when \<open>os.ReadDir\<close> or
  \<open>ListObjects\<close> fails; when the listing succeeds it returns no error and a rearrangement,
  oldest first, of every listed snapshot that can be fetched and decoded and whose
  timestamp parses.
\<close>

theorem C9_nil_query_is_zero_query:
  "BoundedMemoryStorage_Query sort_addrs time_Parse h m None =
     BoundedMemoryStorage_Query sort_addrs time_Parse h m (Some QueryOptions_zero) \<and>
   MemoryStorage_Query sort_addrs time_Parse h mm None =
     MemoryStorage_Query sort_addrs time_Parse h mm (Some QueryOptions_zero) \<and>
   FileStorage_Query sort_snaps json_Unmarshal time_Parse fs f None =
     FileStorage_Query sort_snaps json_Unmarshal time_Parse fs f (Some QueryOptions_zero) \<and>
   CloudObjectStorage_Query sort_snaps json_Unmarshal time_Parse c hist None =
     CloudObjectStorage_Query sort_snaps json_Unmarshal time_Parse c hist (Some QueryOptions_zero) \<and>
   (sort_Slice_spec sort_addrs \<and> stored_values h (snapshots m) = map Some vs \<longrightarrow>
      (\<exists>h' res ws.
         BoundedMemoryStorage_Query sort_addrs time_Parse h m None = Inr (h', res) \<and>
         stored_values h' res = map Some ws \<and>
         mset ws = mset (filter (timestamp_parses time_Parse) vs) \<and>
         sorted_wrt (\<lambda>a b. ParseTimestamp_ignore_err time_Parse a \<le>
                            ParseTimestamp_ignore_err time_Parse b) ws)) \<and>
   (sort_Slice_spec sort_addrs \<and> stored_values h (mem_snapshots mm) = map Some vs \<longrightarrow>
      (\<exists>h' res ws.
         MemoryStorage_Query sort_addrs time_Parse h mm None = Inr (h', res) \<and>
         stored_values h' res = map Some ws \<and>
         mset ws = mset (filter (timestamp_parses time_Parse) vs) \<and>
         sorted_wrt (\<lambda>a b. ParseTimestamp_ignore_err time_Parse a \<le>
                            ParseTimestamp_ignore_err time_Parse b) ws)) \<and>
   (sort_Slice_spec sort_snaps \<and> os_ReadDir fs (baseDir f) = Inr entries \<longrightarrow>
      (\<exists>ws.
         FileStorage_Query sort_snaps json_Unmarshal time_Parse fs f None = Inr ws \<and>
         mset ws = mset (filter (timestamp_parses time_Parse)
                     (directory_snapshots json_Unmarshal fs (baseDir f) entries)) \<and>
         sorted_wrt (\<lambda>a b. ParseTimestamp_ignore_err time_Parse a \<le>
                            ParseTimestamp_ignore_err time_Parse b) ws)) \<and>
   (os_ReadDir fs (baseDir g) = Inl e \<longrightarrow>
      FileStorage_Query sort_snaps json_Unmarshal time_Parse fs g None =
        Inl (Errorf ''failed to read directory'' e)) \<and>
   (sort_Slice_spec sort_snaps \<and>
    ListObjects (client c) hist (bucket c) (cos_prefix c) = Inr keys \<longrightarrow>
      (\<exists>ws hist'.
         CloudObjectStorage_Query sort_snaps json_Unmarshal time_Parse c hist None =
           (Inr ws, hist') \<and>
         mset ws = mset (filter (timestamp_parses time_Parse)
                     (fst (fetched_snapshots json_Unmarshal c
                        (hist @ [Listed (bucket c) (cos_prefix c) (Inr keys)]) keys))) \<and>
         sorted_wrt (\<lambda>a b. ParseTimestamp_ignore_err time_Parse a \<le>
                            ParseTimestamp_ignore_err time_Parse b) ws)) \<and>
   (ListObjects (client k) hist (bucket k) (cos_prefix k) = Inl e' \<longrightarrow>
      fst (CloudObjectStorage_Query sort_snaps json_Unmarshal time_Parse k hist None) =
        Inl (Errorf ''failed to list objects'' e'))"
proof (intro conjI impI)
  show "BoundedMemoryStorage_Query sort_addrs time_Parse h m None =
       BoundedMemoryStorage_Query sort_addrs time_Parse h m (Some QueryOptions_zero)"
    by (simp add: BoundedMemoryStorage_Query_def memory_Query_def opts_or_zero_Some_zero)
next
  show "MemoryStorage_Query sort_addrs time_Parse h mm None =
       MemoryStorage_Query sort_addrs time_Parse h mm (Some QueryOptions_zero)"
    by (simp add: MemoryStorage_Query_def memory_Query_def opts_or_zero_Some_zero)
next
  show "FileStorage_Query sort_snaps json_Unmarshal time_Parse fs f None =
       FileStorage_Query sort_snaps json_Unmarshal time_Parse fs f (Some QueryOptions_zero)"
    by (simp add: FileStorage_Query_def opts_or_zero_Some_zero)
next
  show "CloudObjectStorage_Query sort_snaps json_Unmarshal time_Parse c hist None =
       CloudObjectStorage_Query sort_snaps json_Unmarshal time_Parse c hist (Some QueryOptions_zero)"
    by (simp add: CloudObjectStorage_Query_def opts_or_zero_Some_zero)
next
  assume a: "sort_Slice_spec sort_addrs \<and> stored_values h (snapshots m) = map Some vs"
  from memory_Query_nil [OF a [THEN conjunct1] a [THEN conjunct2]]
  show "(\<exists>h' res ws.
           BoundedMemoryStorage_Query sort_addrs time_Parse h m None = Inr (h', res) \<and>
           stored_values h' res = map Some ws \<and>
           mset ws = mset (filter (timestamp_parses time_Parse) vs) \<and>
           sorted_wrt (\<lambda>a b. ParseTimestamp_ignore_err time_Parse a \<le>
                              ParseTimestamp_ignore_err time_Parse b) ws)"
    unfolding BoundedMemoryStorage_Query_def .
next
  assume a: "sort_Slice_spec sort_addrs \<and> stored_values h (mem_snapshots mm) = map Some vs"
  from memory_Query_nil [OF a [THEN conjunct1] a [THEN conjunct2]]
  show "(\<exists>h' res ws.
           MemoryStorage_Query sort_addrs time_Parse h mm None = Inr (h', res) \<and>
           stored_values h' res = map Some ws \<and>
           mset ws = mset (filter (timestamp_parses time_Parse) vs) \<and>
           sorted_wrt (\<lambda>a b. ParseTimestamp_ignore_err time_Parse a \<le>
                              ParseTimestamp_ignore_err time_Parse b) ws)"
    unfolding MemoryStorage_Query_def .
next
  assume a: "sort_Slice_spec sort_snaps \<and> os_ReadDir fs (baseDir f) = Inr entries"
  from FileStorage_Query_result [OF a [THEN conjunct1] a [THEN conjunct2], of json_Unmarshal time_Parse None]
  show "(\<exists>ws.
           FileStorage_Query sort_snaps json_Unmarshal time_Parse fs f None = Inr ws \<and>
           mset ws = mset (filter (timestamp_parses time_Parse)
                       (directory_snapshots json_Unmarshal fs (baseDir f) entries)) \<and>
           sorted_wrt (\<lambda>a b. ParseTimestamp_ignore_err time_Parse a \<le>
                              ParseTimestamp_ignore_err time_Parse b) ws)"
    unfolding opts_or_zero_None query_keeps_zero zero_order apply_limit_zero .
next
  assume a: "os_ReadDir fs (baseDir g) = Inl e"
  from a show "FileStorage_Query sort_snaps json_Unmarshal time_Parse fs g None =
          Inl (Errorf ''failed to read directory'' e)"
    by (rule FileStorage_Query_error)
next
  assume a: "sort_Slice_spec sort_snaps \<and>
    ListObjects (client c) hist (bucket c) (cos_prefix c) = Inr keys"
  from CloudObjectStorage_Query_result [OF a [THEN conjunct1] a [THEN conjunct2], of json_Unmarshal time_Parse None]
  show "(\<exists>ws hist'.
           CloudObjectStorage_Query sort_snaps json_Unmarshal time_Parse c hist None =
             (Inr ws, hist') \<and>
           mset ws = mset (filter (timestamp_parses time_Parse)
                       (fst (fetched_snapshots json_Unmarshal c
                          (hist @ [Listed (bucket c) (cos_prefix c) (Inr keys)]) keys))) \<and>
           sorted_wrt (\<lambda>a b. ParseTimestamp_ignore_err time_Parse a \<le>
                              ParseTimestamp_ignore_err time_Parse b) ws)"
    unfolding opts_or_zero_None query_keeps_zero zero_order apply_limit_zero .
next
  assume a: "ListObjects (client k) hist (bucket k) (cos_prefix k) = Inl e'"
  from a show "fst (CloudObjectStorage_Query sort_snaps json_Unmarshal time_Parse k hist None) =
          Inl (Errorf ''failed to list objects'' e')"
    by (simp add: CloudObjectStorage_Query_error)
qed

theorem C9_nil_query_is_zero_query_witness:
  "(BoundedMemoryStorage_Query insertionSort (time_Parse_table example_times) example_heap \<lparr>snapshots = [0, 1, 2], maxSize = 3\<rparr> None =
     BoundedMemoryStorage_Query insertionSort (time_Parse_table example_times) example_heap \<lparr>snapshots = [0, 1, 2], maxSize = 3\<rparr> (Some QueryOptions_zero)) \<and>
   (MemoryStorage_Query insertionSort (time_Parse_table example_times) example_heap \<lparr>mem_snapshots = [0, 1, 2]\<rparr> None =
     MemoryStorage_Query insertionSort (time_Parse_table example_times) example_heap \<lparr>mem_snapshots = [0, 1, 2]\<rparr> (Some QueryOptions_zero)) \<and>
   (FileStorage_Query insertionSort (json_Unmarshal_table example_json) (time_Parse_table example_times) example_fs \<lparr>baseDir = ''snapshots''\<rparr> None =
     FileStorage_Query insertionSort (json_Unmarshal_table example_json) (time_Parse_table example_times) example_fs \<lparr>baseDir = ''snapshots''\<rparr> (Some QueryOptions_zero)) \<and>
   (CloudObjectStorage_Query insertionSort (json_Unmarshal_table example_json) (time_Parse_table example_times) (example_cos 0) [] None =
     CloudObjectStorage_Query insertionSort (json_Unmarshal_table example_json) (time_Parse_table example_times) (example_cos 0) [] (Some QueryOptions_zero)) \<and>
   (sort_Slice_spec (insertionSort :: (addr \<Rightarrow> addr \<Rightarrow> bool) \<Rightarrow> addr list \<Rightarrow> addr list) \<and> stored_values example_heap (snapshots \<lparr>snapshots = [0, 1, 2], maxSize = 3\<rparr>) = map Some (snapshot_cells example_heap)) \<and>
   ((\<exists>h' res ws.
         BoundedMemoryStorage_Query insertionSort (time_Parse_table example_times) example_heap \<lparr>snapshots = [0, 1, 2], maxSize = 3\<rparr> None = Inr (h', res) \<and>
         stored_values h' res = map Some ws \<and>
         mset ws = mset (filter (timestamp_parses (time_Parse_table example_times)) (snapshot_cells example_heap)) \<and>
         sorted_wrt (\<lambda>a b. ParseTimestamp_ignore_err (time_Parse_table example_times) a \<le>
                            ParseTimestamp_ignore_err (time_Parse_table example_times) b) ws)) \<and>
   (sort_Slice_spec (insertionSort :: (addr \<Rightarrow> addr \<Rightarrow> bool) \<Rightarrow> addr list \<Rightarrow> addr list) \<and> stored_values example_heap (mem_snapshots \<lparr>mem_snapshots = [0, 1, 2]\<rparr>) = map Some (snapshot_cells example_heap)) \<and>
   ((\<exists>h' res ws.
         MemoryStorage_Query insertionSort (time_Parse_table example_times) example_heap \<lparr>mem_snapshots = [0, 1, 2]\<rparr> None = Inr (h', res) \<and>
         stored_values h' res = map Some ws \<and>
         mset ws = mset (filter (timestamp_parses (time_Parse_table example_times)) (snapshot_cells example_heap)) \<and>
         sorted_wrt (\<lambda>a b. ParseTimestamp_ignore_err (time_Parse_table example_times) a \<le>
                            ParseTimestamp_ignore_err (time_Parse_table example_times) b) ws)) \<and>
   (sort_Slice_spec (insertionSort :: (Snapshot_value \<Rightarrow> Snapshot_value \<Rightarrow> bool) \<Rightarrow> Snapshot_value list \<Rightarrow> Snapshot_value list) \<and> os_ReadDir example_fs (baseDir \<lparr>baseDir = ''snapshots''\<rparr>) = Inr example_entries) \<and>
   ((\<exists>ws.
         FileStorage_Query insertionSort (json_Unmarshal_table example_json) (time_Parse_table example_times) example_fs \<lparr>baseDir = ''snapshots''\<rparr> None = Inr ws \<and>
         mset ws = mset (filter (timestamp_parses (time_Parse_table example_times))
                     (directory_snapshots (json_Unmarshal_table example_json) example_fs (baseDir \<lparr>baseDir = ''snapshots''\<rparr>) example_entries)) \<and>
         sorted_wrt (\<lambda>a b. ParseTimestamp_ignore_err (time_Parse_table example_times) a \<le>
                            ParseTimestamp_ignore_err (time_Parse_table example_times) b) ws)) \<and>
   (os_ReadDir example_fs (baseDir \<lparr>baseDir = ''removed''\<rparr>) = Inl (External ''no such file or directory'')) \<and>
   (FileStorage_Query insertionSort (json_Unmarshal_table example_json) (time_Parse_table example_times) example_fs \<lparr>baseDir = ''removed''\<rparr> None =
        Inl (Errorf ''failed to read directory'' (External ''no such file or directory''))) \<and>
   (sort_Slice_spec (insertionSort :: (Snapshot_value \<Rightarrow> Snapshot_value \<Rightarrow> bool) \<Rightarrow> Snapshot_value list \<Rightarrow> Snapshot_value list) \<and>
    ListObjects (client (example_cos 0)) [] (bucket (example_cos 0)) (cos_prefix (example_cos 0)) = Inr (map fst example_objects @ [''snapshots/gone.json''])) \<and>
   ((\<exists>ws hist'.
         CloudObjectStorage_Query insertionSort (json_Unmarshal_table example_json) (time_Parse_table example_times) (example_cos 0) [] None =
           (Inr ws, hist') \<and>
         mset ws = mset (filter (timestamp_parses (time_Parse_table example_times))
                     (fst (fetched_snapshots (json_Unmarshal_table example_json) (example_cos 0)
                        ([] @ [Listed (bucket (example_cos 0)) (cos_prefix (example_cos 0)) (Inr (map fst example_objects @ [''snapshots/gone.json'']))]) (map fst example_objects @ [''snapshots/gone.json''])))) \<and>
         sorted_wrt (\<lambda>a b. ParseTimestamp_ignore_err (time_Parse_table example_times) a \<le>
                            ParseTimestamp_ignore_err (time_Parse_table example_times) b) ws)) \<and>
   (ListObjects (client ((example_cos 0)\<lparr>cos_prefix := ''private/''\<rparr>)) [] (bucket ((example_cos 0)\<lparr>cos_prefix := ''private/''\<rparr>)) (cos_prefix ((example_cos 0)\<lparr>cos_prefix := ''private/''\<rparr>)) = Inl (External ''AccessDenied'')) \<and>
   (fst (CloudObjectStorage_Query insertionSort (json_Unmarshal_table example_json) (time_Parse_table example_times) ((example_cos 0)\<lparr>cos_prefix := ''private/''\<rparr>) [] None) =
        Inl (Errorf ''failed to list objects'' (External ''AccessDenied'')))"
proof -
  note inst = C9_nil_query_is_zero_query [where sort_addrs = "insertionSort"
      and sort_snaps = "insertionSort"
      and time_Parse = "time_Parse_table example_times"
      and h = "example_heap"
      and m = "\<lparr>snapshots = [0, 1, 2], maxSize = 3\<rparr>"
      and mm = "\<lparr>mem_snapshots = [0, 1, 2]\<rparr>"
      and vs = "snapshot_cells example_heap"
      and json_Unmarshal = "json_Unmarshal_table example_json"
      and fs = "example_fs"
      and f = "\<lparr>baseDir = ''snapshots''\<rparr>"
      and g = "\<lparr>baseDir = ''removed''\<rparr>"
      and entries = "example_entries"
      and c = "example_cos 0"
      and k = "(example_cos 0)\<lparr>cos_prefix := ''private/''\<rparr>"
      and hist = "[]"
      and keys = "map fst example_objects @ [''snapshots/gone.json'']"
      and e = "External ''no such file or directory''"
      and e' = "External ''AccessDenied''"]
  note c1 = inst [THEN conjunct1]
  note c2 = inst [THEN conjunct2, THEN conjunct1]
  note c3 = inst [THEN conjunct2, THEN conjunct2, THEN conjunct1]
  note c4 = inst [THEN conjunct2, THEN conjunct2, THEN conjunct2, THEN conjunct1]
  have h5: "sort_Slice_spec (insertionSort :: (addr \<Rightarrow> addr \<Rightarrow> bool) \<Rightarrow> addr list \<Rightarrow> addr list) \<and> stored_values example_heap (snapshots \<lparr>snapshots = [0, 1, 2], maxSize = 3\<rparr>) = map Some (snapshot_cells example_heap)"
    using insertionSort_spec
    by (simp add: stored_values_def load_Snapshot_def example_heap_def)
  note c5 = inst [THEN conjunct2, THEN conjunct2, THEN conjunct2, THEN conjunct2, THEN conjunct1, THEN mp, OF h5]
  have h6: "sort_Slice_spec (insertionSort :: (addr \<Rightarrow> addr \<Rightarrow> bool) \<Rightarrow> addr list \<Rightarrow> addr list) \<and> stored_values example_heap (mem_snapshots \<lparr>mem_snapshots = [0, 1, 2]\<rparr>) = map Some (snapshot_cells example_heap)"
    using insertionSort_spec
    by (simp add: stored_values_def load_Snapshot_def example_heap_def)
  note c6 = inst [THEN conjunct2, THEN conjunct2, THEN conjunct2, THEN conjunct2, THEN conjunct2, THEN conjunct1, THEN mp, OF h6]
  have h7: "sort_Slice_spec (insertionSort :: (Snapshot_value \<Rightarrow> Snapshot_value \<Rightarrow> bool) \<Rightarrow> Snapshot_value list \<Rightarrow> Snapshot_value list) \<and> os_ReadDir example_fs (baseDir \<lparr>baseDir = ''snapshots''\<rparr>) = Inr example_entries"
    using insertionSort_spec by (simp add: example_fs_def)
  note c7 = inst [THEN conjunct2, THEN conjunct2, THEN conjunct2, THEN conjunct2, THEN conjunct2, THEN conjunct2, THEN conjunct1, THEN mp, OF h7]
  have h8: "os_ReadDir example_fs (baseDir \<lparr>baseDir = ''removed''\<rparr>) = Inl (External ''no such file or directory'')"
    by (simp add: example_fs_def)
  note c8 = inst [THEN conjunct2, THEN conjunct2, THEN conjunct2, THEN conjunct2, THEN conjunct2, THEN conjunct2, THEN conjunct2, THEN conjunct1, THEN mp, OF h8]
  have h9: "sort_Slice_spec (insertionSort :: (Snapshot_value \<Rightarrow> Snapshot_value \<Rightarrow> bool) \<Rightarrow> Snapshot_value list \<Rightarrow> Snapshot_value list) \<and>
    ListObjects (client (example_cos 0)) [] (bucket (example_cos 0)) (cos_prefix (example_cos 0)) = Inr (map fst example_objects @ [''snapshots/gone.json''])"
    using insertionSort_spec by (simp add: example_cos_def example_client_def)
  note c9 = inst [THEN conjunct2, THEN conjunct2, THEN conjunct2, THEN conjunct2, THEN conjunct2, THEN conjunct2, THEN conjunct2, THEN conjunct2, THEN conjunct1, THEN mp, OF h9]
  have h10: "ListObjects (client ((example_cos 0)\<lparr>cos_prefix := ''private/''\<rparr>)) [] (bucket ((example_cos 0)\<lparr>cos_prefix := ''private/''\<rparr>)) (cos_prefix ((example_cos 0)\<lparr>cos_prefix := ''private/''\<rparr>)) = Inl (External ''AccessDenied'')"
    by (simp add: example_cos_def example_client_def)
  note c10 = inst [THEN conjunct2, THEN conjunct2, THEN conjunct2, THEN conjunct2, THEN conjunct2, THEN conjunct2, THEN conjunct2, THEN conjunct2, THEN conjunct2, THEN mp, OF h10]
  show ?thesis
    by (intro conjI [OF c1] conjI [OF c2] conjI [OF c3] conjI [OF c4] conjI [OF h5] conjI [OF c5] conjI [OF h6] conjI [OF c6] conjI [OF h7] conjI [OF c7] conjI [OF h8] conjI [OF c8] conjI [OF h9] conjI [OF c9] conjI [OF h10] c10)
qed

text \<open>
  Claim C9 as stated says that \<open>Query\<close> with a nil descriptor returns no error. On a
  file storage whose directory cannot be read, and on an object storage whose client
  refuses the listing, it returns the wrapped error.
\<close>

theorem C9_nil_query_fails_when_listing_fails:
  "FileStorage_Query insertionSort (json_Unmarshal_table example_json)
     (time_Parse_table example_times) example_fs \<lparr>baseDir = ''removed''\<rparr> None =
     Inl (Errorf ''failed to read directory'' (External ''no such file or directory'')) \<and>
   fst (CloudObjectStorage_Query insertionSort (json_Unmarshal_table example_json)
     (time_Parse_table example_times) ((example_cos 0)\<lparr>cos_prefix := ''private/''\<rparr>) [] None) =
     Inl (Errorf ''failed to list objects'' (External ''AccessDenied''))"
  by (simp add: FileStorage_Query_def example_fs_def CloudObjectStorage_Query_def example_cos_def
      example_client_def)

section \<open>Retention of ManagedFileStorage\<close>

lemma alreadyMarked_iff: "alreadyMarked p xs \<longleftrightarrow> p \<in> set xs"
  by (induction xs) auto

lemma mark_older_eq:
  "mark_older cutoff toDelete files =
   toDelete @ map path (filter (\<lambda>file. timestamp file < cutoff) files)"
  by (induction files arbitrary: toDelete) auto

lemma mark_oldest_eq:
  "distinct (map path files) \<Longrightarrow>
   mark_oldest deleteCount toDelete files =
   toDelete @ take (nat deleteCount) (filter (\<lambda>p. p \<notin> set toDelete) (map path files))"
proof (induction files arbitrary: deleteCount toDelete)
  case Nil
  then show ?case by simp
next
  case (Cons fi rest)
  from Cons.prems have d: "distinct (map path rest)" and n: "path fi \<notin> set (map path rest)"
    by auto
  show ?case
  proof (cases "deleteCount \<le> 0")
    case True
    then show ?thesis by simp
  next
    case pos: False
    show ?thesis
    proof (cases "path fi \<in> set toDelete")
      case True
      with pos Cons.IH [OF d] show ?thesis
        by (simp add: alreadyMarked_iff)
    next
      case False
      have f: "filter (\<lambda>p. p \<notin> set (toDelete @ [path fi])) (map path rest) =
               filter (\<lambda>p. p \<notin> set toDelete) (map path rest)"
      proof (rule filter_cong [OF refl])
        fix x assume "x \<in> set (map path rest)"
        with n have "x \<noteq> path fi" by blast
        then show "(x \<notin> set (toDelete @ [path fi])) = (x \<notin> set toDelete)" by simp
      qed
      have k: "nat deleteCount = Suc (nat (deleteCount - 1))"
        using pos by simp
      from False pos show ?thesis
        unfolding mark_oldest.simps Cons.IH [OF d] f
        by (simp add: alreadyMarked_iff k del: mark_oldest.simps)
    qed
  qed
qed

lemma cleanup_collect_eq:
  "cleanup_collect json_Unmarshal time_Parse fs dir files entries =
   files @ snapshot_files json_Unmarshal time_Parse fs dir entries"
proof (induction entries arbitrary: files)
  case Nil
  then show ?case by (simp add: snapshot_files_def List.map_filter_simps)
next
  case (Cons entry rest)
  show ?case
    by (simp add: Cons.IH snapshot_files_def List.map_filter_simps snapshot_file_def
        effective_time_def parseFile_def FromJSON_def ParseTimestamp_def Let_def
        split: sum.splits)
qed

lemma retention_marks_eq:
  assumes "distinct (map path files)"
  shows "retention_marks m now files =
    age_marks m now files @ count_marks m (age_marks m now files) files"
  using assms
  by (simp add: retention_marks_def age_marks_def count_marks_def mark_older_eq mark_oldest_eq
      Let_def)

lemma path_inj_filepath_Join: "filepath_Join dir a = filepath_Join dir b \<Longrightarrow> a = b"
  by (simp add: filepath_Join_def)

lemma snapshot_files_paths:
  "map path (snapshot_files json_Unmarshal time_Parse fs dir entries) =
   map (filepath_Join dir)
     (map Name (filter (\<lambda>e. snapshot_file json_Unmarshal time_Parse fs dir e \<noteq> None) entries))"
  by (induction entries)
    (auto simp: snapshot_files_def List.map_filter_simps snapshot_file_def split: sum.splits)

lemma snapshot_files_distinct:
  assumes "distinct (map Name entries)"
  shows "distinct (map path (snapshot_files json_Unmarshal time_Parse fs dir entries))"
proof -
  have "distinct (map Name (filter (\<lambda>e. snapshot_file json_Unmarshal time_Parse fs dir e \<noteq> None) entries))"
    using assms by (rule distinct_map_filter)
  then show ?thesis
    unfolding snapshot_files_paths
    by (simp add: distinct_map inj_on_def filepath_Join_def)
qed

lemma filter_not_in_take:
  "distinct (map g xs) \<Longrightarrow> filter (\<lambda>x. g x \<notin> set (take k (map g xs))) xs = drop k xs"
proof (induction xs arbitrary: k)
  case Nil
  then show ?case by simp
next
  case (Cons x xs)
  show ?case
  proof (cases k)
    case 0
    then show ?thesis by simp
  next
    case (Suc k')
    from Cons.prems have d: "distinct (map g xs)" and n: "g x \<notin> g ` set xs"
      by auto
    have "filter (\<lambda>y. g y \<notin> set (take (Suc k') (map g (x # xs)))) xs =
          filter (\<lambda>y. g y \<notin> set (take k' (map g xs))) xs"
    proof (rule filter_cong [OF refl])
      fix y assume "y \<in> set xs"
      with n have "g y \<noteq> g x" by (metis imageI)
      then show "(g y \<notin> set (take (Suc k') (map g (x # xs)))) =
                 (g y \<notin> set (take k' (map g xs)))"
        by simp
    qed
    with Cons.IH [OF d, of k'] show ?thesis
      by (simp add: Suc)
  qed
qed

lemma sorted_wrt_take_drop:
  assumes "sorted_wrt P xs" "a \<in> set (take k xs)" "b \<in> set (drop k xs)"
  shows "P a b"
proof -
  from assms(1) have "sorted_wrt P (take k xs @ drop k xs)" by simp
  with assms(2,3) show ?thesis
    unfolding sorted_wrt_append by blast
qed

lemma oldest_removed:
  assumes d: "distinct (map path ordered)"
    and s: "sorted_wrt (\<lambda>a b. timestamp a \<le> timestamp b) ordered"
    and ms: "mset ordered = mset files"
  shows "length (filter (\<lambda>f. path f \<notin> set (take k (map path ordered))) files) =
           length files - k"
    and "\<forall>s\<in>set files. \<forall>r\<in>set files.
           path s \<notin> set (take k (map path ordered)) \<and>
           path r \<in> set (take k (map path ordered)) \<longrightarrow> timestamp r \<le> timestamp s"
    and "set (take k (map path ordered)) \<subseteq> path ` set files"
proof -
  let ?P = "\<lambda>f. path f \<notin> set (take k (map path ordered))"
  have set_eq: "set ordered = set files"
    using ms by (rule mset_eq_setD)
  have len: "length ordered = length files"
    using ms by (rule mset_eq_length)
  have "mset (filter ?P files) = mset (filter ?P ordered)"
    using ms by simp
  then have "length (filter ?P files) = length (filter ?P ordered)"
    by (rule mset_eq_length)
  also have "filter ?P ordered = drop k ordered"
    using d by (rule filter_not_in_take)
  finally show "length (filter ?P files) = length files - k"
    by (simp add: len)
  have inj: "inj_on path (set ordered)"
    using d by (simp add: distinct_map)
  show "\<forall>s\<in>set files. \<forall>r\<in>set files.
           path s \<notin> set (take k (map path ordered)) \<and>
           path r \<in> set (take k (map path ordered)) \<longrightarrow> timestamp r \<le> timestamp s"
  proof (intro ballI impI)
    fix a r assume a: "a \<in> set files" and r: "r \<in> set files"
      and pr: "path a \<notin> set (take k (map path ordered)) \<and>
           path r \<in> set (take k (map path ordered))"
    from pr have "path r \<in> path ` set (take k ordered)"
      by (simp add: take_map)
    then obtain r' where r': "r' \<in> set (take k ordered)" "path r' = path r"
      by force
    with inj r set_eq have "r' = r"
      by (metis in_set_takeD inj_onD)
    with r' have rin: "r \<in> set (take k ordered)" by simp
    from pr have "a \<notin> set (take k ordered)"
      by (auto simp: take_map)
    moreover from a set_eq have "a \<in> set (take k ordered @ drop k ordered)" by simp
    ultimately have ain: "a \<in> set (drop k ordered)"
      unfolding set_append by blast
    from s rin ain show "timestamp r \<le> timestamp a"
      by (rule sorted_wrt_take_drop)
  qed
  show "set (take k (map path ordered)) \<subseteq> path ` set files"
    using set_eq by (metis set_map set_take_subset)
qed

lemma cleanup_sorted:
  assumes spec: "sort_Slice_spec sort_Slice"
    and dir: "os_ReadDir fs (baseDir m) = Inr entries"
    and names: "distinct (map Name entries)"
  shows "\<exists>ordered.
    mset ordered = mset (snapshot_files json_Unmarshal time_Parse fs (baseDir m) entries) \<and>
    sorted_wrt (\<lambda>a b. timestamp a \<le> timestamp b) ordered \<and>
    distinct (map path ordered) \<and>
    ManagedFileStorage_cleanup sort_Slice json_Unmarshal time_Parse fs now m =
      Inr (age_marks m now ordered @ count_marks m (age_marks m now ordered) ordered)"
proof -
  let ?files = "snapshot_files json_Unmarshal time_Parse fs (baseDir m) entries"
  let ?lt = "\<lambda>fi fj. timestamp fi < timestamp fj"
  let ?ordered = "sort_Slice ?lt ?files"
  have ms: "mset ?ordered = mset ?files"
    using spec by (simp add: sort_Slice_spec_def)
  have "strict_weak_order ?lt"
    by (rule strict_weak_order_key)
  then have "sorted_wrt (\<lambda>a b. \<not> timestamp b < timestamp a) ?ordered"
    using spec unfolding sort_Slice_spec_def by blast
  then have srt: "sorted_wrt (\<lambda>a b. timestamp a \<le> timestamp b) ?ordered"
    by (simp add: not_less)
  have "distinct (map path ?files)"
    using names by (rule snapshot_files_distinct)
  moreover have "mset (map path ?ordered) = mset (map path ?files)"
    using ms by simp
  ultimately have d: "distinct (map path ?ordered)"
    by (metis mset_eq_imp_distinct_iff)
  have "ManagedFileStorage_cleanup sort_Slice json_Unmarshal time_Parse fs now m =
      Inr (retention_marks m now ?ordered)"
    using dir by (simp add: ManagedFileStorage_cleanup_def cleanup_collect_eq Let_def)
  with retention_marks_eq [OF d] ms srt d show ?thesis
    by (intro exI [of _ ?ordered]) simp
qed

text \<open>
  Claim C4. One reclamation cycle of a managed file storage with a cap of \<open>maxFiles\<close>
  files and no age limit, over the snapshot files of the listing: the files that are not
  removed are at most \<open>maxFiles\<close>, they are as many as the cap allows, and no removed
  file has a later effective timestamp than a file that stays. With or without an age
  limit the removed paths are the age marks followed by the count marks, and the count
  marks are taken, oldest first, among the files that the age marks left, up to the
  excess of the remaining number over the cap. A cap is configured when \<open>maxFiles\<close> is
  positive; a file whose \<open>Info\<close> fails is neither counted nor removed.
\<close>

theorem C4_cleanup_keeps_most_recent:
  assumes spec: "sort_Slice_spec sort_Slice"
    and dir: "os_ReadDir fs (baseDir m) = Inr entries"
    and names: "distinct (map Name entries)"
  shows
  "(maxAge m \<le> 0 \<and> 0 < maxFiles m \<longrightarrow>
      (\<exists>removed.
         ManagedFileStorage_cleanup sort_Slice json_Unmarshal time_Parse fs now m = Inr removed \<and>
         int (length (filter (\<lambda>f. path f \<notin> set removed) (snapshot_files json_Unmarshal time_Parse fs (baseDir m) entries))) \<le> maxFiles m \<and>
         length (filter (\<lambda>f. path f \<notin> set removed) (snapshot_files json_Unmarshal time_Parse fs (baseDir m) entries)) =
           min (length (snapshot_files json_Unmarshal time_Parse fs (baseDir m) entries)) (nat (maxFiles m)) \<and>
         (\<forall>s\<in>set (snapshot_files json_Unmarshal time_Parse fs (baseDir m) entries). \<forall>r\<in>set (snapshot_files json_Unmarshal time_Parse fs (baseDir m) entries).
            path s \<notin> set removed \<and> path r \<in> set removed \<longrightarrow> timestamp r \<le> timestamp s) \<and>
         set removed \<subseteq> path ` set (snapshot_files json_Unmarshal time_Parse fs (baseDir m) entries))) \<and>
   (\<exists>ordered.
      mset ordered = mset (snapshot_files json_Unmarshal time_Parse fs (baseDir m) entries) \<and>
      sorted_wrt (\<lambda>a b. timestamp a \<le> timestamp b) ordered \<and>
      ManagedFileStorage_cleanup sort_Slice json_Unmarshal time_Parse fs now m =
        Inr (age_marks m now ordered @ count_marks m (age_marks m now ordered) ordered))"
proof (intro conjI impI)
  assume a: "maxAge m \<le> 0 \<and> 0 < maxFiles m"
  from cleanup_sorted [OF spec dir names, of json_Unmarshal time_Parse now]
  obtain ordered where
    ms: "mset ordered = mset (snapshot_files json_Unmarshal time_Parse fs (baseDir m) entries)"
    and srt: "sorted_wrt (\<lambda>a b. timestamp a \<le> timestamp b) ordered"
    and d: "distinct (map path ordered)"
    and cl: "ManagedFileStorage_cleanup sort_Slice json_Unmarshal time_Parse fs now m =
      Inr (age_marks m now ordered @ count_marks m (age_marks m now ordered) ordered)"
    by blast
  define k where "k = nat (int (length ordered) - maxFiles m)"
  have len: "length ordered = length (snapshot_files json_Unmarshal time_Parse fs (baseDir m) entries)"
    using ms by (rule mset_eq_length)
  have age: "age_marks m now ordered = []"
    using a by (simp add: age_marks_def)
  have cnt: "count_marks m [] ordered = take k (map path ordered)"
    using a by (simp add: count_marks_def k_def)
  have eq: "ManagedFileStorage_cleanup sort_Slice json_Unmarshal time_Parse fs now m = Inr (take k (map path ordered))"
    using cl by (simp add: age cnt)
  note facts = oldest_removed [OF d srt ms, of k]
  have l: "length (snapshot_files json_Unmarshal time_Parse fs (baseDir m) entries) - k = min (length (snapshot_files json_Unmarshal time_Parse fs (baseDir m) entries)) (nat (maxFiles m))"
    using a by (auto simp: k_def len min_def)
  have le: "int (length (snapshot_files json_Unmarshal time_Parse fs (baseDir m) entries) - k) \<le> maxFiles m"
    using a by (auto simp: k_def len)
  show "(\<exists>removed.
           ManagedFileStorage_cleanup sort_Slice json_Unmarshal time_Parse fs now m = Inr removed \<and>
           int (length (filter (\<lambda>f. path f \<notin> set removed) (snapshot_files json_Unmarshal time_Parse fs (baseDir m) entries))) \<le> maxFiles m \<and>
           length (filter (\<lambda>f. path f \<notin> set removed) (snapshot_files json_Unmarshal time_Parse fs (baseDir m) entries)) =
             min (length (snapshot_files json_Unmarshal time_Parse fs (baseDir m) entries)) (nat (maxFiles m)) \<and>
           (\<forall>s\<in>set (snapshot_files json_Unmarshal time_Parse fs (baseDir m) entries). \<forall>r\<in>set (snapshot_files json_Unmarshal time_Parse fs (baseDir m) entries).
              path s \<notin> set removed \<and> path r \<in> set removed \<longrightarrow> timestamp r \<le> timestamp s) \<and>
           set removed \<subseteq> path ` set (snapshot_files json_Unmarshal time_Parse fs (baseDir m) entries))"
    using eq facts l le by (intro exI [of _ "take k (map path ordered)"]) simp
next
  from cleanup_sorted [OF spec dir names, of json_Unmarshal time_Parse now]
  show "(\<exists>ordered.
        mset ordered = mset (snapshot_files json_Unmarshal time_Parse fs (baseDir m) entries) \<and>
        sorted_wrt (\<lambda>a b. timestamp a \<le> timestamp b) ordered \<and>
        ManagedFileStorage_cleanup sort_Slice json_Unmarshal time_Parse fs now m =
          Inr (age_marks m now ordered @ count_marks m (age_marks m now ordered) ordered))"
    by blast
qed

theorem C4_cleanup_keeps_most_recent_witness:
  "(sort_Slice_spec (insertionSort :: (fileInfo \<Rightarrow> fileInfo \<Rightarrow> bool) \<Rightarrow> fileInfo list \<Rightarrow> fileInfo list)) \<and>
   (os_ReadDir example_fs (baseDir \<lparr>baseDir = ''snapshots'', maxFiles = 2, maxAge = 0\<rparr>) = Inr example_entries) \<and>
   (distinct (map Name example_entries)) \<and>
   (maxAge \<lparr>baseDir = ''snapshots'', maxFiles = 2, maxAge = 0\<rparr> \<le> 0 \<and> 0 < maxFiles \<lparr>baseDir = ''snapshots'', maxFiles = 2, maxAge = 0\<rparr>) \<and>
   ((\<exists>removed.
         ManagedFileStorage_cleanup insertionSort (json_Unmarshal_table example_json) (time_Parse_table example_times) example_fs 1704067204000000000 \<lparr>baseDir = ''snapshots'', maxFiles = 2, maxAge = 0\<rparr> = Inr removed \<and>
         int (length (filter (\<lambda>f. path f \<notin> set removed) (snapshot_files (json_Unmarshal_table example_json) (time_Parse_table example_times) example_fs (baseDir \<lparr>baseDir = ''snapshots'', maxFiles = 2, maxAge = 0\<rparr>) example_entries))) \<le> maxFiles \<lparr>baseDir = ''snapshots'', maxFiles = 2, maxAge = 0\<rparr> \<and>
         length (filter (\<lambda>f. path f \<notin> set removed) (snapshot_files (json_Unmarshal_table example_json) (time_Parse_table example_times) example_fs (baseDir \<lparr>baseDir = ''snapshots'', maxFiles = 2, maxAge = 0\<rparr>) example_entries)) =
           min (length (snapshot_files (json_Unmarshal_table example_json) (time_Parse_table example_times) example_fs (baseDir \<lparr>baseDir = ''snapshots'', maxFiles = 2, maxAge = 0\<rparr>) example_entries)) (nat (maxFiles \<lparr>baseDir = ''snapshots'', maxFiles = 2, maxAge = 0\<rparr>)) \<and>
         (\<forall>s\<in>set (snapshot_files (json_Unmarshal_table example_json) (time_Parse_table example_times) example_fs (baseDir \<lparr>baseDir = ''snapshots'', maxFiles = 2, maxAge = 0\<rparr>) example_entries). \<forall>r\<in>set (snapshot_files (json_Unmarshal_table example_json) (time_Parse_table example_times) example_fs (baseDir \<lparr>baseDir = ''snapshots'', maxFiles = 2, maxAge = 0\<rparr>) example_entries).
            path s \<notin> set removed \<and> path r \<in> set removed \<longrightarrow> timestamp r \<le> timestamp s) \<and>
         set removed \<subseteq> path ` set (snapshot_files (json_Unmarshal_table example_json) (time_Parse_table example_times) example_fs (baseDir \<lparr>baseDir = ''snapshots'', maxFiles = 2, maxAge = 0\<rparr>) example_entries))) \<and>
   ((\<exists>ordered.
      mset ordered = mset (snapshot_files (json_Unmarshal_table example_json) (time_Parse_table example_times) example_fs (baseDir \<lparr>baseDir = ''snapshots'', maxFiles = 2, maxAge = 0\<rparr>) example_entries) \<and>
      sorted_wrt (\<lambda>a b. timestamp a \<le> timestamp b) ordered \<and>
      ManagedFileStorage_cleanup insertionSort (json_Unmarshal_table example_json) (time_Parse_table example_times) example_fs 1704067204000000000 \<lparr>baseDir = ''snapshots'', maxFiles = 2, maxAge = 0\<rparr> =
        Inr (age_marks \<lparr>baseDir = ''snapshots'', maxFiles = 2, maxAge = 0\<rparr> 1704067204000000000 ordered @ count_marks \<lparr>baseDir = ''snapshots'', maxFiles = 2, maxAge = 0\<rparr> (age_marks \<lparr>baseDir = ''snapshots'', maxFiles = 2, maxAge = 0\<rparr> 1704067204000000000 ordered) ordered))) \<and>
   (ManagedFileStorage_cleanup insertionSort (json_Unmarshal_table example_json) (time_Parse_table example_times) example_fs 1704067204000000000 \<lparr>baseDir = ''snapshots'', maxFiles = 2, maxAge = 0\<rparr> =
     Inr [''snapshots/2024-01-01T00-00-01.000000000Z.json'',
          ''snapshots/2024-01-01T00-00-02.000000000Z.json''])"
proof -
  have spec: "sort_Slice_spec (insertionSort :: (fileInfo \<Rightarrow> fileInfo \<Rightarrow> bool) \<Rightarrow> fileInfo list \<Rightarrow> fileInfo list)"
    by (rule insertionSort_spec)
  have dir: "os_ReadDir example_fs (baseDir \<lparr>baseDir = ''snapshots'', maxFiles = 2, maxAge = 0\<rparr>) = Inr example_entries"
    by (simp add: example_fs_def)
  have names: "distinct (map Name example_entries)"
    by (simp add: example_entries_def)
  note inst = C4_cleanup_keeps_most_recent [where sort_Slice = "insertionSort"
      and time_Parse = "time_Parse_table example_times"
      and json_Unmarshal = "json_Unmarshal_table example_json"
      and fs = "example_fs"
      and m = "\<lparr>baseDir = ''snapshots'', maxFiles = 2, maxAge = 0\<rparr>"
      and entries = "example_entries"
      and now = "1704067204000000000", OF spec dir names]
  have h1: "maxAge \<lparr>baseDir = ''snapshots'', maxFiles = 2, maxAge = 0\<rparr> \<le> 0 \<and> 0 < maxFiles \<lparr>baseDir = ''snapshots'', maxFiles = 2, maxAge = 0\<rparr>"
    by simp
  note c1 = inst [THEN conjunct1, THEN mp, OF h1]
  note c2 = inst [THEN conjunct2]
  have x1: "ManagedFileStorage_cleanup insertionSort (json_Unmarshal_table example_json) (time_Parse_table example_times) example_fs 1704067204000000000 \<lparr>baseDir = ''snapshots'', maxFiles = 2, maxAge = 0\<rparr> =
     Inr [''snapshots/2024-01-01T00-00-01.000000000Z.json'',
          ''snapshots/2024-01-01T00-00-02.000000000Z.json'']"
    by (simp add: ManagedFileStorage_cleanup_def example_fs_def example_entries_def
        filepath_Ext_def filepath_Join_def parseFile_def example_files_def FromJSON_def
        json_Unmarshal_table_def example_json_def ParseTimestamp_def time_Parse_table_def
        example_times_def example_value_def insertionSort_def retention_marks_def)
  show ?thesis
    by (intro conjI [OF spec] conjI [OF dir] conjI [OF names] conjI [OF h1] conjI [OF c1] conjI [OF c2] x1)
qed

section \<open>Retention of CloudObjectStorage\<close>

lemma client_answers_append:
  "client_answers cl hist (xs @ ys) \<longleftrightarrow>
   client_answers cl hist xs \<and> client_answers cl (hist @ xs) ys"
  by (induction xs arbitrary: hist) auto

lemma shouldDeleteObject_eq:
  "shouldDeleteObject json_Unmarshal time_Parse c hist key cutoff = (r, hist') \<Longrightarrow>
   hist' = hist @ [Got (bucket c) key (GetObject (client c) hist (bucket c) key)] \<and>
   (r = Inr True \<longleftrightarrow>
      deletable json_Unmarshal time_Parse cutoff (GetObject (client c) hist (bucket c) key))"
  by (auto simp: shouldDeleteObject_def deletable_def FromJSON_def ParseTimestamp_def Let_def
      split: sum.splits)

lemma cleanup_objects_segments:
  "\<exists>segments.
     cleanup_objects json_Unmarshal time_Parse c hist cutoff keys = hist @ concat segments \<and>
     list_all2 (pass_segment json_Unmarshal time_Parse (bucket c) cutoff) keys segments \<and>
     client_answers (client c) hist (concat segments)"
proof (induction keys arbitrary: hist)
  case Nil
  show ?case by (intro exI [of _ "[]"]) simp
next
  case (Cons key rest)
  let ?got = "GetObject (client c) hist (bucket c) key"
  let ?h1 = "hist @ [Got (bucket c) key ?got]"
  obtain r hist' where sd: "shouldDeleteObject json_Unmarshal time_Parse c hist key cutoff = (r, hist')"
    by (cases "shouldDeleteObject json_Unmarshal time_Parse c hist key cutoff")
  from shouldDeleteObject_eq [OF sd] have h': "hist' = ?h1"
    and r: "r = Inr True \<longleftrightarrow> deletable json_Unmarshal time_Parse cutoff ?got"
    by auto
  show ?case
  proof (cases "deletable json_Unmarshal time_Parse cutoff ?got")
    case True
    let ?seg = "[Got (bucket c) key ?got,
                 Deleted (bucket c) key (DeleteObject (client c) ?h1 (bucket c) key)]"
    from Cons.IH [of "hist @ ?seg"] obtain segments where
      eq: "cleanup_objects json_Unmarshal time_Parse c (hist @ ?seg) cutoff rest =
             (hist @ ?seg) @ concat segments"
      and all: "list_all2 (pass_segment json_Unmarshal time_Parse (bucket c) cutoff) rest segments"
      and ans: "client_answers (client c) (hist @ ?seg) (concat segments)"
      by blast
    have "cleanup_objects json_Unmarshal time_Parse c hist cutoff (key # rest) =
            hist @ concat (?seg # segments)"
      using sd True r h' eq by (simp add: Let_def)
    moreover have "list_all2 (pass_segment json_Unmarshal time_Parse (bucket c) cutoff)
            (key # rest) (?seg # segments)"
      using all True by simp
    moreover have "client_answers (client c) hist (concat (?seg # segments))"
      using ans by (simp add: client_answers_append)
    ultimately show ?thesis by blast
  next
    case False
    let ?seg = "[Got (bucket c) key ?got]"
    from Cons.IH [of "hist @ ?seg"] obtain segments where
      eq: "cleanup_objects json_Unmarshal time_Parse c (hist @ ?seg) cutoff rest =
             (hist @ ?seg) @ concat segments"
      and all: "list_all2 (pass_segment json_Unmarshal time_Parse (bucket c) cutoff) rest segments"
      and ans: "client_answers (client c) (hist @ ?seg) (concat segments)"
      by blast
    from False r have "r \<noteq> Inr True" by simp
    then have "cleanup_objects json_Unmarshal time_Parse c hist cutoff (key # rest) =
            cleanup_objects json_Unmarshal time_Parse c hist' cutoff rest"
      using sd by (cases r; cases "projr r") (auto simp: Let_def)
    then have "cleanup_objects json_Unmarshal time_Parse c hist cutoff (key # rest) =
            hist @ concat (?seg # segments)"
      using h' eq by simp
    moreover have "list_all2 (pass_segment json_Unmarshal time_Parse (bucket c) cutoff)
            (key # rest) (?seg # segments)"
      using all False by simp
    moreover have "client_answers (client c) hist (concat (?seg # segments))"
      using ans by (simp add: client_answers_append)
    ultimately show ?thesis by blast
  qed
qed

lemma Duration_neg_in_range:
  assumes "- (2 ^ 63) < d" and "d < 2 ^ 63"
  shows "Duration_neg d = - d"
proof -
  have "sint (word_of_int (- d) :: 64 word) = - d"
    unfolding sint_sbintrunc' using assms
    by (intro signed_take_bit_int_eq_self) simp_all
  then show ?thesis by (simp add: Duration_neg_def)
qed

lemma Duration_neg_MinInt64: "Duration_neg (- 9223372036854775808) = - 9223372036854775808"
  by (simp add: Duration_neg_def)

text \<open>
  Claim C8. One cleanup pass of the object storage with an age limit, after a listing
  that succeeded: the pass returns no error, and its calls are, key by key in the order
  of the listing, one fetch, followed by one delete exactly when the fetch succeeded, the
  payload decoded, the timestamp parsed and the instant is before the cutoff. A fetch
  that fails leaves its object in place and the pass goes on with the next key; so does
  it after a delete, whatever the delete answers. The cutoff is \<open>now.Add(-maxAge)\<close>: it
  is \<open>now - maxAge\<close> for every age limit but the least \<open>int64\<close>, whose negation wraps.
\<close>

theorem C8_cleanup_pass:
  assumes age: "cos_maxAge c \<noteq> 0"
    and ls: "ListObjects (client c) hist (bucket c) (cos_prefix c) = Inr keys"
  shows
  "(\<exists>segments.
      CloudObjectStorage_cleanup json_Unmarshal time_Parse c now hist =
        (None, hist @ [Listed (bucket c) (cos_prefix c) (Inr keys)] @ concat segments) \<and>
      list_all2 (pass_segment json_Unmarshal time_Parse (bucket c)
          (now + Duration_neg (cos_maxAge c)))
        keys segments \<and>
      client_answers (client c) (hist @ [Listed (bucket c) (cos_prefix c) (Inr keys)]) (concat segments)) \<and>
   (- (2 ^ 63) < cos_maxAge c \<and> cos_maxAge c < 2 ^ 63 \<longrightarrow>
      now + Duration_neg (cos_maxAge c) = now - cos_maxAge c)"
proof (intro conjI impI)
  from cleanup_objects_segments
    [of json_Unmarshal time_Parse c "hist @ [Listed (bucket c) (cos_prefix c) (Inr keys)]" "now + Duration_neg (cos_maxAge c)" keys]
  obtain segments where
    eq: "cleanup_objects json_Unmarshal time_Parse c (hist @ [Listed (bucket c) (cos_prefix c) (Inr keys)]) (now + Duration_neg (cos_maxAge c)) keys =
           (hist @ [Listed (bucket c) (cos_prefix c) (Inr keys)]) @ concat segments"
    and all: "list_all2 (pass_segment json_Unmarshal time_Parse (bucket c) (now + Duration_neg (cos_maxAge c)))
           keys segments"
    and ans: "client_answers (client c) (hist @ [Listed (bucket c) (cos_prefix c) (Inr keys)]) (concat segments)"
    by blast
  have "CloudObjectStorage_cleanup json_Unmarshal time_Parse c now hist =
      (None, hist @ [Listed (bucket c) (cos_prefix c) (Inr keys)] @ concat segments)"
    using age ls eq by (simp add: CloudObjectStorage_cleanup_def Let_def)
  with all ans show "(\<exists>segments.
        CloudObjectStorage_cleanup json_Unmarshal time_Parse c now hist =
          (None, hist @ [Listed (bucket c) (cos_prefix c) (Inr keys)] @ concat segments) \<and>
        list_all2 (pass_segment json_Unmarshal time_Parse (bucket c)
            (now + Duration_neg (cos_maxAge c)))
          keys segments \<and>
        client_answers (client c) (hist @ [Listed (bucket c) (cos_prefix c) (Inr keys)]) (concat segments))"
    by blast
next
  assume a: "- (2 ^ 63) < cos_maxAge c \<and> cos_maxAge c < 2 ^ 63"
  from a show "now + Duration_neg (cos_maxAge c) = now - cos_maxAge c"
    by (simp add: Duration_neg_in_range)
qed

text \<open>
  Five listed keys, three seconds after the first snapshot, with an age limit of half a
  second: the snapshots of seconds 1 and 2 are deleted (the first delete is refused),
  the others are fetched only. With the least \<open>int64\<close> as age limit the cutoff lies
  292 years before \<open>now\<close> and nothing is deleted.
\<close>

theorem C8_cleanup_pass_witness:
  "(cos_maxAge (example_cos 500000000) \<noteq> 0) \<and>
   (ListObjects (client (example_cos 500000000)) [] (bucket (example_cos 500000000)) (cos_prefix (example_cos 500000000)) = Inr (map fst example_objects @ [''snapshots/gone.json''])) \<and>
   ((\<exists>segments.
      CloudObjectStorage_cleanup (json_Unmarshal_table example_json) (time_Parse_table example_times) (example_cos 500000000) 1704067203000000000 [] =
        (None, [] @ [Listed (bucket (example_cos 500000000)) (cos_prefix (example_cos 500000000)) (Inr (map fst example_objects @ [''snapshots/gone.json'']))] @ concat segments) \<and>
      list_all2 (pass_segment (json_Unmarshal_table example_json) (time_Parse_table example_times) (bucket (example_cos 500000000))
          (1704067203000000000 + Duration_neg (cos_maxAge (example_cos 500000000))))
        (map fst example_objects @ [''snapshots/gone.json'']) segments \<and>
      client_answers (client (example_cos 500000000)) ([] @ [Listed (bucket (example_cos 500000000)) (cos_prefix (example_cos 500000000)) (Inr (map fst example_objects @ [''snapshots/gone.json'']))]) (concat segments))) \<and>
   (- (2 ^ 63) < cos_maxAge (example_cos 500000000) \<and> cos_maxAge (example_cos 500000000) < 2 ^ 63) \<and>
   (1704067203000000000 + Duration_neg (cos_maxAge (example_cos 500000000)) = 1704067203000000000 - cos_maxAge (example_cos 500000000)) \<and>
   (CloudObjectStorage_cleanup (json_Unmarshal_table example_json) (time_Parse_table example_times) (example_cos 500000000) 1704067203000000000 [] =
     (None,
      [Listed ''metrics'' ''snapshots/''
         (Inr [''snapshots/2024-01-01T00-00-01.000000000Z.json'', ''snapshots/2024-01-01T00-00-02.000000000Z.json'', ''snapshots/2024-01-01T00-00-03.000000000Z.json'', ''snapshots/broken.json'', ''snapshots/gone.json'']),
       Got ''metrics'' ''snapshots/2024-01-01T00-00-01.000000000Z.json'' (Inr ''{timestamp:2024-01-01T00:00:01Z}''),
       Deleted ''metrics'' ''snapshots/2024-01-01T00-00-01.000000000Z.json'' (Some (External ''AccessDenied'')),
       Got ''metrics'' ''snapshots/2024-01-01T00-00-02.000000000Z.json'' (Inr ''{timestamp:2024-01-01T00:00:02Z}''),
       Deleted ''metrics'' ''snapshots/2024-01-01T00-00-02.000000000Z.json'' None,
       Got ''metrics'' ''snapshots/2024-01-01T00-00-03.000000000Z.json'' (Inr ''{timestamp:2024-01-01T00:00:03Z}''),
       Got ''metrics'' ''snapshots/broken.json'' (Inr ''not json''),
       Got ''metrics'' ''snapshots/gone.json'' (Inl (External ''NoSuchKey''))])) \<and>
   (Duration_neg (- 9223372036854775808) = - 9223372036854775808) \<and>
   (CloudObjectStorage_cleanup (json_Unmarshal_table example_json) (time_Parse_table example_times) (example_cos (- 9223372036854775808)) 1704067203000000000 [] =
     (None,
      [Listed ''metrics'' ''snapshots/''
         (Inr [''snapshots/2024-01-01T00-00-01.000000000Z.json'', ''snapshots/2024-01-01T00-00-02.000000000Z.json'', ''snapshots/2024-01-01T00-00-03.000000000Z.json'', ''snapshots/broken.json'', ''snapshots/gone.json'']),
       Got ''metrics'' ''snapshots/2024-01-01T00-00-01.000000000Z.json'' (Inr ''{timestamp:2024-01-01T00:00:01Z}''),
       Got ''metrics'' ''snapshots/2024-01-01T00-00-02.000000000Z.json'' (Inr ''{timestamp:2024-01-01T00:00:02Z}''),
       Got ''metrics'' ''snapshots/2024-01-01T00-00-03.000000000Z.json'' (Inr ''{timestamp:2024-01-01T00:00:03Z}''),
       Got ''metrics'' ''snapshots/broken.json'' (Inr ''not json''),
       Got ''metrics'' ''snapshots/gone.json'' (Inl (External ''NoSuchKey''))]))"
proof -
  have age: "cos_maxAge (example_cos 500000000) \<noteq> 0"
    by (simp add: example_cos_def)
  have ls: "ListObjects (client (example_cos 500000000)) [] (bucket (example_cos 500000000)) (cos_prefix (example_cos 500000000)) = Inr (map fst example_objects @ [''snapshots/gone.json''])"
    by (simp add: example_cos_def example_client_def)
  note inst = C8_cleanup_pass [where time_Parse = "time_Parse_table example_times"
      and json_Unmarshal = "json_Unmarshal_table example_json"
      and c = "example_cos 500000000"
      and hist = "[]"
      and keys = "map fst example_objects @ [''snapshots/gone.json'']"
      and now = "1704067203000000000", OF age ls]
  note c1 = inst [THEN conjunct1]
  have h2: "- (2 ^ 63) < cos_maxAge (example_cos 500000000) \<and> cos_maxAge (example_cos 500000000) < 2 ^ 63"
    by (simp add: example_cos_def)
  note c2 = inst [THEN conjunct2, THEN mp, OF h2]
  have x1: "CloudObjectStorage_cleanup (json_Unmarshal_table example_json) (time_Parse_table example_times) (example_cos 500000000) 1704067203000000000 [] =
     (None,
      [Listed ''metrics'' ''snapshots/''
         (Inr [''snapshots/2024-01-01T00-00-01.000000000Z.json'', ''snapshots/2024-01-01T00-00-02.000000000Z.json'', ''snapshots/2024-01-01T00-00-03.000000000Z.json'', ''snapshots/broken.json'', ''snapshots/gone.json'']),
       Got ''metrics'' ''snapshots/2024-01-01T00-00-01.000000000Z.json'' (Inr ''{timestamp:2024-01-01T00:00:01Z}''),
       Deleted ''metrics'' ''snapshots/2024-01-01T00-00-01.000000000Z.json'' (Some (External ''AccessDenied'')),
       Got ''metrics'' ''snapshots/2024-01-01T00-00-02.000000000Z.json'' (Inr ''{timestamp:2024-01-01T00:00:02Z}''),
       Deleted ''metrics'' ''snapshots/2024-01-01T00-00-02.000000000Z.json'' None,
       Got ''metrics'' ''snapshots/2024-01-01T00-00-03.000000000Z.json'' (Inr ''{timestamp:2024-01-01T00:00:03Z}''),
       Got ''metrics'' ''snapshots/broken.json'' (Inr ''not json''),
       Got ''metrics'' ''snapshots/gone.json'' (Inl (External ''NoSuchKey''))])"
    by (simp add: CloudObjectStorage_cleanup_def example_cos_def example_client_def
        example_objects_def shouldDeleteObject_def FromJSON_def json_Unmarshal_table_def
        example_json_def ParseTimestamp_def time_Parse_table_def example_times_def
        example_value_def Duration_neg_in_range)
  have x2: "Duration_neg (- 9223372036854775808) = - 9223372036854775808"
    by (rule Duration_neg_MinInt64)
  have x3: "CloudObjectStorage_cleanup (json_Unmarshal_table example_json) (time_Parse_table example_times) (example_cos (- 9223372036854775808)) 1704067203000000000 [] =
     (None,
      [Listed ''metrics'' ''snapshots/''
         (Inr [''snapshots/2024-01-01T00-00-01.000000000Z.json'', ''snapshots/2024-01-01T00-00-02.000000000Z.json'', ''snapshots/2024-01-01T00-00-03.000000000Z.json'', ''snapshots/broken.json'', ''snapshots/gone.json'']),
       Got ''metrics'' ''snapshots/2024-01-01T00-00-01.000000000Z.json'' (Inr ''{timestamp:2024-01-01T00:00:01Z}''),
       Got ''metrics'' ''snapshots/2024-01-01T00-00-02.000000000Z.json'' (Inr ''{timestamp:2024-01-01T00:00:02Z}''),
       Got ''metrics'' ''snapshots/2024-01-01T00-00-03.000000000Z.json'' (Inr ''{timestamp:2024-01-01T00:00:03Z}''),
       Got ''metrics'' ''snapshots/broken.json'' (Inr ''not json''),
       Got ''metrics'' ''snapshots/gone.json'' (Inl (External ''NoSuchKey''))])"
    by (simp add: CloudObjectStorage_cleanup_def example_cos_def example_client_def
        example_objects_def shouldDeleteObject_def FromJSON_def json_Unmarshal_table_def
        example_json_def ParseTimestamp_def time_Parse_table_def example_times_def
        example_value_def Duration_neg_MinInt64)
  show ?thesis
    by (intro conjI [OF age] conjI [OF ls] conjI [OF c1] conjI [OF h2] conjI [OF c2] conjI [OF x1] conjI [OF x2] x3)
qed

section \<open>StoreBatch of DatabaseStorage\<close>

text \<open>
  The loop of \<open>StoreBatch\<close> over a batch without nil pointers performs the inserts of the
  rows that the batch yields, one after the other, until the database refuses one.
\<close>

lemma inserts_until_failure_Cons:
  "inserts_until_failure db hist ((ts, data) # rows) =
   (case stmt_ExecContext db hist ts data of
      Some e \<Rightarrow> ([StmtExecContext ts data (Some e)], Some e)
    | None \<Rightarrow>
        (StmtExecContext ts data None #
           fst (inserts_until_failure db (hist @ [StmtExecContext ts data None]) rows),
         snd (inserts_until_failure db (hist @ [StmtExecContext ts data None]) rows)))"
  by (simp add: Let_def case_prod_beta split: option.splits)

lemma StoreBatch_inserts_eq:
  "StoreBatch_inserts time_Parse json_Marshal db hist (map Some batch) =
   (map_option (Errorf ''failed to insert snapshot'')
      (snd (inserts_until_failure db hist (batch_rows time_Parse json_Marshal batch))),
    hist @ fst (inserts_until_failure db hist (batch_rows time_Parse json_Marshal batch)))"
proof (induction batch arbitrary: hist)
  case Nil
  then show ?case by (simp add: batch_rows_def List.map_filter_simps)
next
  case (Cons s rest)
  show ?case
  proof (cases "row_of time_Parse json_Marshal s")
    case None
    then have "batch_rows time_Parse json_Marshal (s # rest) =
               batch_rows time_Parse json_Marshal rest"
      by (simp add: batch_rows_def List.map_filter_simps)
    moreover from None have "StoreBatch_inserts time_Parse json_Marshal db hist (map Some (s # rest)) =
        StoreBatch_inserts time_Parse json_Marshal db hist (map Some rest)"
      by (auto simp: row_of_def ParseTimestamp_def ToJSON_def split: sum.splits)
    ultimately show ?thesis
      using Cons.IH [of hist] by simp
  next
    case (Some row)
    obtain ts data where row: "row = (ts, data)" by (cases row)
    from Some row have p: "ParseTimestamp time_Parse s = Inr ts" and j: "ToJSON json_Marshal s = Inr data"
      by (auto simp: row_of_def ParseTimestamp_def ToJSON_def split: sum.splits)
    from Some row have rows: "batch_rows time_Parse json_Marshal (s # rest) =
        (ts, data) # batch_rows time_Parse json_Marshal rest"
      by (simp add: batch_rows_def List.map_filter_simps)
    show ?thesis
    proof (cases "stmt_ExecContext db hist ts data")
      case None
      with p j rows Cons.IH [of "hist @ [StmtExecContext ts data None]"] show ?thesis
        by (simp add: Let_def inserts_until_failure_Cons del: inserts_until_failure.simps)
    next
      case (Some e)
      with p j rows show ?thesis
        by (simp add: Let_def inserts_until_failure_Cons del: inserts_until_failure.simps)
    qed
  qed
qed

lemma inserts_all_succeed:
  "snd (inserts_until_failure db hist rows) = None \<Longrightarrow>
   fst (inserts_until_failure db hist rows) = map (\<lambda>(ts, data). StmtExecContext ts data None) rows"
proof (induction rows arbitrary: hist)
  case Nil
  then show ?case by simp
next
  case (Cons row rows)
  obtain ts data where row: "row = (ts, data)" by (cases row)
  from Cons.prems show ?case
    unfolding row inserts_until_failure_Cons
    by (cases "stmt_ExecContext db hist ts data") (simp_all add: Cons.IH)
qed

lemma inserts_failure:
  "snd (inserts_until_failure db hist rows) = Some e \<Longrightarrow>
   \<exists>inserted ts data later.
     rows = inserted @ (ts, data) # later \<and>
     fst (inserts_until_failure db hist rows) =
       map (\<lambda>(ts, data). StmtExecContext ts data None) inserted @
       [StmtExecContext ts data (Some e)]"
proof (induction rows arbitrary: hist)
  case Nil
  then show ?case by simp
next
  case (Cons row rows)
  obtain ts data where row: "row = (ts, data)" by (cases row)
  show ?case
  proof (cases "stmt_ExecContext db hist ts data")
    case None
    with Cons.prems have "snd (inserts_until_failure db (hist @ [StmtExecContext ts data None]) rows) = Some e"
      by (simp add: row inserts_until_failure_Cons del: inserts_until_failure.simps)
    from Cons.IH [OF this] obtain inserted ts' data' later where
      r: "rows = inserted @ (ts', data') # later"
      and f: "fst (inserts_until_failure db (hist @ [StmtExecContext ts data None]) rows) =
       map (\<lambda>(ts, data). StmtExecContext ts data None) inserted @
       [StmtExecContext ts' data' (Some e)]"
      by blast
    have "row # rows = ((ts, data) # inserted) @ (ts', data') # later"
      using r by (simp add: row)
    moreover have "fst (inserts_until_failure db hist (row # rows)) =
       map (\<lambda>(ts, data). StmtExecContext ts data None) ((ts, data) # inserted) @
       [StmtExecContext ts' data' (Some e)]"
      using None f by (simp add: row inserts_until_failure_Cons del: inserts_until_failure.simps)
    ultimately show ?thesis by blast
  next
    case (Some e')
    with Cons.prems have "e' = e"
      by (simp add: row inserts_until_failure_Cons del: inserts_until_failure.simps)
    with Some have "row # rows = [] @ (ts, data) # rows \<and>
       fst (inserts_until_failure db hist (row # rows)) =
       map (\<lambda>(ts, data). StmtExecContext ts data None) [] @
       [StmtExecContext ts data (Some e)]"
      by (simp add: row inserts_until_failure_Cons del: inserts_until_failure.simps)
    then show ?thesis by blast
  qed
qed

lemma engine_inserts:
  "foldl engine_step (durable, Some pending)
     (map (\<lambda>(ts, data). StmtExecContext ts data None) rows) =
   (durable, Some (pending @ rows))"
  by (induction rows arbitrary: pending) auto

lemma persisted_rows_append:
  "persisted_rows (hist @ events) =
   fst (foldl engine_step (foldl engine_step ([], None) hist) events)"
  by (simp add: persisted_rows_def)

lemma engine_begin:
  "foldl engine_step state (BeginTx None # PrepareContext query None # events) =
   foldl engine_step (fst state, Some []) events"
  by (cases state) simp

text \<open>
  What the database holds after the events of a transaction, in terms of what it held
  before: nothing more after a rollback or a failed commit, the inserted rows after a
  successful commit.
\<close>

lemma engine_tx:
  "foldl engine_step state
     ([BeginTx None, PrepareContext query None] @
      map (\<lambda>(ts, data). StmtExecContext ts data None) rows @ tail) =
   foldl engine_step (fst state, Some rows) tail"
  by (cases state) (simp add: engine_inserts)

lemma persisted_rolled_back:
  "persisted_rows (hist @ [BeginTx None, PrepareContext query None] @
     map (\<lambda>(ts, data). StmtExecContext ts data None) rows @
     [StmtExecContext ts data (Some e), StmtClose, Rollback r]) = persisted_rows hist"
  unfolding persisted_rows_append engine_tx by (simp add: persisted_rows_def)

lemma persisted_committed:
  "persisted_rows (hist @ [BeginTx None, PrepareContext query None] @
     map (\<lambda>(ts, data). StmtExecContext ts data None) rows @
     [Commit None, StmtClose, Rollback r]) = persisted_rows hist @ rows"
  unfolding persisted_rows_append engine_tx by (simp add: persisted_rows_def)

lemma persisted_commit_failed:
  "persisted_rows (hist @ [BeginTx None, PrepareContext query None] @
     map (\<lambda>(ts, data). StmtExecContext ts data None) rows @
     [Commit (Some e), StmtClose, Rollback r]) = persisted_rows hist"
  unfolding persisted_rows_append engine_tx by (simp add: persisted_rows_def)

lemma persisted_prepare_failed:
  "persisted_rows (hist @ [BeginTx None, PrepareContext query (Some e), Rollback r]) =
   persisted_rows hist"
  unfolding persisted_rows_append
  by (cases "foldl engine_step ([], None) hist") (simp add: persisted_rows_def)

lemma StoreBatch_begun:
  assumes "db_BeginTx db hist = None"
    and "tx_PrepareContext db (hist @ [BeginTx None]) (insert_sql (driver d)) = None"
  shows "DatabaseStorage_StoreBatch time_Parse json_Marshal db d hist (map Some batch) =
    (let h0 = hist @ [BeginTx None, PrepareContext (insert_sql (driver d)) None];
         ins = inserts_until_failure db h0 (batch_rows time_Parse json_Marshal batch)
     in case snd ins of
          Some e \<Rightarrow>
            (Some (Errorf ''failed to insert snapshot'' e),
             h0 @ fst ins @ [StmtClose, Rollback (tx_Rollback db (h0 @ fst ins @ [StmtClose]))])
        | None \<Rightarrow>
            (tx_Commit db (h0 @ fst ins),
             h0 @ fst ins @ [Commit (tx_Commit db (h0 @ fst ins)), StmtClose,
               Rollback (tx_Rollback db
                 (h0 @ fst ins @ [Commit (tx_Commit db (h0 @ fst ins)), StmtClose]))]))"
  using assms
  by (simp add: DatabaseStorage_StoreBatch_def StoreBatch_inserts_eq Let_def
      split: option.splits)

text \<open>
  Claim C6. \<open>DatabaseStorage.StoreBatch\<close> on a batch of snapshots (no nil pointer among
  them), from any history of the connection. The rows of the batch are those of the
  snapshots whose timestamp parses and that serialise, in the order of the batch; the
  other snapshots leave no event and do not end the batch.

  \<^item> If the transaction cannot be begun, the call returns that error, wrapped, and nothing
    else is sent.
  \<^item> If the statement cannot be prepared, the call returns that error, wrapped, the
    deferred rollback runs, and the database holds what it held.
  \<^item> If the database refuses the insert of a row, the rows before it have been sent, no
    row after it is, the call returns that error, wrapped, the statement is closed and
    the transaction rolled back, without any commit: the database holds what it held,
    none of the rows of the batch.
  \<^item> If the database refuses no insert, every row is sent, in order, and then the commit;
    the call returns what the commit returns. After a successful commit the database
    holds the rows of the batch after what it held; after a failed one, what it held.
    The deferred rollback that follows the commit changes nothing.

  The 30-second deadline of the context is part of the driver: an insert that it cuts
  short is an insert that the database refuses.
\<close>

theorem C6_StoreBatch_transaction:
  "(db_BeginTx dba hist = Some ea \<longrightarrow>
      DatabaseStorage_StoreBatch time_Parse json_Marshal dba d hist (map Some batch) =
        (Some (Errorf ''failed to begin transaction'' ea), hist @ [BeginTx (Some ea)])) \<and>
   (db_BeginTx dbb hist = None \<and>
    tx_PrepareContext dbb (hist @ [BeginTx None]) (insert_sql (driver d)) = Some eb \<longrightarrow>
      (\<exists>r.
         DatabaseStorage_StoreBatch time_Parse json_Marshal dbb d hist (map Some batch) =
           (Some (Errorf ''failed to prepare statement'' eb),
            hist @ [BeginTx None, PrepareContext (insert_sql (driver d)) (Some eb), Rollback r]) \<and>
         persisted_rows (snd (DatabaseStorage_StoreBatch time_Parse json_Marshal dbb d hist (map Some batch))) =
           persisted_rows hist)) \<and>
   (db_BeginTx db hist = None \<and>
    tx_PrepareContext db (hist @ [BeginTx None]) (insert_sql (driver d)) = None \<and>
    snd (inserts_until_failure db (hist @ [BeginTx None, PrepareContext (insert_sql (driver d)) None])
           (batch_rows time_Parse json_Marshal refused)) = Some e \<longrightarrow>
      (\<exists>inserted ts data later r.
         batch_rows time_Parse json_Marshal refused = inserted @ (ts, data) # later \<and>
         DatabaseStorage_StoreBatch time_Parse json_Marshal db d hist (map Some refused) =
           (Some (Errorf ''failed to insert snapshot'' e),
            (hist @ [BeginTx None, PrepareContext (insert_sql (driver d)) None]) @
            map (\<lambda>(ts, data). StmtExecContext ts data None) inserted @
            [StmtExecContext ts data (Some e), StmtClose, Rollback r]) \<and>
         persisted_rows (snd (DatabaseStorage_StoreBatch time_Parse json_Marshal db d hist (map Some refused))) =
           persisted_rows hist)) \<and>
   (db_BeginTx db hist = None \<and>
    tx_PrepareContext db (hist @ [BeginTx None]) (insert_sql (driver d)) = None \<and>
    snd (inserts_until_failure db (hist @ [BeginTx None, PrepareContext (insert_sql (driver d)) None])
           (batch_rows time_Parse json_Marshal batch)) = None \<longrightarrow>
      (\<exists>committed r.
         DatabaseStorage_StoreBatch time_Parse json_Marshal db d hist (map Some batch) =
           (committed,
            (hist @ [BeginTx None, PrepareContext (insert_sql (driver d)) None]) @
            map (\<lambda>(ts, data). StmtExecContext ts data None) (batch_rows time_Parse json_Marshal batch) @
            [Commit committed, StmtClose, Rollback r]) \<and>
         (committed = None \<longrightarrow>
            persisted_rows (snd (DatabaseStorage_StoreBatch time_Parse json_Marshal db d hist (map Some batch))) =
              persisted_rows hist @ batch_rows time_Parse json_Marshal batch) \<and>
         (committed \<noteq> None \<longrightarrow>
            persisted_rows (snd (DatabaseStorage_StoreBatch time_Parse json_Marshal db d hist (map Some batch))) =
              persisted_rows hist)))"
proof (intro conjI impI)
  assume a: "db_BeginTx dba hist = Some ea"
  from a show "DatabaseStorage_StoreBatch time_Parse json_Marshal dba d hist (map Some batch) =
          (Some (Errorf ''failed to begin transaction'' ea), hist @ [BeginTx (Some ea)])"
    by (simp add: DatabaseStorage_StoreBatch_def Let_def)
next
  assume a: "db_BeginTx dbb hist = None \<and>
    tx_PrepareContext dbb (hist @ [BeginTx None]) (insert_sql (driver d)) = Some eb"
  from a show "(\<exists>r.
           DatabaseStorage_StoreBatch time_Parse json_Marshal dbb d hist (map Some batch) =
             (Some (Errorf ''failed to prepare statement'' eb),
              hist @ [BeginTx None, PrepareContext (insert_sql (driver d)) (Some eb), Rollback r]) \<and>
           persisted_rows (snd (DatabaseStorage_StoreBatch time_Parse json_Marshal dbb d hist (map Some batch))) =
             persisted_rows hist)"
    by (intro exI [of _ "tx_Rollback dbb
          (hist @ [BeginTx None, PrepareContext (insert_sql (driver d)) (Some eb)])"])
      (simp add: DatabaseStorage_StoreBatch_def Let_def persisted_prepare_failed)
next
  assume a: "db_BeginTx db hist = None \<and>
    tx_PrepareContext db (hist @ [BeginTx None]) (insert_sql (driver d)) = None \<and>
    snd (inserts_until_failure db (hist @ [BeginTx None, PrepareContext (insert_sql (driver d)) None])
           (batch_rows time_Parse json_Marshal refused)) = Some e"
  note sb = StoreBatch_begun [OF a [THEN conjunct1] a [THEN conjunct2, THEN conjunct1],
      of time_Parse json_Marshal refused]
  note f = a [THEN conjunct2, THEN conjunct2]
  from inserts_failure [OF f] obtain inserted ts data later where
    rows: "batch_rows time_Parse json_Marshal refused = inserted @ (ts, data) # later"
    and ev: "fst (inserts_until_failure db (hist @ [BeginTx None, PrepareContext (insert_sql (driver d)) None])
             (batch_rows time_Parse json_Marshal refused)) =
         map (\<lambda>(ts, data). StmtExecContext ts data None) inserted @ [StmtExecContext ts data (Some e)]"
    by blast
  define r where "r = tx_Rollback db ((hist @ [BeginTx None, PrepareContext (insert_sql (driver d)) None]) @
      (map (\<lambda>(ts, data). StmtExecContext ts data None) inserted @ [StmtExecContext ts data (Some e)]) @ [StmtClose])"
  have eq: "DatabaseStorage_StoreBatch time_Parse json_Marshal db d hist (map Some refused) =
      (Some (Errorf ''failed to insert snapshot'' e),
       (hist @ [BeginTx None, PrepareContext (insert_sql (driver d)) None]) @ map (\<lambda>(ts, data). StmtExecContext ts data None) inserted @
       [StmtExecContext ts data (Some e), StmtClose, Rollback r])"
    unfolding sb Let_def f ev r_def by simp
  have "persisted_rows (snd (DatabaseStorage_StoreBatch time_Parse json_Marshal db d hist (map Some refused))) = persisted_rows hist"
    unfolding eq snd_conv using persisted_rolled_back [of hist "(insert_sql (driver d))" inserted ts data e r]
    by simp
  with rows eq show "(\<exists>inserted ts data later r.
           batch_rows time_Parse json_Marshal refused = inserted @ (ts, data) # later \<and>
           DatabaseStorage_StoreBatch time_Parse json_Marshal db d hist (map Some refused) =
             (Some (Errorf ''failed to insert snapshot'' e),
              (hist @ [BeginTx None, PrepareContext (insert_sql (driver d)) None]) @
              map (\<lambda>(ts, data). StmtExecContext ts data None) inserted @
              [StmtExecContext ts data (Some e), StmtClose, Rollback r]) \<and>
           persisted_rows (snd (DatabaseStorage_StoreBatch time_Parse json_Marshal db d hist (map Some refused))) =
             persisted_rows hist)"
    by blast
next
  assume a: "db_BeginTx db hist = None \<and>
    tx_PrepareContext db (hist @ [BeginTx None]) (insert_sql (driver d)) = None \<and>
    snd (inserts_until_failure db (hist @ [BeginTx None, PrepareContext (insert_sql (driver d)) None])
           (batch_rows time_Parse json_Marshal batch)) = None"
  note sb = StoreBatch_begun [OF a [THEN conjunct1] a [THEN conjunct2, THEN conjunct1],
      of time_Parse json_Marshal batch]
  note f = a [THEN conjunct2, THEN conjunct2]
  note ev = inserts_all_succeed [OF f]
  define committed where "committed = tx_Commit db ((hist @ [BeginTx None, PrepareContext (insert_sql (driver d)) None]) @
      map (\<lambda>(ts, data). StmtExecContext ts data None) (batch_rows time_Parse json_Marshal batch))"
  define r where "r = tx_Rollback db ((hist @ [BeginTx None, PrepareContext (insert_sql (driver d)) None]) @
      map (\<lambda>(ts, data). StmtExecContext ts data None) (batch_rows time_Parse json_Marshal batch) @ [Commit committed, StmtClose])"
  have eq: "DatabaseStorage_StoreBatch time_Parse json_Marshal db d hist (map Some batch) =
      (committed, (hist @ [BeginTx None, PrepareContext (insert_sql (driver d)) None]) @ map (\<lambda>(ts, data). StmtExecContext ts data None) (batch_rows time_Parse json_Marshal batch) @
       [Commit committed, StmtClose, Rollback r])"
    unfolding sb Let_def f ev r_def committed_def by simp
  have p1: "committed = None \<longrightarrow>
      persisted_rows (snd (DatabaseStorage_StoreBatch time_Parse json_Marshal db d hist (map Some batch))) =
        persisted_rows hist @ batch_rows time_Parse json_Marshal batch"
    unfolding eq snd_conv
    using persisted_committed [of hist "(insert_sql (driver d))" "(batch_rows time_Parse json_Marshal batch)" r]
    by simp
  have p2: "committed \<noteq> None \<longrightarrow>
      persisted_rows (snd (DatabaseStorage_StoreBatch time_Parse json_Marshal db d hist (map Some batch))) = persisted_rows hist"
  proof
    assume "committed \<noteq> None"
    then obtain e' where "committed = Some e'" by blast
    then show "persisted_rows (snd (DatabaseStorage_StoreBatch time_Parse json_Marshal db d hist (map Some batch))) = persisted_rows hist"
      unfolding eq snd_conv
      using persisted_commit_failed [of hist "(insert_sql (driver d))" "(batch_rows time_Parse json_Marshal batch)" e' r]
      by simp
  qed
  from eq p1 p2 show "(\<exists>committed r.
           DatabaseStorage_StoreBatch time_Parse json_Marshal db d hist (map Some batch) =
             (committed,
              (hist @ [BeginTx None, PrepareContext (insert_sql (driver d)) None]) @
              map (\<lambda>(ts, data). StmtExecContext ts data None) (batch_rows time_Parse json_Marshal batch) @
              [Commit committed, StmtClose, Rollback r]) \<and>
           (committed = None \<longrightarrow>
              persisted_rows (snd (DatabaseStorage_StoreBatch time_Parse json_Marshal db d hist (map Some batch))) =
                persisted_rows hist @ batch_rows time_Parse json_Marshal batch) \<and>
           (committed \<noteq> None \<longrightarrow>
              persisted_rows (snd (DatabaseStorage_StoreBatch time_Parse json_Marshal db d hist (map Some batch))) =
                persisted_rows hist))"
    by blast
qed

text \<open>
  A PostgreSQL database that refuses the third payload: the batch of the snapshots of
  seconds 1, 3 and 2 is rolled back after the second insert; the batch of second 1, of a
  snapshot dated \<open>yesterday\<close>, of one that does not serialise and of second 2 is
  committed with two rows.
\<close>

theorem C6_StoreBatch_transaction_witness:
  "(db_BeginTx (example_db\<lparr>db_BeginTx := \<lambda>h. Some (External ''connection refused'')\<rparr>) [] = Some (External ''connection refused'')) \<and>
   (DatabaseStorage_StoreBatch (time_Parse_table example_times) (json_Marshal_table example_json) (example_db\<lparr>db_BeginTx := \<lambda>h. Some (External ''connection refused'')\<rparr>) (\<lparr>driver = ''postgres'', dsn = ''host=db''\<rparr>) [] (map Some ([example_value ''2024-01-01T00:00:01Z'' None, example_value ''yesterday'' None, example_value ''2024-01-01T00:00:02Z'' (Some (example_runtime 4)), example_value ''2024-01-01T00:00:02Z'' None])) =
        (Some (Errorf ''failed to begin transaction'' (External ''connection refused'')), [] @ [BeginTx (Some (External ''connection refused''))])) \<and>
   (db_BeginTx (example_db\<lparr>tx_PrepareContext := \<lambda>h q. Some (External ''syntax error'')\<rparr>) [] = None \<and>
    tx_PrepareContext (example_db\<lparr>tx_PrepareContext := \<lambda>h q. Some (External ''syntax error'')\<rparr>) ([] @ [BeginTx None]) (insert_sql (driver (\<lparr>driver = ''postgres'', dsn = ''host=db''\<rparr>))) = Some (External ''syntax error'')) \<and>
   ((\<exists>r.
         DatabaseStorage_StoreBatch (time_Parse_table example_times) (json_Marshal_table example_json) (example_db\<lparr>tx_PrepareContext := \<lambda>h q. Some (External ''syntax error'')\<rparr>) (\<lparr>driver = ''postgres'', dsn = ''host=db''\<rparr>) [] (map Some ([example_value ''2024-01-01T00:00:01Z'' None, example_value ''yesterday'' None, example_value ''2024-01-01T00:00:02Z'' (Some (example_runtime 4)), example_value ''2024-01-01T00:00:02Z'' None])) =
           (Some (Errorf ''failed to prepare statement'' (External ''syntax error'')),
            [] @ [BeginTx None, PrepareContext (insert_sql (driver (\<lparr>driver = ''postgres'', dsn = ''host=db''\<rparr>))) (Some (External ''syntax error'')), Rollback r]) \<and>
         persisted_rows (snd (DatabaseStorage_StoreBatch (time_Parse_table example_times) (json_Marshal_table example_json) (example_db\<lparr>tx_PrepareContext := \<lambda>h q. Some (External ''syntax error'')\<rparr>) (\<lparr>driver = ''postgres'', dsn = ''host=db''\<rparr>) [] (map Some ([example_value ''2024-01-01T00:00:01Z'' None, example_value ''yesterday'' None, example_value ''2024-01-01T00:00:02Z'' (Some (example_runtime 4)), example_value ''2024-01-01T00:00:02Z'' None])))) =
           persisted_rows [])) \<and>
   (db_BeginTx example_db [] = None \<and>
    tx_PrepareContext example_db ([] @ [BeginTx None]) (insert_sql (driver (\<lparr>driver = ''postgres'', dsn = ''host=db''\<rparr>))) = None \<and>
    snd (inserts_until_failure example_db ([] @ [BeginTx None, PrepareContext (insert_sql (driver (\<lparr>driver = ''postgres'', dsn = ''host=db''\<rparr>))) None])
           (batch_rows (time_Parse_table example_times) (json_Marshal_table example_json) ([example_value ''2024-01-01T00:00:01Z'' None, example_value ''2024-01-01T00:00:03Z'' None, example_value ''2024-01-01T00:00:02Z'' None]))) = Some (External ''duplicate key value'')) \<and>
   ((\<exists>inserted ts data later r.
         batch_rows (time_Parse_table example_times) (json_Marshal_table example_json) ([example_value ''2024-01-01T00:00:01Z'' None, example_value ''2024-01-01T00:00:03Z'' None, example_value ''2024-01-01T00:00:02Z'' None]) = inserted @ (ts, data) # later \<and>
         DatabaseStorage_StoreBatch (time_Parse_table example_times) (json_Marshal_table example_json) example_db (\<lparr>driver = ''postgres'', dsn = ''host=db''\<rparr>) [] (map Some ([example_value ''2024-01-01T00:00:01Z'' None, example_value ''2024-01-01T00:00:03Z'' None, example_value ''2024-01-01T00:00:02Z'' None])) =
           (Some (Errorf ''failed to insert snapshot'' (External ''duplicate key value'')),
            ([] @ [BeginTx None, PrepareContext (insert_sql (driver (\<lparr>driver = ''postgres'', dsn = ''host=db''\<rparr>))) None]) @
            map (\<lambda>(ts, data). StmtExecContext ts data None) inserted @
            [StmtExecContext ts data (Some (External ''duplicate key value'')), StmtClose, Rollback r]) \<and>
         persisted_rows (snd (DatabaseStorage_StoreBatch (time_Parse_table example_times) (json_Marshal_table example_json) example_db (\<lparr>driver = ''postgres'', dsn = ''host=db''\<rparr>) [] (map Some ([example_value ''2024-01-01T00:00:01Z'' None, example_value ''2024-01-01T00:00:03Z'' None, example_value ''2024-01-01T00:00:02Z'' None])))) =
           persisted_rows [])) \<and>
   (db_BeginTx example_db [] = None \<and>
    tx_PrepareContext example_db ([] @ [BeginTx None]) (insert_sql (driver (\<lparr>driver = ''postgres'', dsn = ''host=db''\<rparr>))) = None \<and>
    snd (inserts_until_failure example_db ([] @ [BeginTx None, PrepareContext (insert_sql (driver (\<lparr>driver = ''postgres'', dsn = ''host=db''\<rparr>))) None])
           (batch_rows (time_Parse_table example_times) (json_Marshal_table example_json) ([example_value ''2024-01-01T00:00:01Z'' None, example_value ''yesterday'' None, example_value ''2024-01-01T00:00:02Z'' (Some (example_runtime 4)), example_value ''2024-01-01T00:00:02Z'' None]))) = None) \<and>
   ((\<exists>committed r.
         DatabaseStorage_StoreBatch (time_Parse_table example_times) (json_Marshal_table example_json) example_db (\<lparr>driver = ''postgres'', dsn = ''host=db''\<rparr>) [] (map Some ([example_value ''2024-01-01T00:00:01Z'' None, example_value ''yesterday'' None, example_value ''2024-01-01T00:00:02Z'' (Some (example_runtime 4)), example_value ''2024-01-01T00:00:02Z'' None])) =
           (committed,
            ([] @ [BeginTx None, PrepareContext (insert_sql (driver (\<lparr>driver = ''postgres'', dsn = ''host=db''\<rparr>))) None]) @
            map (\<lambda>(ts, data). StmtExecContext ts data None) (batch_rows (time_Parse_table example_times) (json_Marshal_table example_json) ([example_value ''2024-01-01T00:00:01Z'' None, example_value ''yesterday'' None, example_value ''2024-01-01T00:00:02Z'' (Some (example_runtime 4)), example_value ''2024-01-01T00:00:02Z'' None])) @
            [Commit committed, StmtClose, Rollback r]) \<and>
         (committed = None \<longrightarrow>
            persisted_rows (snd (DatabaseStorage_StoreBatch (time_Parse_table example_times) (json_Marshal_table example_json) example_db (\<lparr>driver = ''postgres'', dsn = ''host=db''\<rparr>) [] (map Some ([example_value ''2024-01-01T00:00:01Z'' None, example_value ''yesterday'' None, example_value ''2024-01-01T00:00:02Z'' (Some (example_runtime 4)), example_value ''2024-01-01T00:00:02Z'' None])))) =
              persisted_rows [] @ batch_rows (time_Parse_table example_times) (json_Marshal_table example_json) ([example_value ''2024-01-01T00:00:01Z'' None, example_value ''yesterday'' None, example_value ''2024-01-01T00:00:02Z'' (Some (example_runtime 4)), example_value ''2024-01-01T00:00:02Z'' None])) \<and>
         (committed \<noteq> None \<longrightarrow>
            persisted_rows (snd (DatabaseStorage_StoreBatch (time_Parse_table example_times) (json_Marshal_table example_json) example_db (\<lparr>driver = ''postgres'', dsn = ''host=db''\<rparr>) [] (map Some ([example_value ''2024-01-01T00:00:01Z'' None, example_value ''yesterday'' None, example_value ''2024-01-01T00:00:02Z'' (Some (example_runtime 4)), example_value ''2024-01-01T00:00:02Z'' None])))) =
              persisted_rows []))) \<and>
   (batch_rows (time_Parse_table example_times) (json_Marshal_table example_json) [example_value ''2024-01-01T00:00:01Z'' None, example_value ''yesterday'' None, example_value ''2024-01-01T00:00:02Z'' (Some (example_runtime 4)), example_value ''2024-01-01T00:00:02Z'' None] =
     [(1704067201000000000, ''{timestamp:2024-01-01T00:00:01Z}''), (1704067202000000000, ''{timestamp:2024-01-01T00:00:02Z}'')]) \<and>
   (DatabaseStorage_StoreBatch (time_Parse_table example_times) (json_Marshal_table example_json) example_db (\<lparr>driver = ''postgres'', dsn = ''host=db''\<rparr>) [] (map Some [example_value ''2024-01-01T00:00:01Z'' None, example_value ''yesterday'' None, example_value ''2024-01-01T00:00:02Z'' (Some (example_runtime 4)), example_value ''2024-01-01T00:00:02Z'' None]) =
     (None,
      [BeginTx None, PrepareContext ''INSERT INTO inspectd_snapshots (timestamp, data) VALUES ($1, $2::jsonb)'' None,
       StmtExecContext 1704067201000000000 ''{timestamp:2024-01-01T00:00:01Z}'' None,
       StmtExecContext 1704067202000000000 ''{timestamp:2024-01-01T00:00:02Z}'' None,
       Commit None, StmtClose, Rollback None])) \<and>
   (DatabaseStorage_StoreBatch (time_Parse_table example_times) (json_Marshal_table example_json) example_db (\<lparr>driver = ''postgres'', dsn = ''host=db''\<rparr>) [] (map Some [example_value ''2024-01-01T00:00:01Z'' None, example_value ''2024-01-01T00:00:03Z'' None, example_value ''2024-01-01T00:00:02Z'' None]) =
     (Some (Errorf ''failed to insert snapshot'' (External ''duplicate key value'')),
      [BeginTx None, PrepareContext ''INSERT INTO inspectd_snapshots (timestamp, data) VALUES ($1, $2::jsonb)'' None,
       StmtExecContext 1704067201000000000 ''{timestamp:2024-01-01T00:00:01Z}'' None,
       StmtExecContext 1704067203000000000 ''{timestamp:2024-01-01T00:00:03Z}'' (Some (External ''duplicate key value'')),
       StmtClose, Rollback None]))"
proof -
  note inst = C6_StoreBatch_transaction [where time_Parse = "time_Parse_table example_times"
      and json_Marshal = "json_Marshal_table example_json"
      and d = "\<lparr>driver = ''postgres'', dsn = ''host=db''\<rparr>"
      and hist = "[]"
      and dba = "example_db\<lparr>db_BeginTx := \<lambda>h. Some (External ''connection refused'')\<rparr>"
      and dbb = "example_db\<lparr>tx_PrepareContext := \<lambda>h q. Some (External ''syntax error'')\<rparr>"
      and db = "example_db"
      and ea = "External ''connection refused''"
      and eb = "External ''syntax error''"
      and e = "External ''duplicate key value''"
      and refused = "[example_value ''2024-01-01T00:00:01Z'' None, example_value ''2024-01-01T00:00:03Z'' None, example_value ''2024-01-01T00:00:02Z'' None]"
      and batch = "[example_value ''2024-01-01T00:00:01Z'' None, example_value ''yesterday'' None, example_value ''2024-01-01T00:00:02Z'' (Some (example_runtime 4)), example_value ''2024-01-01T00:00:02Z'' None]"]
  have h1: "db_BeginTx (example_db\<lparr>db_BeginTx := \<lambda>h. Some (External ''connection refused'')\<rparr>) [] = Some (External ''connection refused'')"
    by (simp add: example_db_def)
  note c1 = inst [THEN conjunct1, THEN mp, OF h1]
  have h2: "db_BeginTx (example_db\<lparr>tx_PrepareContext := \<lambda>h q. Some (External ''syntax error'')\<rparr>) [] = None \<and>
    tx_PrepareContext (example_db\<lparr>tx_PrepareContext := \<lambda>h q. Some (External ''syntax error'')\<rparr>) ([] @ [BeginTx None]) (insert_sql (driver (\<lparr>driver = ''postgres'', dsn = ''host=db''\<rparr>))) = Some (External ''syntax error'')"
    by (simp add: example_db_def)
  note c2 = inst [THEN conjunct2, THEN conjunct1, THEN mp, OF h2]
  have h3: "db_BeginTx example_db [] = None \<and>
    tx_PrepareContext example_db ([] @ [BeginTx None]) (insert_sql (driver (\<lparr>driver = ''postgres'', dsn = ''host=db''\<rparr>))) = None \<and>
    snd (inserts_until_failure example_db ([] @ [BeginTx None, PrepareContext (insert_sql (driver (\<lparr>driver = ''postgres'', dsn = ''host=db''\<rparr>))) None])
           (batch_rows (time_Parse_table example_times) (json_Marshal_table example_json) ([example_value ''2024-01-01T00:00:01Z'' None, example_value ''2024-01-01T00:00:03Z'' None, example_value ''2024-01-01T00:00:02Z'' None]))) = Some (External ''duplicate key value'')"
    by (simp add: example_db_def insert_sql_def batch_rows_def row_of_def List.map_filter_def
        time_Parse_table_def example_times_def json_Marshal_table_def example_json_def
        example_value_def)
  note c3 = inst [THEN conjunct2, THEN conjunct2, THEN conjunct1, THEN mp, OF h3]
  have h4: "db_BeginTx example_db [] = None \<and>
    tx_PrepareContext example_db ([] @ [BeginTx None]) (insert_sql (driver (\<lparr>driver = ''postgres'', dsn = ''host=db''\<rparr>))) = None \<and>
    snd (inserts_until_failure example_db ([] @ [BeginTx None, PrepareContext (insert_sql (driver (\<lparr>driver = ''postgres'', dsn = ''host=db''\<rparr>))) None])
           (batch_rows (time_Parse_table example_times) (json_Marshal_table example_json) ([example_value ''2024-01-01T00:00:01Z'' None, example_value ''yesterday'' None, example_value ''2024-01-01T00:00:02Z'' (Some (example_runtime 4)), example_value ''2024-01-01T00:00:02Z'' None]))) = None"
    by (simp add: example_db_def insert_sql_def batch_rows_def row_of_def List.map_filter_def
        time_Parse_table_def example_times_def json_Marshal_table_def example_json_def
        example_value_def)
  note c4 = inst [THEN conjunct2, THEN conjunct2, THEN conjunct2, THEN mp, OF h4]
  have x1: "batch_rows (time_Parse_table example_times) (json_Marshal_table example_json) [example_value ''2024-01-01T00:00:01Z'' None, example_value ''yesterday'' None, example_value ''2024-01-01T00:00:02Z'' (Some (example_runtime 4)), example_value ''2024-01-01T00:00:02Z'' None] =
     [(1704067201000000000, ''{timestamp:2024-01-01T00:00:01Z}''), (1704067202000000000, ''{timestamp:2024-01-01T00:00:02Z}'')]"
    by (simp add: example_db_def insert_sql_def batch_rows_def row_of_def List.map_filter_def
        time_Parse_table_def example_times_def json_Marshal_table_def example_json_def
        example_value_def)
  have x2: "DatabaseStorage_StoreBatch (time_Parse_table example_times) (json_Marshal_table example_json) example_db (\<lparr>driver = ''postgres'', dsn = ''host=db''\<rparr>) [] (map Some [example_value ''2024-01-01T00:00:01Z'' None, example_value ''yesterday'' None, example_value ''2024-01-01T00:00:02Z'' (Some (example_runtime 4)), example_value ''2024-01-01T00:00:02Z'' None]) =
     (None,
      [BeginTx None, PrepareContext ''INSERT INTO inspectd_snapshots (timestamp, data) VALUES ($1, $2::jsonb)'' None,
       StmtExecContext 1704067201000000000 ''{timestamp:2024-01-01T00:00:01Z}'' None,
       StmtExecContext 1704067202000000000 ''{timestamp:2024-01-01T00:00:02Z}'' None,
       Commit None, StmtClose, Rollback None])"
    by (simp add: DatabaseStorage_StoreBatch_def ParseTimestamp_def ToJSON_def
        example_db_def insert_sql_def batch_rows_def row_of_def List.map_filter_def
        time_Parse_table_def example_times_def json_Marshal_table_def example_json_def
        example_value_def)
  have x3: "DatabaseStorage_StoreBatch (time_Parse_table example_times) (json_Marshal_table example_json) example_db (\<lparr>driver = ''postgres'', dsn = ''host=db''\<rparr>) [] (map Some [example_value ''2024-01-01T00:00:01Z'' None, example_value ''2024-01-01T00:00:03Z'' None, example_value ''2024-01-01T00:00:02Z'' None]) =
     (Some (Errorf ''failed to insert snapshot'' (External ''duplicate key value'')),
      [BeginTx None, PrepareContext ''INSERT INTO inspectd_snapshots (timestamp, data) VALUES ($1, $2::jsonb)'' None,
       StmtExecContext 1704067201000000000 ''{timestamp:2024-01-01T00:00:01Z}'' None,
       StmtExecContext 1704067203000000000 ''{timestamp:2024-01-01T00:00:03Z}'' (Some (External ''duplicate key value'')),
       StmtClose, Rollback None])"
    by (simp add: DatabaseStorage_StoreBatch_def ParseTimestamp_def ToJSON_def
        example_db_def insert_sql_def batch_rows_def row_of_def List.map_filter_def
        time_Parse_table_def example_times_def json_Marshal_table_def example_json_def
        example_value_def)
  show ?thesis
    by (intro conjI [OF h1] conjI [OF c1] conjI [OF h2] conjI [OF c2] conjI [OF h3] conjI [OF c3] conjI [OF h4] conjI [OF c4] conjI [OF x1] conjI [OF x2] x3)
qed

section \<open>The tables that the statements name\<close>





















end
